(* ===== verification/Kernel_Prelude.thy ===== *)
theory Kernel_Prelude
  imports Main "HOL-Library.Word"
begin

text \<open>
  Shared vocabulary of the development: machine integer types, error codes, the generic helper
  macros of the kernel, and the record \<open>kenv\<close> of constants and pure macros that the sources under
  \<^verbatim>\<open>src/\<close> use but that are defined in headers outside it (\<^verbatim>\<open>linux/sched/prio.h\<close>,
  \<^verbatim>\<open>uapi/linux/sched.h\<close>, \<^verbatim>\<open>kernel/sched/sched.h\<close>, the configuration).  Every definition
  that needs one of them takes the record as an argument.  What the code relies on is stated by the
  locales \<open>prio_h\<close>, \<open>policy_h\<close>, \<open>attr_h\<close> and \<open>uclamp_conf\<close>, which say what those headers document;
  \<open>kenv_v5_17\<close> is the instance of Linux 5.17 and interprets all of them.

  A C identifier that starts with two underscores is written with a leading \<open>k\<close>, because an Isabelle
  name starts with a letter: \<^verbatim>\<open>__task_prio\<close> is \<open>k__task_prio\<close>.  Fields of \<^verbatim>\<open>task_struct\<close> carry the
  prefix \<open>t_\<close>, fields of \<^verbatim>\<open>struct rq\<close> the prefix \<open>rq_\<close>.
\<close>

unbundle bit_operations_syntax

named_theorems state_defs \<open>definitions of the setters on the kernel state\<close>
named_theorems frame \<open>fields that an operation leaves alone\<close>

subsection \<open>Machine integers and error codes\<close>

type_synonym u8 = "8 word"
type_synonym u16 = "16 word"
type_synonym u32 = "32 word"
type_synonym u64 = "64 word"

type_synonym tid = nat \<comment> \<open>address of a \<^verbatim>\<open>task_struct\<close>\<close>
type_synonym cpu = nat

datatype errno =
  EPERM | ENOENT | ESRCH | EINTR | EIO | E2BIG | EAGAIN | ENOMEM | EACCES | EFAULT | EBUSY | EEXIST
  | EINVAL | ENOSPC | ERANGE | ENODEV | EOPNOTSUPP | EPIPE | ECANCELED | ERESTARTNOINTR

text \<open>A kernel function that returns a negative error code or a value.\<close>

type_synonym 'a result = "errno + 'a"

subsection \<open>Generic helpers of the kernel\<close>

definition clamp :: "'a::linorder \<Rightarrow> 'a \<Rightarrow> 'a \<Rightarrow> 'a" where
  "clamp v lo hi = min (max v lo) hi"

text \<open>\<^verbatim>\<open>DIV_ROUND_CLOSEST(x, d)\<close> on unsigned operands.\<close>

definition DIV_ROUND_CLOSEST :: "nat \<Rightarrow> nat \<Rightarrow> nat" where
  "DIV_ROUND_CLOSEST x d = (x + d div 2) div d"

text \<open>\<^verbatim>\<open>fls\<close>: the position of the highest set bit, counted from one, and zero for zero.\<close>

fun fls_below :: "nat \<Rightarrow> 'a::len word \<Rightarrow> nat" where
  "fls_below 0 w = 0"
| "fls_below (Suc n) w = (if bit w n then Suc n else fls_below n w)"

definition fls :: "u32 \<Rightarrow> nat" where
  "fls w = fls_below 32 w"

text \<open>A test of the form \<^verbatim>\<open>if (flags & mask)\<close>.\<close>

definition flag_set :: "'a::len word \<Rightarrow> 'a word \<Rightarrow> bool" where
  "flag_set w m \<longleftrightarrow> w AND m \<noteq> 0"

lemma clamp_bounds:
  assumes "lo \<le> hi"
  shows "lo \<le> clamp v lo hi" and "clamp v lo hi \<le> hi"
  using assms by (auto simp: clamp_def)

lemma clamp_id [simp]: "lo \<le> v \<Longrightarrow> v \<le> hi \<Longrightarrow> clamp v lo hi = v"
  by (simp add: clamp_def)

lemma clamp_mono: "v \<le> w \<Longrightarrow> clamp v lo hi \<le> clamp w lo hi"
  by (auto simp: clamp_def min_def max_def)

lemma fls_below_le: "fls_below n w \<le> n"
  by (induction n) auto

lemma fls_below_less: "(\<And>i. i < n \<Longrightarrow> m \<le> i \<Longrightarrow> \<not> bit w i) \<Longrightarrow> fls_below n w \<le> m"
proof (induction n)
  case 0
  then show ?case by simp
next
  case (Suc n)
  then show ?case by (cases "m \<le> n") (auto simp: not_le)
qed

lemma flag_set_0 [simp]: "\<not> flag_set w 0"
  by (simp add: flag_set_def)

lemma flag_set_zero [simp]: "\<not> flag_set 0 m"
  by (simp add: flag_set_def)

lemma flag_set_or: "flag_set w (a OR b) \<longleftrightarrow> flag_set w a \<or> flag_set w b"
  by (auto simp: flag_set_def bit_eq_iff bit_and_iff bit_or_iff)

lemma flag_set_or_left: "flag_set (v OR w) m \<longleftrightarrow> flag_set v m \<or> flag_set w m"
  by (auto simp: flag_set_def bit_eq_iff bit_and_iff bit_or_iff)

subsection \<open>Scheduling classes\<close>

datatype sched_class =
  idle_sched_class | fair_sched_class | rt_sched_class | dl_sched_class | stop_sched_class

text \<open>
  The classes are laid out in one array, so that \<^verbatim>\<open>p->sched_class > q->sched_class\<close> compares their
  rank; \<^verbatim>\<open>sched_init\<close> asserts this layout with \<^verbatim>\<open>BUG_ON\<close>.
\<close>

primrec class_index :: "sched_class \<Rightarrow> nat" where
  "class_index idle_sched_class = 0"
| "class_index fair_sched_class = 1"
| "class_index rt_sched_class = 2"
| "class_index dl_sched_class = 3"
| "class_index stop_sched_class = 4"

lemma class_index_inj: "class_index a = class_index b \<Longrightarrow> a = b"
  by (cases a; cases b) simp_all

instantiation sched_class :: linorder
begin

definition less_eq_sched_class :: "sched_class \<Rightarrow> sched_class \<Rightarrow> bool" where
  "less_eq_sched_class a b \<longleftrightarrow> class_index a \<le> class_index b"

definition less_sched_class :: "sched_class \<Rightarrow> sched_class \<Rightarrow> bool" where
  "less_sched_class a b \<longleftrightarrow> class_index a < class_index b"

instance
  by standard (auto simp: less_eq_sched_class_def less_sched_class_def dest: class_index_inj)

end

subsection \<open>Constants and macros of the headers\<close>

record kenv =
  \<comment> \<open>\<^verbatim>\<open>linux/sched/prio.h\<close>, \<^verbatim>\<open>linux/sched/rt.h\<close>, \<^verbatim>\<open>linux/sched/deadline.h\<close>\<close>
  MAX_RT_PRIO :: int
  MAX_DL_PRIO :: int
  MIN_NICE :: int
  MAX_NICE :: int
  NICE_WIDTH :: int
  NICE_TO_PRIO :: "int \<Rightarrow> int"
  PRIO_TO_NICE :: "int \<Rightarrow> int"
  nice_to_rlimit :: "int \<Rightarrow> int"
  rt_prio :: "int \<Rightarrow> bool"
  dl_prio :: "int \<Rightarrow> bool"
  \<comment> \<open>\<^verbatim>\<open>uapi/linux/sched.h\<close> and the policy tests of \<^verbatim>\<open>kernel/sched/sched.h\<close>\<close>
  SCHED_NORMAL :: int
  SCHED_FIFO :: int
  SCHED_RR :: int
  SCHED_BATCH :: int
  SCHED_IDLE :: int
  SCHED_DEADLINE :: int
  valid_policy :: "int \<Rightarrow> bool"
  fair_policy :: "int \<Rightarrow> bool"
  rt_policy :: "int \<Rightarrow> bool"
  dl_policy :: "int \<Rightarrow> bool"
  idle_policy :: "int \<Rightarrow> bool"
  \<comment> \<open>load weights, \<^verbatim>\<open>kernel/sched/sched.h\<close>\<close>
  scale_load :: "nat \<Rightarrow> nat"
  WEIGHT_IDLEPRIO :: nat
  WMULT_IDLEPRIO :: nat
  oob_read :: "int \<Rightarrow> nat" \<comment> \<open>what a read behind the end of a weight table finds\<close>
  \<comment> \<open>flags of enqueue and dequeue, \<^verbatim>\<open>kernel/sched/sched.h\<close>\<close>
  DEQUEUE_SLEEP :: u32
  DEQUEUE_SAVE :: u32
  DEQUEUE_MOVE :: u32
  DEQUEUE_NOCLOCK :: u32
  ENQUEUE_WAKEUP :: u32
  ENQUEUE_RESTORE :: u32
  ENQUEUE_MOVE :: u32
  ENQUEUE_NOCLOCK :: u32
  ENQUEUE_HEAD :: u32
  ENQUEUE_REPLENISH :: u32
  ENQUEUE_MIGRATED :: u32
  RQCF_REQ_SKIP :: u32
  RQCF_ACT_SKIP :: u32
  RQCF_UPDATED :: u32
  SCA_CHECK :: u32
  SCA_MIGRATE_DISABLE :: u32
  SCA_MIGRATE_ENABLE :: u32
  SCA_USER :: u32
  MDF_PUSH :: u32
  WF_EXEC :: u32
  WF_FORK :: u32
  WF_TTWU :: u32
  WF_SYNC :: u32
  WF_MIGRATED :: u32
  WF_ON_CPU :: u32
  \<comment> \<open>configuration of utilization clamping, and \<^verbatim>\<open>bits_per\<close> of \<^verbatim>\<open>linux/log2.h\<close>\<close>
  UCLAMP_BUCKETS :: nat
  bits_per :: "nat \<Rightarrow> nat"
  uclamp_enabled :: "sched_class \<Rightarrow> bool"
  \<comment> \<open>flags and sizes of \<^verbatim>\<open>struct sched_attr\<close>, \<^verbatim>\<open>uapi/linux/sched.h\<close>\<close>
  SCHED_FLAG_RESET_ON_FORK :: u64
  SCHED_FLAG_KEEP_POLICY :: u64
  SCHED_FLAG_KEEP_PARAMS :: u64
  SCHED_FLAG_UTIL_CLAMP_MIN :: u64
  SCHED_FLAG_UTIL_CLAMP_MAX :: u64
  SCHED_FLAG_UTIL_CLAMP :: u64
  SCHED_FLAG_ALL :: u64
  SCHED_FLAG_SUGOV :: u64
  SCHED_RESET_ON_FORK :: u32
  SCHED_ATTR_SIZE_VER0 :: nat
  SCHED_ATTR_SIZE_VER1 :: nat
  sizeof_sched_attr :: nat
  PAGE_SIZE :: nat

text \<open>What \<^verbatim>\<open>linux/sched/prio.h\<close> and its neighbours document.\<close>

locale prio_h =
  fixes e :: kenv
  assumes MAX_RT_PRIO: "MAX_RT_PRIO e = 100"
    and MAX_DL_PRIO: "MAX_DL_PRIO e = 0"
    and MIN_NICE: "MIN_NICE e = -20"
    and MAX_NICE: "MAX_NICE e = 19"
    and NICE_WIDTH: "NICE_WIDTH e = 40"
    and NICE_TO_PRIO: "NICE_TO_PRIO e n = n + 120"
    and PRIO_TO_NICE: "PRIO_TO_NICE e p = p - 120"
    and nice_to_rlimit: "nice_to_rlimit e n = 20 - n"
    and rt_prio: "rt_prio e p \<longleftrightarrow> p < 100"
    and dl_prio: "dl_prio e p \<longleftrightarrow> p < 0"
begin

lemmas prio_h_simps =
  MAX_RT_PRIO MAX_DL_PRIO MIN_NICE MAX_NICE NICE_WIDTH NICE_TO_PRIO PRIO_TO_NICE nice_to_rlimit
  rt_prio dl_prio

lemma nice_prio_inverse: "PRIO_TO_NICE e (NICE_TO_PRIO e n) = n"
  by (simp add: NICE_TO_PRIO PRIO_TO_NICE)

end

text \<open>The scheduling policies of \<^verbatim>\<open>uapi/linux/sched.h\<close>.\<close>

locale policy_h =
  fixes e :: kenv
  assumes SCHED_NORMAL: "SCHED_NORMAL e = 0"
    and SCHED_FIFO: "SCHED_FIFO e = 1"
    and SCHED_RR: "SCHED_RR e = 2"
    and SCHED_BATCH: "SCHED_BATCH e = 3"
    and SCHED_IDLE: "SCHED_IDLE e = 5"
    and SCHED_DEADLINE: "SCHED_DEADLINE e = 6"
    and fair_policy: "fair_policy e p \<longleftrightarrow> p = SCHED_NORMAL e \<or> p = SCHED_BATCH e"
    and rt_policy: "rt_policy e p \<longleftrightarrow> p = SCHED_FIFO e \<or> p = SCHED_RR e"
    and dl_policy: "dl_policy e p \<longleftrightarrow> p = SCHED_DEADLINE e"
    and idle_policy: "idle_policy e p \<longleftrightarrow> p = SCHED_IDLE e"
    and valid_policy: "valid_policy e p \<longleftrightarrow>
      idle_policy e p \<or> fair_policy e p \<or> rt_policy e p \<or> dl_policy e p"
begin

lemmas policy_h_simps =
  SCHED_NORMAL SCHED_FIFO SCHED_RR SCHED_BATCH SCHED_IDLE SCHED_DEADLINE
  fair_policy rt_policy dl_policy idle_policy valid_policy

text \<open>The policy classes are disjoint.\<close>

lemma policies_disjoint:
  "\<not> (rt_policy e p \<and> dl_policy e p)" "\<not> (fair_policy e p \<and> rt_policy e p)"
  "\<not> (fair_policy e p \<and> dl_policy e p)" "\<not> (idle_policy e p \<and> rt_policy e p)"
  by (auto simp: policy_h_simps)

end

text \<open>
  \<^verbatim>\<open>CONFIG_UCLAMP_BUCKETS_COUNT\<close> lies between 5 and 20, and \<^verbatim>\<open>bits_per(n)\<close> is the number of bits
  that hold \<open>n\<close>.
\<close>

locale uclamp_conf =
  fixes e :: kenv
  assumes buckets_min: "5 \<le> UCLAMP_BUCKETS e" and buckets_max: "UCLAMP_BUCKETS e \<le> 20"
    and bits_per: "n < 2 ^ bits_per e n"
    and bits_per_le: "0 < n \<Longrightarrow> 2 ^ (bits_per e n - 1) \<le> n"

text \<open>The flags of \<^verbatim>\<open>struct sched_attr\<close>.\<close>

locale attr_h =
  fixes e :: kenv
  assumes SCHED_FLAG_RESET_ON_FORK: "SCHED_FLAG_RESET_ON_FORK e = 0x01"
    and SCHED_FLAG_KEEP_POLICY: "SCHED_FLAG_KEEP_POLICY e = 0x08"
    and SCHED_FLAG_KEEP_PARAMS: "SCHED_FLAG_KEEP_PARAMS e = 0x10"
    and SCHED_FLAG_UTIL_CLAMP_MIN: "SCHED_FLAG_UTIL_CLAMP_MIN e = 0x20"
    and SCHED_FLAG_UTIL_CLAMP_MAX: "SCHED_FLAG_UTIL_CLAMP_MAX e = 0x40"
    and SCHED_FLAG_UTIL_CLAMP: "SCHED_FLAG_UTIL_CLAMP e =
      SCHED_FLAG_UTIL_CLAMP_MIN e OR SCHED_FLAG_UTIL_CLAMP_MAX e"
    and SCHED_FLAG_ALL: "SCHED_FLAG_ALL e = 0x7f"
    and SCHED_FLAG_SUGOV: "SCHED_FLAG_SUGOV e = 0x10000000"
    and SCHED_RESET_ON_FORK: "SCHED_RESET_ON_FORK e = 0x40000000"
    and SCHED_ATTR_SIZE_VER0: "SCHED_ATTR_SIZE_VER0 e = 48"
    and SCHED_ATTR_SIZE_VER1: "SCHED_ATTR_SIZE_VER1 e = 56"
    and sizeof_sched_attr: "sizeof_sched_attr e = 56"
    and PAGE_SIZE: "PAGE_SIZE e = 4096"
begin

lemmas attr_h_simps =
  SCHED_FLAG_RESET_ON_FORK SCHED_FLAG_KEEP_POLICY SCHED_FLAG_KEEP_PARAMS SCHED_FLAG_UTIL_CLAMP_MIN
  SCHED_FLAG_UTIL_CLAMP_MAX SCHED_FLAG_UTIL_CLAMP SCHED_FLAG_ALL SCHED_FLAG_SUGOV SCHED_RESET_ON_FORK
  SCHED_ATTR_SIZE_VER0 SCHED_ATTR_SIZE_VER1 sizeof_sched_attr PAGE_SIZE

end

text \<open>
  The flags of the queue operations and of the run queue clock.  The flags for dequeue and the matching
  flags for enqueue coincide, so that one variable can hold either.
\<close>

locale queue_h =
  fixes e :: kenv
  assumes DEQUEUE_SLEEP: "DEQUEUE_SLEEP e = 0x01" and DEQUEUE_SAVE: "DEQUEUE_SAVE e = 0x02"
    and DEQUEUE_MOVE: "DEQUEUE_MOVE e = 0x04" and DEQUEUE_NOCLOCK: "DEQUEUE_NOCLOCK e = 0x08"
    and ENQUEUE_WAKEUP: "ENQUEUE_WAKEUP e = 0x01" and ENQUEUE_RESTORE: "ENQUEUE_RESTORE e = 0x02"
    and ENQUEUE_MOVE: "ENQUEUE_MOVE e = 0x04" and ENQUEUE_NOCLOCK: "ENQUEUE_NOCLOCK e = 0x08"
    and ENQUEUE_HEAD: "ENQUEUE_HEAD e = 0x10" and ENQUEUE_REPLENISH: "ENQUEUE_REPLENISH e = 0x20"
    and ENQUEUE_MIGRATED: "ENQUEUE_MIGRATED e = 0x40"
    and RQCF_REQ_SKIP: "RQCF_REQ_SKIP e = 0x01" and RQCF_ACT_SKIP: "RQCF_ACT_SKIP e = 0x02"
    and RQCF_UPDATED: "RQCF_UPDATED e = 0x04"
begin

lemmas queue_h_simps =
  DEQUEUE_SLEEP DEQUEUE_SAVE DEQUEUE_MOVE DEQUEUE_NOCLOCK ENQUEUE_WAKEUP ENQUEUE_RESTORE ENQUEUE_MOVE
  ENQUEUE_NOCLOCK ENQUEUE_HEAD ENQUEUE_REPLENISH ENQUEUE_MIGRATED RQCF_REQ_SKIP RQCF_ACT_SKIP RQCF_UPDATED

end

text \<open>The flags of affinity changes and of wakeups.\<close>

locale wake_h =
  fixes e :: kenv
  assumes SCA_CHECK: "SCA_CHECK e = 0x1" and SCA_MIGRATE_DISABLE: "SCA_MIGRATE_DISABLE e = 0x2" and SCA_MIGRATE_ENABLE: "SCA_MIGRATE_ENABLE e = 0x4" and SCA_USER: "SCA_USER e = 0x8" and MDF_PUSH: "MDF_PUSH e = 0x1" and WF_EXEC: "WF_EXEC e = 0x2" and WF_FORK: "WF_FORK e = 0x4" and WF_TTWU: "WF_TTWU e = 0x8" and WF_SYNC: "WF_SYNC e = 0x10" and WF_MIGRATED: "WF_MIGRATED e = 0x20" and WF_ON_CPU: "WF_ON_CPU e = 0x40"
begin

lemmas wake_h_simps =
  SCA_CHECK SCA_MIGRATE_DISABLE SCA_MIGRATE_ENABLE SCA_USER MDF_PUSH WF_EXEC WF_FORK WF_TTWU WF_SYNC WF_MIGRATED WF_ON_CPU

end

text \<open>\<^verbatim>\<open>ilog2(n) + 1\<close>, and one for zero.\<close>

fun nbits :: "nat \<Rightarrow> nat" where
  "nbits n = (if n < 2 then 1 else Suc (nbits (n div 2)))"

declare nbits.simps [simp del]

lemma nbits_bounds: "n < 2 ^ nbits n \<and> (0 < n \<longrightarrow> 2 ^ (nbits n - 1) \<le> n)"
proof (induction n rule: nbits.induct)
  case (1 n)
  show ?case
  proof (cases "n < 2")
    case True
    then show ?thesis by (auto simp: nbits.simps [of n])
  next
    case False
    with 1 have "n div 2 < 2 ^ nbits (n div 2)" and "2 ^ (nbits (n div 2) - 1) \<le> n div 2" by simp_all
    moreover have "nbits (n div 2) \<noteq> 0" by (simp add: nbits.simps [of "n div 2"])
    ultimately show ?thesis using False
      by (cases "nbits (n div 2)") (auto simp: nbits.simps [of n])
  qed
qed

definition kenv_v5_17 :: kenv where
  "kenv_v5_17 = \<lparr>
     MAX_RT_PRIO = 100, MAX_DL_PRIO = 0, MIN_NICE = -20, MAX_NICE = 19, NICE_WIDTH = 40,
     NICE_TO_PRIO = (\<lambda>n. n + 120), PRIO_TO_NICE = (\<lambda>p. p - 120), nice_to_rlimit = (\<lambda>n. 20 - n),
     rt_prio = (\<lambda>p. p < 100), dl_prio = (\<lambda>p. p < 0),
     SCHED_NORMAL = 0, SCHED_FIFO = 1, SCHED_RR = 2, SCHED_BATCH = 3, SCHED_IDLE = 5,
     SCHED_DEADLINE = 6,
     valid_policy = (\<lambda>p. p \<in> {0, 1, 2, 3, 5, 6}),
     fair_policy = (\<lambda>p. p = 0 \<or> p = 3), rt_policy = (\<lambda>p. p = 1 \<or> p = 2),
     dl_policy = (\<lambda>p. p = 6), idle_policy = (\<lambda>p. p = 5),
     scale_load = (\<lambda>w. w * 1024), WEIGHT_IDLEPRIO = 3, WMULT_IDLEPRIO = 1431655765,
     oob_read = (\<lambda>_. 0),
     DEQUEUE_SLEEP = 0x01, DEQUEUE_SAVE = 0x02, DEQUEUE_MOVE = 0x04, DEQUEUE_NOCLOCK = 0x08,
     ENQUEUE_WAKEUP = 0x01, ENQUEUE_RESTORE = 0x02, ENQUEUE_MOVE = 0x04, ENQUEUE_NOCLOCK = 0x08,
     ENQUEUE_HEAD = 0x10, ENQUEUE_REPLENISH = 0x20, ENQUEUE_MIGRATED = 0x40,
     RQCF_REQ_SKIP = 0x01, RQCF_ACT_SKIP = 0x02, RQCF_UPDATED = 0x04,
     SCA_CHECK = 0x1, SCA_MIGRATE_DISABLE = 0x2, SCA_MIGRATE_ENABLE = 0x4, SCA_USER = 0x8, MDF_PUSH = 0x1, WF_EXEC = 0x2, WF_FORK = 0x4, WF_TTWU = 0x8, WF_SYNC = 0x10, WF_MIGRATED = 0x20, WF_ON_CPU = 0x40,
     UCLAMP_BUCKETS = 5, bits_per = nbits,
     uclamp_enabled = (\<lambda>c. c = fair_sched_class \<or> c = rt_sched_class),
     SCHED_FLAG_RESET_ON_FORK = 0x01, SCHED_FLAG_KEEP_POLICY = 0x08, SCHED_FLAG_KEEP_PARAMS = 0x10,
     SCHED_FLAG_UTIL_CLAMP_MIN = 0x20, SCHED_FLAG_UTIL_CLAMP_MAX = 0x40,
     SCHED_FLAG_UTIL_CLAMP = 0x60, SCHED_FLAG_ALL = 0x7f, SCHED_FLAG_SUGOV = 0x10000000,
     SCHED_RESET_ON_FORK = 0x40000000, SCHED_ATTR_SIZE_VER0 = 48, SCHED_ATTR_SIZE_VER1 = 56,
     sizeof_sched_attr = 56, PAGE_SIZE = 4096\<rparr>"

interpretation v5_17_prio: prio_h kenv_v5_17
  by unfold_locales (simp_all add: kenv_v5_17_def)

interpretation v5_17_policy: policy_h kenv_v5_17
  by unfold_locales (auto simp: kenv_v5_17_def)

interpretation v5_17_attr: attr_h kenv_v5_17
  by unfold_locales (simp_all add: kenv_v5_17_def)

interpretation v5_17_queue: queue_h kenv_v5_17
  by unfold_locales (simp_all add: kenv_v5_17_def)

interpretation v5_17_wake: wake_h kenv_v5_17
  by unfold_locales (simp_all add: kenv_v5_17_def)

interpretation v5_17_uclamp: uclamp_conf kenv_v5_17
  using nbits_bounds by unfold_locales (simp_all add: kenv_v5_17_def)

end
