(* ===== verification/Sched_Types.thy ===== *)
theory Sched_Types
  imports Kernel_Prelude
begin

text \<open>
  The data of the scheduler: the structures of \<^verbatim>\<open>Project 2/sched.h\<close> (\<open>uclamp_se\<close>, \<open>load_weight\<close>,
  the scheduling entities, \<open>task_struct\<close> with the field \<open>my_fixed_priority\<close> the project adds), the part
  of \<^verbatim>\<open>struct rq\<close> and \<^verbatim>\<open>struct task_group\<close> that \<^verbatim>\<open>core.c\<close> reads and writes, and the kernel state
  \<open>kernel\<close>: a store of tasks, run queues and task groups addressed by number, and the scheduler's
  global variables.  A pointer to a task is a \<open>tid\<close>, a pointer to a run queue is the number of its CPU.
\<close>

subsection \<open>Utilization clamps and scheduling entities\<close>

datatype uclamp_id = UCLAMP_MIN | UCLAMP_MAX

text \<open>The iteration order of \<^verbatim>\<open>for_each_clamp_id\<close>.\<close>

definition clamp_ids :: "uclamp_id list" where
  "clamp_ids = [UCLAMP_MIN, UCLAMP_MAX]"

definition SCHED_CAPACITY_SCALE :: nat where
  "SCHED_CAPACITY_SCALE = 2 ^ 10"

record uclamp_se =
  uc_value :: nat
  uc_bucket_id :: nat
  uc_active :: bool
  uc_user_defined :: bool

record load_weight =
  lw_weight :: nat
  lw_inv_weight :: nat

record sched_entity =
  se_load :: load_weight
  se_on_rq :: bool
  se_exec_start :: u64
  se_sum_exec_runtime :: u64
  se_vruntime :: u64
  se_prev_sum_exec_runtime :: u64
  se_nr_migrations :: u64
  se_cfs_rq :: nat

record sched_rt_entity =
  rt_timeout :: nat
  rt_time_slice :: nat
  rt_on_rq :: bool
  rt_on_list :: bool

text \<open>\<open>dl_pi_se\<close> is the task whose entity \<^verbatim>\<open>pi_se\<close> points to.\<close>

record sched_dl_entity =
  dl_dl_runtime :: u64
  dl_dl_deadline :: u64
  dl_dl_period :: u64
  dl_dl_bw :: u64
  dl_dl_density :: u64
  dl_runtime :: int
  dl_deadline :: u64
  dl_flags :: u32
  dl_throttled :: bool
  dl_yielded :: bool
  dl_non_contending :: bool
  dl_overrun :: bool
  dl_pi_se :: tid

subsection \<open>Tasks\<close>

datatype on_rq = NOT_ON_RQ | TASK_ON_RQ_QUEUED | TASK_ON_RQ_MIGRATING

text \<open>
  \<^verbatim>\<open>cpus_ptr\<close> points to the task's own \<^verbatim>\<open>cpus_mask\<close> or, while migration is disabled, to the constant
  mask \<^verbatim>\<open>cpumask_of(cpu)\<close>.  \<open>Cpumask_at\<close> is a pointer to some other mask, the form in which callers pass one.
\<close>

datatype cpus_ptr = Own_cpus_mask | Cpumask_of cpu | Cpumask_at "cpu set"

text \<open>\<^verbatim>\<open>p->wake_q.next\<close>: null, the sentinel \<^verbatim>\<open>WAKE_Q_TAIL\<close>, or the node of another task.\<close>

datatype wake_q_node = WQ_NULL | WAKE_Q_TAIL | WQ_node tid

record task_struct =
  t_state :: u32
  t_need_resched :: bool \<comment> \<open>\<^verbatim>\<open>TIF_NEED_RESCHED\<close>\<close>
  t_polling :: bool \<comment> \<open>\<^verbatim>\<open>TIF_POLLING_NRFLAG\<close>\<close>
  t_flags :: u32
  t_on_cpu :: bool
  t_cpu :: cpu
  t_wake_cpu :: cpu
  t_on_rq :: on_rq
  t_prio :: int
  t_static_prio :: int
  t_normal_prio :: int
  t_rt_priority :: nat
  t_se :: sched_entity
  t_rt :: sched_rt_entity
  t_dl :: sched_dl_entity
  t_sched_class :: sched_class
  t_core_cookie :: nat
  t_core_occupation :: nat
  t_sched_task_group :: nat
  t_uclamp_req :: "uclamp_id \<Rightarrow> uclamp_se"
  t_uclamp :: "uclamp_id \<Rightarrow> uclamp_se"
  t_policy :: int
  t_nr_cpus_allowed :: nat
  t_cpus_ptr :: cpus_ptr
  t_user_cpus_ptr :: "cpu set option"
  t_cpus_mask :: "cpu set"
  t_migration_disabled :: nat
  t_mm :: "nat option"
  t_active_mm :: "nat option"
  t_exit_state :: u32
  t_sched_reset_on_fork :: bool
  t_sched_contributes_to_load :: bool
  t_sched_migrated :: bool
  t_sched_remote_wakeup :: bool
  t_in_iowait :: bool
  t_pid :: nat
  t_tgid :: nat
  t_nvcsw :: nat
  t_nivcsw :: nat
  t_comm :: string
  t_wake_q :: wake_q_node
  t_migration_pending :: "nat option" \<comment> \<open>an index into \<open>pendings\<close>\<close>
  t_migration_flags :: u32
  t_pi_top_task :: "tid option"
  t_usage :: int \<comment> \<open>references held on the structure\<close>
  t_my_fixed_priority :: int

text \<open>The mask that a pointer denotes for a task.\<close>

definition mask_of :: "task_struct \<Rightarrow> cpus_ptr \<Rightarrow> cpu set" where
  "mask_of t m = (case m of Own_cpus_mask \<Rightarrow> t_cpus_mask t | Cpumask_of c \<Rightarrow> {c} | Cpumask_at m \<Rightarrow> m)"

definition task_cpus_ptr :: "task_struct \<Rightarrow> cpu set" where
  "task_cpus_ptr t = mask_of t (t_cpus_ptr t)"

text \<open>The request structure of \<^verbatim>\<open>sched_setattr\<close>, from \<^verbatim>\<open>uapi/linux/sched/types.h\<close>.\<close>

record sched_attr =
  sa_size :: nat
  sa_policy :: int
  sa_flags :: u64
  sa_nice :: int
  sa_priority :: nat
  sa_runtime :: u64
  sa_deadline :: u64
  sa_period :: u64
  sa_util_min :: u32
  sa_util_max :: u32

subsection \<open>Run queues, task groups and the kernel state\<close>

record uclamp_bucket =
  bk_value :: nat
  bk_tasks :: nat

record uclamp_rq =
  ur_value :: nat
  ur_bucket :: "nat \<Rightarrow> uclamp_bucket"

record rq =
  rq_nr_running :: nat
  rq_nr_switches :: nat
  rq_nr_uninterruptible :: int
  rq_nr_iowait :: int
  rq_curr :: tid
  rq_idle :: tid
  rq_stop :: "tid option"
  rq_uclamp :: "uclamp_id \<Rightarrow> uclamp_rq"
  rq_uclamp_idle :: bool \<comment> \<open>the bit \<^verbatim>\<open>UCLAMP_FLAG_IDLE\<close> of \<^verbatim>\<open>uclamp_flags\<close>\<close>
  rq_core :: cpu
  rq_core_enabled :: bool
  rq_core_tree :: "tid list" \<comment> \<open>the nodes of \<^verbatim>\<open>core_tree\<close> from left to right\<close>
  rq_core_task_seq :: u32
  rq_core_pick_seq :: u32
  rq_core_sched_seq :: u32
  rq_core_cookie :: nat
  rq_core_pick :: "tid option"
  rq_core_forceidle_count :: nat
  rq_core_forceidle_seq :: u32
  rq_core_forceidle_occupation :: nat
  rq_cfs_h_nr_running :: nat
  rq_nr_pinned :: nat
  rq_push_busy :: bool
  rq_idle_stamp :: u64
  rq_avg_idle :: u64
  rq_max_idle_balance_cost :: u64
  rq_wake_stamp :: u64
  rq_wake_avg_idle :: u64
  rq_ttwu_pending :: bool
  rq_prev_mm :: "nat option"
  rq_clock_update_flags :: u32
  rq_clock :: u64
  rq_clock_task :: u64
  rq_prev_irq_time :: u64
  rq_prev_steal_time_rq :: u64
  rq_core_forceidle_start :: u64
  rq_wake_list :: "tid list" \<comment> \<open>wakeups queued for this CPU by \<^verbatim>\<open>__ttwu_queue_wakelist\<close>\<close>

text \<open>
  \<^verbatim>\<open>struct set_affinity_pending\<close> with its \<^verbatim>\<open>migration_arg\<close>, and the works that are queued for the stopper thread
  of a CPU: a migration whose argument is that of a pending request, one with an argument of its own, and
  \<^verbatim>\<open>push_cpu_stop\<close>.
\<close>

record affinity_pending =
  ap_refs :: nat
  ap_stop_pending :: bool
  ap_done :: bool
  ap_task :: tid
  ap_dest_cpu :: cpu

datatype stop_work = Pending_work nat | Migration_work tid cpu | Push_work tid

text \<open>A node of the cgroup tree and its children in the order of the sibling list.\<close>

datatype css = Css (css_tg: nat) (css_children: "css list")

record task_group =
  tg_parent :: "nat option"
  tg_autogroup :: bool
  tg_uclamp_req :: "uclamp_id \<Rightarrow> uclamp_se"
  tg_uclamp :: "uclamp_id \<Rightarrow> uclamp_se"
  tg_uclamp_pct :: "uclamp_id \<Rightarrow> nat"

record kernel =
  tasks :: "tid \<Rightarrow> task_struct"
  rqs :: "cpu \<Rightarrow> rq"
  task_groups :: "nat \<Rightarrow> task_group"
  this_cpu :: cpu
  possible_cpus :: "cpu list"
  cpu_online_mask :: "cpu set"
  cpu_active_mask :: "cpu set"
  preempt_need_resched :: bool
  resched_ipis :: "cpu list" \<comment> \<open>the CPUs that \<^verbatim>\<open>smp_send_reschedule\<close> was called for, latest first\<close>
  k__sched_core_enabled :: bool
  sched_core_count :: nat
  mm_count :: "nat \<Rightarrow> int" \<comment> \<open>references to an \<^verbatim>\<open>mm_struct\<close>\<close>
  pendings :: "nat \<Rightarrow> affinity_pending"
  stop_works :: "(cpu \<times> stop_work) list" \<comment> \<open>in the order they were queued\<close>
  task_list :: "tid list" \<comment> \<open>the threads that \<^verbatim>\<open>for_each_process_thread\<close> visits\<close>
  css_tree :: css
  css_tasks :: "nat \<Rightarrow> tid list" \<comment> \<open>the tasks that \<^verbatim>\<open>css_task_iter_next\<close> visits\<close>
  uclamp_default :: "uclamp_id \<Rightarrow> uclamp_se"
  sched_uclamp_used :: bool
  sysctl_sched_uclamp_util_min :: nat
  sysctl_sched_uclamp_util_max :: nat
  sysctl_sched_uclamp_util_min_rt_default :: nat

definition root_task_group :: nat where
  "root_task_group = 0"

definition upd_task :: "tid \<Rightarrow> (task_struct \<Rightarrow> task_struct) \<Rightarrow> kernel \<Rightarrow> kernel" where
  [state_defs]: "upd_task p f k = k\<lparr>tasks := (tasks k)(p := f (tasks k p))\<rparr>"

definition upd_rq :: "cpu \<Rightarrow> (rq \<Rightarrow> rq) \<Rightarrow> kernel \<Rightarrow> kernel" where
  [state_defs]: "upd_rq c f k = k\<lparr>rqs := (rqs k)(c := f (rqs k c))\<rparr>"

text \<open>\<^verbatim>\<open>current\<close>: the task running on this CPU.\<close>

definition current :: "kernel \<Rightarrow> tid" where
  "current k = rq_curr (rqs k (this_cpu k))"

definition task_rq :: "kernel \<Rightarrow> tid \<Rightarrow> cpu" where
  "task_rq k p = t_cpu (tasks k p)"

definition task_on_rq_queued :: "task_struct \<Rightarrow> bool" where
  "task_on_rq_queued p \<longleftrightarrow> t_on_rq p = TASK_ON_RQ_QUEUED"

definition upd_tg :: "nat \<Rightarrow> (task_group \<Rightarrow> task_group) \<Rightarrow> kernel \<Rightarrow> kernel" where
  [state_defs]: "upd_tg g f k = k\<lparr>task_groups := (task_groups k)(g := f (task_groups k g))\<rparr>"

text \<open>\<^verbatim>\<open>rt_task\<close> of \<^verbatim>\<open>linux/sched/rt.h\<close> and \<^verbatim>\<open>dl_task\<close> of \<^verbatim>\<open>linux/sched/deadline.h\<close> test \<^verbatim>\<open>p->prio\<close>.\<close>

definition rt_task :: "kenv \<Rightarrow> task_struct \<Rightarrow> bool" where
  "rt_task e p \<longleftrightarrow> rt_prio e (t_prio p)"

definition dl_task :: "kenv \<Rightarrow> task_struct \<Rightarrow> bool" where
  "dl_task e p \<longleftrightarrow> dl_prio e (t_prio p)"

lemma tasks_upd_task [simp]:
  "tasks (upd_task p f k) q = (if q = p then f (tasks k p) else tasks k q)"
  by (simp add: upd_task_def)

lemma rqs_upd_task [simp]: "rqs (upd_task p f k) = rqs k"
  by (simp add: upd_task_def)

lemma rqs_upd_rq [simp]: "rqs (upd_rq c f k) d = (if d = c then f (rqs k c) else rqs k d)"
  by (simp add: upd_rq_def)

lemma tasks_upd_rq [simp]: "tasks (upd_rq c f k) = tasks k"
  by (simp add: upd_rq_def)

subsection \<open>Zeroed structures\<close>

text \<open>Structures with every field zero, the starting point of concrete instances.\<close>

definition zero_uclamp_se :: uclamp_se where
  "zero_uclamp_se = \<lparr>uc_value = 0, uc_bucket_id = 0, uc_active = False, uc_user_defined = False\<rparr>"

definition zero_task :: task_struct where
  "zero_task = \<lparr>t_state = 0, t_need_resched = False, t_polling = False, t_flags = 0, t_on_cpu = False, t_cpu = 0,
     t_wake_cpu = 0, t_on_rq = NOT_ON_RQ, t_prio = 0, t_static_prio = 0, t_normal_prio = 0,
     t_rt_priority = 0,
     t_se = \<lparr>se_load = \<lparr>lw_weight = 0, lw_inv_weight = 0\<rparr>, se_on_rq = False, se_exec_start = 0,
       se_sum_exec_runtime = 0, se_vruntime = 0, se_prev_sum_exec_runtime = 0, se_nr_migrations = 0,
       se_cfs_rq = 0\<rparr>,
     t_rt = \<lparr>rt_timeout = 0, rt_time_slice = 0, rt_on_rq = False, rt_on_list = False\<rparr>,
     t_dl = \<lparr>dl_dl_runtime = 0, dl_dl_deadline = 0, dl_dl_period = 0, dl_dl_bw = 0, dl_dl_density = 0,
       dl_runtime = 0, dl_deadline = 0, dl_flags = 0, dl_throttled = False, dl_yielded = False,
       dl_non_contending = False, dl_overrun = False, dl_pi_se = 0\<rparr>,
     t_sched_class = fair_sched_class, t_core_cookie = 0, t_core_occupation = 0,
     t_sched_task_group = 0, t_uclamp_req = (\<lambda>_. zero_uclamp_se), t_uclamp = (\<lambda>_. zero_uclamp_se),
     t_policy = 0, t_nr_cpus_allowed = 0, t_cpus_ptr = Own_cpus_mask, t_user_cpus_ptr = None,
     t_cpus_mask = {}, t_migration_disabled = 0, t_mm = None, t_active_mm = None, t_exit_state = 0,
     t_sched_reset_on_fork = False, t_sched_contributes_to_load = False, t_sched_migrated = False,
     t_sched_remote_wakeup = False, t_in_iowait = False, t_pid = 0, t_tgid = 0, t_nvcsw = 0,
     t_nivcsw = 0, t_comm = [], t_wake_q = WQ_NULL, t_migration_pending = None, t_migration_flags = 0, t_pi_top_task = None, t_usage = 0,
     t_my_fixed_priority = 0\<rparr>"

definition zero_rq :: rq where
  "zero_rq = \<lparr>rq_nr_running = 0, rq_nr_switches = 0, rq_nr_uninterruptible = 0, rq_nr_iowait = 0,
     rq_curr = 0, rq_idle = 0, rq_stop = None,
     rq_uclamp = (\<lambda>_. \<lparr>ur_value = 0, ur_bucket = (\<lambda>_. \<lparr>bk_value = 0, bk_tasks = 0\<rparr>)\<rparr>),
     rq_uclamp_idle = False, rq_core = 0, rq_core_enabled = False, rq_core_tree = [],
     rq_core_task_seq = 0, rq_core_pick_seq = 0, rq_core_sched_seq = 0, rq_core_cookie = 0, rq_core_pick = None,
     rq_core_forceidle_count = 0, rq_core_forceidle_seq = 0, rq_core_forceidle_occupation = 0,
     rq_cfs_h_nr_running = 0, rq_nr_pinned = 0, rq_push_busy = False, rq_idle_stamp = 0, rq_avg_idle = 0,
     rq_max_idle_balance_cost = 0, rq_wake_stamp = 0, rq_wake_avg_idle = 0, rq_ttwu_pending = False,
     rq_prev_mm = None, rq_clock_update_flags = 0, rq_clock = 0, rq_clock_task = 0, rq_prev_irq_time = 0,
     rq_prev_steal_time_rq = 0, rq_core_forceidle_start = 0, rq_wake_list = []\<rparr>"

definition zero_task_group :: task_group where
  "zero_task_group = \<lparr>tg_parent = None, tg_autogroup = False, tg_uclamp_req = (\<lambda>_. zero_uclamp_se),
     tg_uclamp = (\<lambda>_. zero_uclamp_se), tg_uclamp_pct = (\<lambda>_. 0)\<rparr>"

definition zero_kernel :: kernel where
  "zero_kernel = \<lparr>tasks = (\<lambda>_. zero_task), rqs = (\<lambda>_. zero_rq), task_groups = (\<lambda>_. zero_task_group),
     this_cpu = 0, possible_cpus = [0], cpu_online_mask = {0}, cpu_active_mask = {0},
     preempt_need_resched = False, resched_ipis = [], k__sched_core_enabled = False, sched_core_count = 0, mm_count = (\<lambda>_. 0),
     pendings = (\<lambda>_. \<lparr>ap_refs = 0, ap_stop_pending = False, ap_done = False, ap_task = 0, ap_dest_cpu = 0\<rparr>),
     stop_works = [], task_list = [], css_tree = Css 0 [], css_tasks = (\<lambda>_. []),
     uclamp_default = (\<lambda>_. zero_uclamp_se), sched_uclamp_used = False,
     sysctl_sched_uclamp_util_min = 1024, sysctl_sched_uclamp_util_max = 1024,
     sysctl_sched_uclamp_util_min_rt_default = 1024\<rparr>"

definition zero_attr :: sched_attr where
  "zero_attr = \<lparr>sa_size = 0, sa_policy = 0, sa_flags = 0, sa_nice = 0, sa_priority = 0, sa_runtime = 0,
     sa_deadline = 0, sa_period = 0, sa_util_min = 0, sa_util_max = 0\<rparr>"

lemmas zero_defs =
  zero_uclamp_se_def zero_task_def zero_rq_def zero_task_group_def zero_kernel_def zero_attr_def

end
