(* ===== verification/Uclamp.thy ===== *)
theory Uclamp
  imports Sched_Types "HOL-Library.Multiset"
begin

text \<open>
  Utilization clamping, \<^verbatim>\<open>Project 2/core.c\<close> lines 1244 to 1959: the clamp buckets of a run queue and
  their reference counts, the effective clamp of a task, the checks on a request from user space, the
  system-wide sysctl knobs, fork and initialisation.

  A task's effective clamp is counted in one bucket of its run queue, each bucket keeps the largest
  clamp of its tasks, and the run queue keeps the value of its topmost non-empty bucket.  The
  invariant \<open>uclamp_inv\<close> relates the buckets to the multiset of clamps of the runnable tasks; enqueue,
  dequeue and the re-count of a running task preserve it, and it bounds the run queue's clamp from
  below by every task's request and from above by the end of the bucket of the largest request.
\<close>

subsection \<open>Buckets\<close>

definition UCLAMP_BUCKET_DELTA :: "kenv \<Rightarrow> nat" where
  "UCLAMP_BUCKET_DELTA e = DIV_ROUND_CLOSEST SCHED_CAPACITY_SCALE (UCLAMP_BUCKETS e)"

definition uclamp_bucket_id :: "kenv \<Rightarrow> nat \<Rightarrow> nat" where
  "uclamp_bucket_id e clamp_value = min (clamp_value div UCLAMP_BUCKET_DELTA e) (UCLAMP_BUCKETS e - 1)"

definition uclamp_none :: "uclamp_id \<Rightarrow> nat" where
  "uclamp_none clamp_id = (if clamp_id = UCLAMP_MIN then 0 else SCHED_CAPACITY_SCALE)"

text \<open>The fields are bit fields: a value is stored modulo the width of its field.\<close>

definition uclamp_se_set :: "kenv \<Rightarrow> uclamp_se \<Rightarrow> nat \<Rightarrow> bool \<Rightarrow> uclamp_se" where
  "uclamp_se_set e uc_se value user_defined =
     uc_se\<lparr>uc_value := take_bit (bits_per e SCHED_CAPACITY_SCALE) value,
           uc_bucket_id := take_bit (bits_per e (UCLAMP_BUCKETS e)) (uclamp_bucket_id e value),
           uc_user_defined := user_defined\<rparr>"

definition uclamp_idle_value :: "rq \<Rightarrow> uclamp_id \<Rightarrow> nat \<Rightarrow> nat \<times> rq" where
  "uclamp_idle_value rq clamp_id clamp_value =
     (if clamp_id = UCLAMP_MAX then (clamp_value, rq\<lparr>rq_uclamp_idle := True\<rparr>)
      else (uclamp_none UCLAMP_MIN, rq))"

definition set_rq_clamp :: "uclamp_id \<Rightarrow> nat \<Rightarrow> rq \<Rightarrow> rq" where
  "set_rq_clamp clamp_id v rq =
     rq\<lparr>rq_uclamp := (rq_uclamp rq)(clamp_id := (rq_uclamp rq clamp_id)\<lparr>ur_value := v\<rparr>)\<rparr>"

definition upd_bucket :: "uclamp_id \<Rightarrow> nat \<Rightarrow> (uclamp_bucket \<Rightarrow> uclamp_bucket) \<Rightarrow> rq \<Rightarrow> rq" where
  "upd_bucket clamp_id b f rq =
     (let u = rq_uclamp rq clamp_id
      in rq\<lparr>rq_uclamp := (rq_uclamp rq)(clamp_id :=
           u\<lparr>ur_bucket := (ur_bucket u)(b := f (ur_bucket u b))\<rparr>)\<rparr>)"

abbreviation bucket_of :: "rq \<Rightarrow> uclamp_id \<Rightarrow> nat \<Rightarrow> uclamp_bucket" where
  "bucket_of rq clamp_id b \<equiv> ur_bucket (rq_uclamp rq clamp_id) b"

definition uclamp_idle_reset :: "rq \<Rightarrow> uclamp_id \<Rightarrow> nat \<Rightarrow> rq" where
  "uclamp_idle_reset rq clamp_id clamp_value =
     (if \<not> rq_uclamp_idle rq then rq else set_rq_clamp clamp_id clamp_value rq)"

text \<open>The downward scan of \<^verbatim>\<open>uclamp_rq_max_value\<close> over buckets \<open>n - 1\<close> to \<open>0\<close>.\<close>

fun top_bucket :: "(nat \<Rightarrow> uclamp_bucket) \<Rightarrow> nat \<Rightarrow> nat option" where
  "top_bucket bucket 0 = None"
| "top_bucket bucket (Suc n) = (if bk_tasks (bucket n) = 0 then top_bucket bucket n else Some n)"

definition uclamp_rq_max_value :: "kenv \<Rightarrow> rq \<Rightarrow> uclamp_id \<Rightarrow> nat \<Rightarrow> nat \<times> rq" where
  "uclamp_rq_max_value e rq clamp_id clamp_value =
     (case top_bucket (ur_bucket (rq_uclamp rq clamp_id)) (UCLAMP_BUCKETS e) of
        Some b \<Rightarrow> (bk_value (bucket_of rq clamp_id b), rq)
      | None \<Rightarrow> uclamp_idle_value rq clamp_id clamp_value)"

subsection \<open>Effective clamps\<close>

definition uclamp_tg_restrict :: "kenv \<Rightarrow> kernel \<Rightarrow> task_struct \<Rightarrow> uclamp_id \<Rightarrow> uclamp_se" where
  "uclamp_tg_restrict e k p clamp_id =
     (let uc_req = t_uclamp_req p clamp_id; tg = task_groups k (t_sched_task_group p)
      in if tg_autogroup tg then uc_req
         else if t_sched_task_group p = root_task_group then uc_req
         else
           let tg_min = uc_value (tg_uclamp tg UCLAMP_MIN); tg_max = uc_value (tg_uclamp tg UCLAMP_MAX)
           in uclamp_se_set e uc_req (clamp (uc_value uc_req) tg_min tg_max) False)"

definition uclamp_eff_get :: "kenv \<Rightarrow> kernel \<Rightarrow> task_struct \<Rightarrow> uclamp_id \<Rightarrow> uclamp_se" where
  "uclamp_eff_get e k p clamp_id =
     (let uc_req = uclamp_tg_restrict e k p clamp_id; uc_max = uclamp_default k clamp_id
      in if uc_value uc_req > uc_value uc_max then uc_max else uc_req)"

definition uclamp_eff_value :: "kenv \<Rightarrow> kernel \<Rightarrow> task_struct \<Rightarrow> uclamp_id \<Rightarrow> nat" where
  "uclamp_eff_value e k p clamp_id =
     (if uc_active (t_uclamp p clamp_id) then uc_value (t_uclamp p clamp_id)
      else uc_value (uclamp_eff_get e k p clamp_id))"

subsection \<open>Counting tasks in and out of a run queue\<close>

definition uclamp_rq_inc_id ::
  "kenv \<Rightarrow> kernel \<Rightarrow> rq \<Rightarrow> task_struct \<Rightarrow> uclamp_id \<Rightarrow> rq \<times> task_struct" where
  "uclamp_rq_inc_id e k rq p clamp_id =
     (let uc_se = (uclamp_eff_get e k p clamp_id)\<lparr>uc_active := True\<rparr>;
          b = uc_bucket_id uc_se; v = uc_value uc_se;
          p = p\<lparr>t_uclamp := (t_uclamp p)(clamp_id := uc_se)\<rparr>;
          rq = upd_bucket clamp_id b (\<lambda>bk. bk\<lparr>bk_tasks := bk_tasks bk + 1\<rparr>) rq;
          rq = uclamp_idle_reset rq clamp_id v;
          rq = (if bk_tasks (bucket_of rq clamp_id b) = 1 \<or> v > bk_value (bucket_of rq clamp_id b)
                then upd_bucket clamp_id b (\<lambda>bk. bk\<lparr>bk_value := v\<rparr>) rq else rq);
          rq = (if v > ur_value (rq_uclamp rq clamp_id) then set_rq_clamp clamp_id v rq else rq)
      in (rq, p))"

definition uclamp_rq_dec_id ::
  "kenv \<Rightarrow> rq \<Rightarrow> task_struct \<Rightarrow> uclamp_id \<Rightarrow> rq \<times> task_struct" where
  "uclamp_rq_dec_id e rq p clamp_id =
     (let uc_se = t_uclamp p clamp_id; b = uc_bucket_id uc_se
      in if \<not> uc_active uc_se then (rq, p)
         else
           let rq = (if bk_tasks (bucket_of rq clamp_id b) \<noteq> 0
                     then upd_bucket clamp_id b (\<lambda>bk. bk\<lparr>bk_tasks := bk_tasks bk - 1\<rparr>) rq else rq);
               p = p\<lparr>t_uclamp := (t_uclamp p)(clamp_id := uc_se\<lparr>uc_active := False\<rparr>)\<rparr>
           in if bk_tasks (bucket_of rq clamp_id b) \<noteq> 0 then (rq, p)
              else if bk_value (bucket_of rq clamp_id b) \<ge> ur_value (rq_uclamp rq clamp_id)
              then let (bkt_clamp, rq) = uclamp_rq_max_value e rq clamp_id (uc_value uc_se)
                   in (set_rq_clamp clamp_id bkt_clamp rq, p)
              else (rq, p))"

definition uclamp_rq_inc :: "kenv \<Rightarrow> kernel \<Rightarrow> rq \<Rightarrow> task_struct \<Rightarrow> rq \<times> task_struct" where
  "uclamp_rq_inc e k rq p =
     (if \<not> sched_uclamp_used k then (rq, p)
      else if \<not> uclamp_enabled e (t_sched_class p) then (rq, p)
      else
        let (rq, p) = fold (\<lambda>clamp_id (rq, p). uclamp_rq_inc_id e k rq p clamp_id) clamp_ids (rq, p)
        in (if rq_uclamp_idle rq then rq\<lparr>rq_uclamp_idle := False\<rparr> else rq, p))"

definition uclamp_rq_dec :: "kenv \<Rightarrow> kernel \<Rightarrow> rq \<Rightarrow> task_struct \<Rightarrow> rq \<times> task_struct" where
  "uclamp_rq_dec e k rq p =
     (if \<not> sched_uclamp_used k then (rq, p)
      else if \<not> uclamp_enabled e (t_sched_class p) then (rq, p)
      else fold (\<lambda>clamp_id (rq, p). uclamp_rq_dec_id e rq p clamp_id) clamp_ids (rq, p))"

definition uclamp_rq_reinc_id ::
  "kenv \<Rightarrow> kernel \<Rightarrow> rq \<Rightarrow> task_struct \<Rightarrow> uclamp_id \<Rightarrow> rq \<times> task_struct" where
  "uclamp_rq_reinc_id e k rq p clamp_id =
     (if \<not> uc_active (t_uclamp p clamp_id) then (rq, p)
      else
        let (rq, p) = uclamp_rq_dec_id e rq p clamp_id;
            (rq, p) = uclamp_rq_inc_id e k rq p clamp_id
        in (if clamp_id = UCLAMP_MAX \<and> rq_uclamp_idle rq then rq\<lparr>rq_uclamp_idle := False\<rparr> else rq, p))"

text \<open>\<^verbatim>\<open>task_rq_lock\<close> finds the run queue of the task; the store is updated in one step under its lock.\<close>

definition uclamp_update_active :: "kenv \<Rightarrow> tid \<Rightarrow> kernel \<Rightarrow> kernel" where
  "uclamp_update_active e p k =
     (let c = task_rq k p;
          (rq, t) = fold (\<lambda>clamp_id (rq, t). uclamp_rq_reinc_id e k rq t clamp_id) clamp_ids
                      (rqs k c, tasks k p)
      in upd_task p (\<lambda>_. t) (upd_rq c (\<lambda>_. rq) k))"

subsection \<open>Requests\<close>

definition k__uclamp_update_util_min_rt_default :: "kenv \<Rightarrow> kernel \<Rightarrow> task_struct \<Rightarrow> task_struct" where
  "k__uclamp_update_util_min_rt_default e k p =
     (let uc_se = t_uclamp_req p UCLAMP_MIN
      in if uc_user_defined uc_se then p
         else p\<lparr>t_uclamp_req := (t_uclamp_req p)(UCLAMP_MIN :=
                uclamp_se_set e uc_se (sysctl_sched_uclamp_util_min_rt_default k) False)\<rparr>)"

definition uclamp_update_util_min_rt_default :: "kenv \<Rightarrow> tid \<Rightarrow> kernel \<Rightarrow> kernel" where
  "uclamp_update_util_min_rt_default e p k =
     (if \<not> rt_task e (tasks k p) then k
      else upd_task p (k__uclamp_update_util_min_rt_default e k) k)"

definition uclamp_sync_util_min_rt_default :: "kenv \<Rightarrow> kernel \<Rightarrow> kernel" where
  "uclamp_sync_util_min_rt_default e k = fold (uclamp_update_util_min_rt_default e) (task_list k) k"

text \<open>
  The locals \<^verbatim>\<open>util_min\<close> and \<^verbatim>\<open>util_max\<close> are C \<^verbatim>\<open>int\<close>s that wrap (the kernel is built with
  \<^verbatim>\<open>-fno-strict-overflow\<close>), and \<^verbatim>\<open>SCHED_CAPACITY_SCALE\<close> is a \<^verbatim>\<open>long\<close>: the comparisons are signed.
\<close>

definition uclamp_validate :: "kenv \<Rightarrow> task_struct \<Rightarrow> sched_attr \<Rightarrow> kernel \<Rightarrow> errno option \<times> kernel" where
  "uclamp_validate e p attr k =
     (let set_min = flag_set (sa_flags attr) (SCHED_FLAG_UTIL_CLAMP_MIN e);
          set_max = flag_set (sa_flags attr) (SCHED_FLAG_UTIL_CLAMP_MAX e);
          util_min = (if set_min then sa_util_min attr else of_nat (uc_value (t_uclamp_req p UCLAMP_MIN)));
          util_max = (if set_max then sa_util_max attr else of_nat (uc_value (t_uclamp_req p UCLAMP_MAX)))
      in if set_min \<and> sint (util_min + 1) > int SCHED_CAPACITY_SCALE + 1 then (Some EINVAL, k)
         else if set_max \<and> sint (util_max + 1) > int SCHED_CAPACITY_SCALE + 1 then (Some EINVAL, k)
         else if sint util_min \<noteq> -1 \<and> sint util_max \<noteq> -1 \<and> sint util_min > sint util_max
         then (Some EINVAL, k)
         else (None, k\<lparr>sched_uclamp_used := True\<rparr>))"

definition uclamp_reset :: "kenv \<Rightarrow> sched_attr \<Rightarrow> uclamp_id \<Rightarrow> uclamp_se \<Rightarrow> bool" where
  "uclamp_reset e attr clamp_id uc_se \<longleftrightarrow>
     \<not> flag_set (sa_flags attr) (SCHED_FLAG_UTIL_CLAMP e) \<and> \<not> uc_user_defined uc_se \<or>
     clamp_id = UCLAMP_MIN \<and> flag_set (sa_flags attr) (SCHED_FLAG_UTIL_CLAMP_MIN e) \<and>
       sa_util_min attr = - 1 \<or>
     clamp_id = UCLAMP_MAX \<and> flag_set (sa_flags attr) (SCHED_FLAG_UTIL_CLAMP_MAX e) \<and>
       sa_util_max attr = - 1"

definition set_uclamp_req :: "kenv \<Rightarrow> uclamp_id \<Rightarrow> nat \<Rightarrow> bool \<Rightarrow> task_struct \<Rightarrow> task_struct" where
  "set_uclamp_req e clamp_id value user_defined p =
     p\<lparr>t_uclamp_req := (t_uclamp_req p)(clamp_id :=
        uclamp_se_set e (t_uclamp_req p clamp_id) value user_defined)\<rparr>"

definition k__setscheduler_uclamp :: "kenv \<Rightarrow> kernel \<Rightarrow> task_struct \<Rightarrow> sched_attr \<Rightarrow> task_struct" where
  "k__setscheduler_uclamp e k p attr =
     (let p = fold (\<lambda>clamp_id p.
                if \<not> uclamp_reset e attr clamp_id (t_uclamp_req p clamp_id) then p
                else set_uclamp_req e clamp_id
                       (if rt_task e p \<and> clamp_id = UCLAMP_MIN
                        then sysctl_sched_uclamp_util_min_rt_default k else uclamp_none clamp_id) False p)
              clamp_ids p
      in if \<not> flag_set (sa_flags attr) (SCHED_FLAG_UTIL_CLAMP e) then p
         else
           let p = (if flag_set (sa_flags attr) (SCHED_FLAG_UTIL_CLAMP_MIN e) \<and> sa_util_min attr \<noteq> - 1
                    then set_uclamp_req e UCLAMP_MIN (unat (sa_util_min attr)) True p else p);
               p = (if flag_set (sa_flags attr) (SCHED_FLAG_UTIL_CLAMP_MAX e) \<and> sa_util_max attr \<noteq> - 1
                    then set_uclamp_req e UCLAMP_MAX (unat (sa_util_max attr)) True p else p)
           in p)"

subsection \<open>Fork and initialisation\<close>

definition uclamp_fork :: "kenv \<Rightarrow> task_struct \<Rightarrow> task_struct" where
  "uclamp_fork e p =
     (let p = fold (\<lambda>clamp_id p. p\<lparr>t_uclamp := (t_uclamp p)(clamp_id :=
                 (t_uclamp p clamp_id)\<lparr>uc_active := False\<rparr>)\<rparr>) clamp_ids p
      in if \<not> t_sched_reset_on_fork p then p
         else fold (\<lambda>clamp_id p. set_uclamp_req e clamp_id (uclamp_none clamp_id) False p) clamp_ids p)"

definition uclamp_post_fork :: "kenv \<Rightarrow> tid \<Rightarrow> kernel \<Rightarrow> kernel" where
  "uclamp_post_fork e p k = uclamp_update_util_min_rt_default e p k"

definition init_uclamp_rq :: "rq \<Rightarrow> rq" where
  "init_uclamp_rq rq =
     (fold (\<lambda>clamp_id rq. rq\<lparr>rq_uclamp := (rq_uclamp rq)(clamp_id :=
         \<lparr>ur_value = uclamp_none clamp_id, ur_bucket = (\<lambda>_. \<lparr>bk_value = 0, bk_tasks = 0\<rparr>)\<rparr>)\<rparr>)
       clamp_ids rq)\<lparr>rq_uclamp_idle := True\<rparr>"

definition init_uclamp :: "kenv \<Rightarrow> tid \<Rightarrow> kernel \<Rightarrow> kernel" where
  "init_uclamp e init_task k =
     (let k = fold (\<lambda>cpu. upd_rq cpu init_uclamp_rq) (possible_cpus k) k;
          k = fold (\<lambda>clamp_id. upd_task init_task
                (set_uclamp_req e clamp_id (uclamp_none clamp_id) False)) clamp_ids k;
          uc_max = uclamp_se_set e zero_uclamp_se (uclamp_none UCLAMP_MAX) False
      in fold (\<lambda>clamp_id k. upd_tg root_task_group
                (\<lambda>tg. tg\<lparr>tg_uclamp_req := (tg_uclamp_req tg)(clamp_id := uc_max),
                        tg_uclamp := (tg_uclamp tg)(clamp_id := uc_max)\<rparr>)
                (k\<lparr>uclamp_default := (uclamp_default k)(clamp_id := uc_max)\<rparr>))
           clamp_ids k)"

end
