(* ===== verification/Uclamp_Accounting.thy ===== *)
theory Uclamp_Accounting
  imports Uclamp
begin

text \<open>
  Correctness of the clamp buckets of \<open>Uclamp\<close>.  The locale \<open>task_accounting\<close> is the contract that
  enqueue and dequeue rely on: a counter structure represents a multiset of contributions, counting a
  task in adds its contribution and counting it out removes it.  The buckets of a run queue interpret
  it with the multiset of effective clamp pairs of the counted tasks.
\<close>

subsection \<open>Buckets and the multiset of counted clamps\<close>


abbreviation occupied :: "uclamp_rq \<Rightarrow> nat \<Rightarrow> bool" where
  "occupied u b \<equiv> bk_tasks (ur_bucket u b) \<noteq> 0"

definition clamp_rel :: "kenv \<Rightarrow> uclamp_rq \<Rightarrow> nat multiset \<Rightarrow> bool" where
  "clamp_rel e u M \<longleftrightarrow>
     (\<forall>b. bk_tasks (ur_bucket u b) = size (filter_mset (\<lambda>v. uclamp_bucket_id e v = b) M)) \<and>
     (\<forall>v \<in># M. v \<le> bk_value (ur_bucket u (uclamp_bucket_id e v))) \<and>
     (\<forall>b. occupied u b \<longrightarrow> uclamp_bucket_id e (bk_value (ur_bucket u b)) = b) \<and>
     (M \<noteq> {#} \<longrightarrow> (\<exists>b. occupied u b \<and> ur_value u = bk_value (ur_bucket u b))) \<and>
     (\<forall>b. occupied u b \<longrightarrow> bk_value (ur_bucket u b) \<le> ur_value u)"

lemma clamp_relD:
  assumes "clamp_rel e u M"
  shows clamp_rel_tasks: "bk_tasks (ur_bucket u b) = size (filter_mset (\<lambda>v. uclamp_bucket_id e v = b) M)"
    and clamp_rel_bound: "v \<in># M \<Longrightarrow> v \<le> bk_value (ur_bucket u (uclamp_bucket_id e v))"
    and clamp_rel_home: "occupied u b \<Longrightarrow> uclamp_bucket_id e (bk_value (ur_bucket u b)) = b"
    and clamp_rel_attained: "M \<noteq> {#} \<Longrightarrow> \<exists>b. occupied u b \<and> ur_value u = bk_value (ur_bucket u b)"
    and clamp_rel_max: "occupied u b \<Longrightarrow> bk_value (ur_bucket u b) \<le> ur_value u"
  using assms unfolding clamp_rel_def by blast+

lemma clamp_rel_occupied: "clamp_rel e u M \<Longrightarrow> occupied u b \<longleftrightarrow> (\<exists>v \<in># M. uclamp_bucket_id e v = b)"
  by (simp add: clamp_rel_tasks filter_mset_eq_conv) 

definition clamp_inc :: "bool \<Rightarrow> nat \<Rightarrow> nat \<Rightarrow> uclamp_rq \<Rightarrow> uclamp_rq" where
  "clamp_inc idle b v u =
     (let bk = ur_bucket u b;
          bk' = bk\<lparr>bk_tasks := Suc (bk_tasks bk),
                   bk_value := (if bk_tasks bk = 0 \<or> v > bk_value bk then v else bk_value bk)\<rparr>
      in u\<lparr>ur_bucket := (ur_bucket u)(b := bk'), ur_value := (if idle then v else max (ur_value u) v)\<rparr>)"

lemma uclamp_rq_inc_id_eq:
  fixes e k p clamp_id
  defines "s \<equiv> uclamp_eff_get e k p clamp_id"
  shows "uclamp_rq_inc_id e k rq p clamp_id =
     (rq\<lparr>rq_uclamp := (rq_uclamp rq)(clamp_id :=
          clamp_inc (rq_uclamp_idle rq) (uc_bucket_id s) (uc_value s) (rq_uclamp rq clamp_id))\<rparr>,
      p\<lparr>t_uclamp := (t_uclamp p)(clamp_id := s\<lparr>uc_active := True\<rparr>)\<rparr>)"
  unfolding uclamp_rq_inc_id_def s_def [symmetric]
  by (auto simp: clamp_inc_def upd_bucket_def uclamp_idle_reset_def set_rq_clamp_def Let_def max_def
      intro!: rq.equality arg_cong [where f = "fun_upd _ _"] uclamp_rq.equality uclamp_bucket.equality)

lemma clamp_rel_inc:
  assumes rel: "clamp_rel e u M" and idle: "idle \<Longrightarrow> M = {#}" and fresh: "M = {#} \<Longrightarrow> idle \<or> ur_value u \<le> v"
  shows "clamp_rel e (clamp_inc idle (uclamp_bucket_id e v) v u) (add_mset v M)" (is "clamp_rel e ?u _")
proof -
  let ?b = "uclamp_bucket_id e v"
  have b: "bk_value (ur_bucket ?u ?b) = (if occupied u ?b then max (bk_value (ur_bucket u ?b)) v else v)"
    and o: "c \<noteq> ?b \<Longrightarrow> ur_bucket ?u c = ur_bucket u c" for c
    by (auto simp: clamp_inc_def Let_def max_def)
  have occ: "occupied ?u c \<longleftrightarrow> c = ?b \<or> occupied u c" for c
    by (simp add: clamp_inc_def Let_def)
  have none: "M = {#} \<Longrightarrow> \<not> occupied u c" for c
    using clamp_rel_occupied [OF rel] by simp
  have val: "ur_value ?u = (if M = {#} then v else max (ur_value u) v)"
    using idle fresh by (auto simp: clamp_inc_def Let_def max_def)
  show ?thesis
    unfolding clamp_rel_def
  proof (intro conjI allI ballI impI)
    fix c
    show "bk_tasks (ur_bucket ?u c) = size (filter_mset (\<lambda>v. uclamp_bucket_id e v = c) (add_mset v M))"
      using clamp_rel_tasks [OF rel, of c] by (simp add: clamp_inc_def Let_def)
  next
    fix w assume "w \<in># add_mset v M"
    then show "w \<le> bk_value (ur_bucket ?u (uclamp_bucket_id e w))"
      using clamp_rel_bound [OF rel, of w] clamp_rel_occupied [OF rel, of ?b] b o [of "uclamp_bucket_id e w"]
      by (cases "uclamp_bucket_id e w = ?b") auto
  next
    fix c assume "occupied ?u c"
    then show "uclamp_bucket_id e (bk_value (ur_bucket ?u c)) = c"
      using clamp_rel_home [OF rel, of c] b o [of c] occ by (cases "c = ?b") (auto simp: max_def)
  next
    show "\<exists>c. occupied ?u c \<and> ur_value ?u = bk_value (ur_bucket ?u c)"
    proof (cases "M = {#} \<or> ur_value u \<le> v")
      case True
      then have "ur_value ?u = bk_value (ur_bucket ?u ?b)"
        using b val none clamp_rel_max [OF rel, of ?b] by (cases "occupied u ?b") (auto simp: max_def)
      then show ?thesis using occ by blast
    next
      case False
      then obtain c where c: "occupied u c" "ur_value u = bk_value (ur_bucket u c)"
        using clamp_rel_attained [OF rel] by blast
      then have "ur_value ?u = bk_value (ur_bucket ?u c)"
        using False val b o [of c] by (cases "c = ?b") (auto simp: max_def)
      then show ?thesis using c occ by blast
    qed
  next
    fix c assume "occupied ?u c"
    then show "bk_value (ur_bucket ?u c) \<le> ur_value ?u"
      using clamp_rel_max [OF rel, of c] none [of c] val b o [of c] occ by (cases "c = ?b") (auto simp: max_def)
  qed
qed

lemma uclamp_bucket_id_mono: "v \<le> w \<Longrightarrow> uclamp_bucket_id e v \<le> uclamp_bucket_id e w"
  unfolding uclamp_bucket_id_def by (intro min.mono div_le_mono order_refl)

context uclamp_conf
begin

lemma uclamp_bucket_id_less: "uclamp_bucket_id e v < UCLAMP_BUCKETS e"
  using buckets_min by (simp add: uclamp_bucket_id_def)

end

lemma top_bucket_Some:
  "top_bucket f n = Some b \<Longrightarrow> b < n \<and> bk_tasks (f b) \<noteq> 0 \<and> (\<forall>c. b < c \<and> c < n \<longrightarrow> bk_tasks (f c) = 0)"
  by (induction n) (auto split: if_splits simp: less_Suc_eq)

lemma top_bucket_None: "top_bucket f n = None \<longleftrightarrow> (\<forall>c < n. bk_tasks (f c) = 0)"
  by (induction n) (auto simp: less_Suc_eq)

definition clamp_dec :: "kenv \<Rightarrow> uclamp_id \<Rightarrow> nat \<Rightarrow> nat \<Rightarrow> uclamp_rq \<Rightarrow> uclamp_rq \<times> bool" where
  "clamp_dec e clamp_id b v u =
     (let bk = ur_bucket u b; u' = u\<lparr>ur_bucket := (ur_bucket u)(b := bk\<lparr>bk_tasks := bk_tasks bk - 1\<rparr>)\<rparr>
      in if bk_tasks bk - 1 \<noteq> 0 \<or> bk_value bk < ur_value u then (u', False)
         else case top_bucket (ur_bucket u') (UCLAMP_BUCKETS e) of
            Some c \<Rightarrow> (u'\<lparr>ur_value := bk_value (ur_bucket u' c)\<rparr>, False)
          | None \<Rightarrow> if clamp_id = UCLAMP_MAX then (u'\<lparr>ur_value := v\<rparr>, True)
                    else (u'\<lparr>ur_value := 0\<rparr>, False))"

lemma uclamp_rq_dec_id_eq:
  fixes p clamp_id
  defines "s \<equiv> t_uclamp p clamp_id"
  assumes "uc_active s" and "occupied (rq_uclamp rq clamp_id) (uc_bucket_id s)"
  shows "uclamp_rq_dec_id e rq p clamp_id =
     (rq\<lparr>rq_uclamp := (rq_uclamp rq)(clamp_id :=
          fst (clamp_dec e clamp_id (uc_bucket_id s) (uc_value s) (rq_uclamp rq clamp_id))),
         rq_uclamp_idle := rq_uclamp_idle rq \<or>
           snd (clamp_dec e clamp_id (uc_bucket_id s) (uc_value s) (rq_uclamp rq clamp_id))\<rparr>,
      p\<lparr>t_uclamp := (t_uclamp p)(clamp_id := s\<lparr>uc_active := False\<rparr>)\<rparr>)"
  using assms(2,3) unfolding uclamp_rq_dec_id_def s_def [symmetric]
  by (simp add: clamp_dec_def upd_bucket_def uclamp_rq_max_value_def uclamp_idle_value_def uclamp_none_def
      set_rq_clamp_def Let_def not_le split: option.split)

context uclamp_conf
begin

lemma clamp_rel_dec:
  assumes rel: "clamp_rel e u M" and v: "v \<in># M"
    and dec: "clamp_dec e clamp_id (uclamp_bucket_id e v) v u = (u', idle)"
  shows "clamp_rel e u' (M - {#v#})"
    and "idle \<longleftrightarrow> clamp_id = UCLAMP_MAX \<and> M - {#v#} = {#}"
    and "M - {#v#} = {#} \<Longrightarrow> clamp_id = UCLAMP_MIN \<Longrightarrow> ur_value u' = 0"
proof -
  let ?b = "uclamp_bucket_id e v"
  obtain N where M: "M = add_mset v N" using v by (rule mset_add)
  then have N: "M - {#v#} = N" and ne: "M \<noteq> {#}" by simp_all
  define f where "f = (ur_bucket u)(?b := (ur_bucket u ?b)\<lparr>bk_tasks := bk_tasks (ur_bucket u ?b) - 1\<rparr>)"
  have f_val: "bk_value (f c) = bk_value (ur_bucket u c)" for c by (simp add: f_def)
  have f_tasks: "bk_tasks (f c) = size (filter_mset (\<lambda>w. uclamp_bucket_id e w = c) N)" for c
    using clamp_rel_tasks [OF rel, of c] by (cases "c = ?b") (simp_all add: f_def M)
  have f_occ: "bk_tasks (f c) \<noteq> 0 \<longleftrightarrow> (\<exists>w \<in># N. uclamp_bucket_id e w = c)" for c
    by (simp add: f_tasks filter_mset_eq_conv)
  have fb: "bk_tasks (f ?b) = bk_tasks (ur_bucket u ?b) - 1" by (simp add: f_def)
  have sub: "bk_tasks (f c) \<noteq> 0 \<Longrightarrow> occupied u c" for c by (auto simp: f_def split: if_splits)
  have occ_b: "occupied u ?b" using clamp_rel_occupied [OF rel] v by blast
  have u': "ur_bucket u' = f"
    using dec by (auto simp: clamp_dec_def Let_def f_def split: if_splits option.splits)
  have home: "bk_tasks (f c) \<noteq> 0 \<Longrightarrow> uclamp_bucket_id e (bk_value (f c)) = c" for c
    using clamp_rel_home [OF rel] sub f_val by simp
  have top: "bk_value (f c) \<le> bk_value (f d)"
    if "top_bucket f (UCLAMP_BUCKETS e) = Some d" "bk_tasks (f c) \<noteq> 0" for c d
  proof -
    have "c < UCLAMP_BUCKETS e" using home [OF that(2)] uclamp_bucket_id_less by metis
    then have "c \<le> d" using top_bucket_Some [OF that(1)] that(2) by (meson not_le)
    moreover have "uclamp_bucket_id e (bk_value (f d)) = d" "uclamp_bucket_id e (bk_value (f c)) = c"
      using home top_bucket_Some [OF that(1)] that(2) by blast+
    ultimately show ?thesis
      using uclamp_bucket_id_mono [of "bk_value (f d)" "bk_value (f c)" e] by (metis linear order_antisym)
  qed
  have empty: "top_bucket f (UCLAMP_BUCKETS e) = None \<longleftrightarrow> N = {#}"
  proof
    assume "top_bucket f (UCLAMP_BUCKETS e) = None"
    then have "\<not> bk_tasks (f (uclamp_bucket_id e w)) \<noteq> 0" for w
      using uclamp_bucket_id_less by (simp add: top_bucket_None)
    then show "N = {#}" using f_occ by (metis multiset_nonemptyE)
  qed (simp add: top_bucket_None f_tasks)
  have last: "ur_value u = bk_value (ur_bucket u ?b)" if "N = {#}"
  proof -
    obtain c where c: "occupied u c" "ur_value u = bk_value (ur_bucket u c)"
      using clamp_rel_attained [OF rel ne] by blast
    then have "c = ?b" using clamp_rel_occupied [OF rel, of c] that by (simp add: M)
    with c show ?thesis by simp
  qed
  have dec': "(u', idle) =
     (if bk_tasks (f ?b) \<noteq> 0 \<or> bk_value (f ?b) < ur_value u then (u\<lparr>ur_bucket := f\<rparr>, False)
      else case top_bucket f (UCLAMP_BUCKETS e) of
         Some c \<Rightarrow> (u\<lparr>ur_bucket := f, ur_value := bk_value (f c)\<rparr>, False)
       | None \<Rightarrow> if clamp_id = UCLAMP_MAX then (u\<lparr>ur_bucket := f, ur_value := v\<rparr>, True)
                 else (u\<lparr>ur_bucket := f, ur_value := 0\<rparr>, False))"
    unfolding dec [symmetric] clamp_dec_def Let_def f_def [symmetric] fb f_val
    by (simp add: f_val split: option.split)
  have val: "N \<noteq> {#} \<Longrightarrow> (\<exists>c. bk_tasks (f c) \<noteq> 0 \<and> ur_value u' = bk_value (f c)) \<and>
      (\<forall>c. bk_tasks (f c) \<noteq> 0 \<longrightarrow> bk_value (f c) \<le> ur_value u')"
  proof (cases "bk_tasks (f ?b) \<noteq> 0 \<or> bk_value (f ?b) < ur_value u")
    case True
    then have eq: "ur_value u' = ur_value u" using dec' by simp
    obtain c where c: "occupied u c" "ur_value u = bk_value (ur_bucket u c)"
      using clamp_rel_attained [OF rel ne] by blast
    have "bk_tasks (f c) \<noteq> 0"
    proof (cases "c = ?b")
      case True
      then show ?thesis using \<open>bk_tasks (f ?b) \<noteq> 0 \<or> _\<close> c(2) by (simp add: f_val)
    next
      case False
      then show ?thesis using c(1) by (simp add: f_def)
    qed
    moreover have "bk_value (f d) \<le> ur_value u'" if "bk_tasks (f d) \<noteq> 0" for d
      using clamp_rel_max [OF rel sub [OF that]] by (simp add: eq f_val)
    ultimately show ?thesis using c(2) by (auto simp: eq f_val)
  next
    case False
    assume "N \<noteq> {#}"
    then obtain d where d: "top_bucket f (UCLAMP_BUCKETS e) = Some d" using empty by blast
    then have "ur_value u' = bk_value (f d)" using False dec' by simp
    then show ?thesis using top [OF d] top_bucket_Some [OF d] by (intro conjI exI [of _ d]) simp_all
  qed
  show "clamp_rel e u' (M - {#v#})"
    unfolding clamp_rel_def u' N
  proof (intro conjI allI ballI impI)
    show "bk_tasks (f c) = size (filter_mset (\<lambda>w. uclamp_bucket_id e w = c) N)" for c by (rule f_tasks)
    show "w \<le> bk_value (f (uclamp_bucket_id e w))" if "w \<in># N" for w
      using clamp_rel_bound [OF rel, of w] that by (simp add: M f_val)
    show "uclamp_bucket_id e (bk_value (f c)) = c" if "bk_tasks (f c) \<noteq> 0" for c using that by (rule home)
    show "\<exists>c. bk_tasks (f c) \<noteq> 0 \<and> ur_value u' = bk_value (f c)" if "N \<noteq> {#}" using val that by blast
    show "bk_value (f c) \<le> ur_value u'" if "bk_tasks (f c) \<noteq> 0" for c
      using val that f_occ by fastforce
  qed
  have zero: "bk_tasks (f ?b) = 0 \<and> \<not> bk_value (f ?b) < ur_value u" if "N = {#}"
    using last [OF that] that by (simp add: f_tasks f_val)
  show "idle \<longleftrightarrow> clamp_id = UCLAMP_MAX \<and> M - {#v#} = {#}"
  proof (cases "N = {#}")
    case True
    then have "top_bucket f (UCLAMP_BUCKETS e) = None" using empty by simp
    then show ?thesis using dec' zero [OF True] True N by (simp split: if_splits)
  next
    case False
    then obtain d where "top_bucket f (UCLAMP_BUCKETS e) = Some d" using empty by blast
    then show ?thesis using dec' False N by (simp split: if_splits)
  qed
  show "ur_value u' = 0" if "M - {#v#} = {#}" "clamp_id = UCLAMP_MIN"
    using dec' empty zero that by (simp add: N)
qed


lemma clamp_rel_spec:
  assumes rel: "clamp_rel e u M" and M: "M \<noteq> {#}"
  shows "v \<in># M \<Longrightarrow> v \<le> ur_value u" and "uclamp_bucket_id e (ur_value u) = uclamp_bucket_id e (Max_mset M)"
proof -
  have ge: "v \<le> ur_value u" if "v \<in># M" for v
  proof -
    have "occupied u (uclamp_bucket_id e v)" using clamp_rel_occupied [OF rel] that by blast
    with clamp_rel_bound [OF rel that] clamp_rel_max [OF rel] show ?thesis by (blast intro: order_trans)
  qed
  obtain b where b: "occupied u b" "ur_value u = bk_value (ur_bucket u b)"
    using clamp_rel_attained [OF rel M] by blast
  then obtain w where w: "w \<in># M" "uclamp_bucket_id e w = b" using clamp_rel_occupied [OF rel] by blast
  have "uclamp_bucket_id e (ur_value u) = b" using clamp_rel_home [OF rel b(1)] b(2) by simp
  moreover have "b \<le> uclamp_bucket_id e (Max_mset M)"
    using w by (metis Max_ge finite_set_mset uclamp_bucket_id_mono)
  moreover have "uclamp_bucket_id e (Max_mset M) \<le> uclamp_bucket_id e (ur_value u)"
    using ge [of "Max_mset M"] M by (simp add: uclamp_bucket_id_mono)
  ultimately show "uclamp_bucket_id e (ur_value u) = uclamp_bucket_id e (Max_mset M)" by simp
  show "v \<in># M \<Longrightarrow> v \<le> ur_value u" by (rule ge)
qed

end

subsection \<open>The contract of enqueue and dequeue accounting\<close>

locale task_accounting =
  fixes inv :: "'q \<Rightarrow> 'v multiset \<Rightarrow> bool"
    and inc dec :: "'c \<Rightarrow> 'q \<Rightarrow> 't \<Rightarrow> 'q \<times> 't"
    and contrib :: "'t \<Rightarrow> 'v"
    and ready :: "'c \<Rightarrow> 't \<Rightarrow> bool"
    and counted :: "'c \<Rightarrow> 't \<Rightarrow> bool"
  assumes inc_inv: "inv q M \<Longrightarrow> ready c t \<Longrightarrow> inc c q t = (q', t') \<Longrightarrow> inv q' (add_mset (contrib t') M)"
    and inc_counted: "inv q M \<Longrightarrow> ready c t \<Longrightarrow> inc c q t = (q', t') \<Longrightarrow> counted c t'"
    and dec_inv: "inv q (add_mset (contrib t) M) \<Longrightarrow> counted c t \<Longrightarrow> dec c q t = (q', t') \<Longrightarrow> inv q' M"
begin

text \<open>An enqueue followed by a dequeue of the same task leaves the accounted multiset unchanged.\<close>

lemma inc_dec_inv:
  assumes "inv q M" "ready c t" "inc c q t = (q', t')" "dec c q' t' = (q'', t'')"
  shows "inv q'' M"
  using inc_inv [OF assms(1-3)] inc_counted [OF assms(1-3)] assms(4) by (rule dec_inv)

end

subsection \<open>The buckets of a run queue meet the contract\<close>

definition uc_ok :: "kenv \<Rightarrow> uclamp_se \<Rightarrow> bool" where
  "uc_ok e s \<longleftrightarrow> uc_value s \<le> SCHED_CAPACITY_SCALE \<and> uc_bucket_id s = uclamp_bucket_id e (uc_value s)"

definition uclamp_inv :: "kenv \<Rightarrow> rq \<Rightarrow> (nat \<times> nat) multiset \<Rightarrow> bool" where
  "uclamp_inv e rq M \<longleftrightarrow>
     clamp_rel e (rq_uclamp rq UCLAMP_MIN) (image_mset fst M) \<and>
     clamp_rel e (rq_uclamp rq UCLAMP_MAX) (image_mset snd M) \<and> (rq_uclamp_idle rq \<longleftrightarrow> M = {#})"

definition task_clamps :: "task_struct \<Rightarrow> nat \<times> nat" where
  "task_clamps t = (uc_value (t_uclamp t UCLAMP_MIN), uc_value (t_uclamp t UCLAMP_MAX))"

definition uclamp_ready :: "kenv \<Rightarrow> kernel \<Rightarrow> task_struct \<Rightarrow> bool" where
  "uclamp_ready e k t \<longleftrightarrow> sched_uclamp_used k \<and> uclamp_enabled e (t_sched_class t) \<and>
     uc_ok e (uclamp_eff_get e k t UCLAMP_MIN) \<and> uc_ok e (uclamp_eff_get e k t UCLAMP_MAX)"

definition uclamp_counted :: "kenv \<Rightarrow> kernel \<Rightarrow> task_struct \<Rightarrow> bool" where
  "uclamp_counted e k t \<longleftrightarrow> sched_uclamp_used k \<and> uclamp_enabled e (t_sched_class t) \<and>
     (\<forall>i. uc_active (t_uclamp t i) \<and> uc_ok e (t_uclamp t i))"

lemma uclamp_eff_get_frame [simp]:
  "uclamp_eff_get e k (t\<lparr>t_uclamp := f\<rparr>) i = uclamp_eff_get e k t i"
  by (simp add: uclamp_eff_get_def uclamp_tg_restrict_def Let_def)

lemma fold_clamp_ids: "fold f clamp_ids x = f UCLAMP_MAX (f UCLAMP_MIN x)"
  by (simp add: clamp_ids_def)

lemma all_uclamp_id: "(\<forall>i. P i) \<longleftrightarrow> P UCLAMP_MIN \<and> P UCLAMP_MAX"
  by (metis uclamp_id.exhaust)

lemma uclamp_rq_inc_eq:
  fixes e k t
  defines "a \<equiv> uclamp_eff_get e k t UCLAMP_MIN" and "b \<equiv> uclamp_eff_get e k t UCLAMP_MAX"
  assumes "uclamp_ready e k t"
  shows "uclamp_rq_inc e k rq t =
     (rq\<lparr>rq_uclamp := (rq_uclamp rq)
          (UCLAMP_MIN := clamp_inc (rq_uclamp_idle rq) (uclamp_bucket_id e (uc_value a)) (uc_value a) (rq_uclamp rq UCLAMP_MIN),
           UCLAMP_MAX := clamp_inc (rq_uclamp_idle rq) (uclamp_bucket_id e (uc_value b)) (uc_value b) (rq_uclamp rq UCLAMP_MAX)),
         rq_uclamp_idle := False\<rparr>,
      t\<lparr>t_uclamp := (t_uclamp t)(UCLAMP_MIN := a\<lparr>uc_active := True\<rparr>, UCLAMP_MAX := b\<lparr>uc_active := True\<rparr>)\<rparr>)"
  using assms(3)
  by (simp add: uclamp_rq_inc_def uclamp_ready_def fold_clamp_ids uclamp_rq_inc_id_eq uc_ok_def a_def b_def)

lemma uclamp_rq_dec_eq:
  assumes "uclamp_counted e k t" and "uclamp_inv e rq (add_mset (task_clamps t) M)"
  defines "u \<equiv> clamp_dec e UCLAMP_MIN (uclamp_bucket_id e (uc_value (t_uclamp t UCLAMP_MIN)))
                 (uc_value (t_uclamp t UCLAMP_MIN)) (rq_uclamp rq UCLAMP_MIN)"
    and "w \<equiv> clamp_dec e UCLAMP_MAX (uclamp_bucket_id e (uc_value (t_uclamp t UCLAMP_MAX)))
                 (uc_value (t_uclamp t UCLAMP_MAX)) (rq_uclamp rq UCLAMP_MAX)"
  shows "fst (uclamp_rq_dec e k rq t) =
     rq\<lparr>rq_uclamp := (rq_uclamp rq)(UCLAMP_MIN := fst u, UCLAMP_MAX := fst w), rq_uclamp_idle := snd u \<or> snd w\<rparr>"
proof -
  have occ: "occupied (rq_uclamp rq i) (uclamp_bucket_id e (uc_value (t_uclamp t i)))" for i
    using assms(2) clamp_rel_occupied by (cases i) (fastforce simp: uclamp_inv_def task_clamps_def)+
  show ?thesis
    using assms(1,2) occ [of UCLAMP_MIN] occ [of UCLAMP_MAX]
    by (simp add: uclamp_rq_dec_def fold_clamp_ids uclamp_counted_def uclamp_rq_dec_id_eq uc_ok_def
        u_def w_def uclamp_inv_def)
qed

sublocale uclamp_conf \<subseteq> uc: task_accounting "uclamp_inv e" "uclamp_rq_inc e" "uclamp_rq_dec e"
  task_clamps "uclamp_ready e" "uclamp_counted e"
proof
  fix rq M k t rq' t'
  assume inv: "uclamp_inv e rq M" and ready: "uclamp_ready e k t" and inc: "uclamp_rq_inc e k rq t = (rq', t')"
  show "uclamp_inv e rq' (add_mset (task_clamps t') M)"
    using inv inc unfolding uclamp_rq_inc_eq [OF ready]
    by (auto simp: uclamp_inv_def task_clamps_def intro!: clamp_rel_inc)
  show "uclamp_counted e k t'"
    using inc ready unfolding uclamp_rq_inc_eq [OF ready]
    by (auto simp: uclamp_counted_def uclamp_ready_def uc_ok_def all_uclamp_id)
next
  fix rq M k t rq' t'
  assume inv: "uclamp_inv e rq (add_mset (task_clamps t) M)" and counted: "uclamp_counted e k t"
    and dec: "uclamp_rq_dec e k rq t = (rq', t')"
  let ?d = "\<lambda>i. clamp_dec e i (uclamp_bucket_id e (uc_value (t_uclamp t i))) (uc_value (t_uclamp t i)) (rq_uclamp rq i)"
  have rq': "rq' = rq\<lparr>rq_uclamp := (rq_uclamp rq)(UCLAMP_MIN := fst (?d UCLAMP_MIN), UCLAMP_MAX := fst (?d UCLAMP_MAX)),
      rq_uclamp_idle := snd (?d UCLAMP_MIN) \<or> snd (?d UCLAMP_MAX)\<rparr>"
    using uclamp_rq_dec_eq [OF counted inv] dec by simp
  have rel: "clamp_rel e (rq_uclamp rq UCLAMP_MIN) (image_mset fst (add_mset (task_clamps t) M))"
    "clamp_rel e (rq_uclamp rq UCLAMP_MAX) (image_mset snd (add_mset (task_clamps t) M))"
    using inv by (simp_all add: uclamp_inv_def)
  from clamp_rel_dec [OF rel(1) _ prod.collapse [symmetric], of "uc_value (t_uclamp t UCLAMP_MIN)" UCLAMP_MIN]
    clamp_rel_dec [OF rel(2) _ prod.collapse [symmetric], of "uc_value (t_uclamp t UCLAMP_MAX)" UCLAMP_MAX]
  show "uclamp_inv e rq' M"
    by (simp add: uclamp_inv_def rq' task_clamps_def)
qed


subsection \<open>Re-counting a running task\<close>

definition uclamp_sys_ok :: "kenv \<Rightarrow> kernel \<Rightarrow> task_struct \<Rightarrow> bool" where
  "uclamp_sys_ok e k t \<longleftrightarrow> (\<forall>i. uc_ok e (t_uclamp_req t i) \<and> uc_ok e (uclamp_default k i) \<and>
     uc_ok e (tg_uclamp (task_groups k (t_sched_task_group t)) i))"

context uclamp_conf
begin

lemma take_bit_clamp: "v \<le> SCHED_CAPACITY_SCALE \<Longrightarrow> take_bit (bits_per e SCHED_CAPACITY_SCALE) v = v"
  using bits_per [of SCHED_CAPACITY_SCALE] by (simp add: take_bit_nat_eq_self)

lemma take_bit_bucket: "take_bit (bits_per e (UCLAMP_BUCKETS e)) (uclamp_bucket_id e v) = uclamp_bucket_id e v"
  using bits_per [of "UCLAMP_BUCKETS e"] uclamp_bucket_id_less [of v]
  by (meson less_trans take_bit_nat_eq_self)

lemma uclamp_se_set_ok:
  "v \<le> SCHED_CAPACITY_SCALE \<Longrightarrow> uc_ok e (uclamp_se_set e s v d) \<and> uc_value (uclamp_se_set e s v d) = v"
  by (simp add: uc_ok_def uclamp_se_set_def take_bit_clamp take_bit_bucket)

lemma uclamp_eff_get_ok:
  assumes "uclamp_sys_ok e k t"
  shows "uc_ok e (uclamp_eff_get e k t i)"
proof -
  let ?g = "tg_uclamp (task_groups k (t_sched_task_group t))"
  have "clamp (uc_value (t_uclamp_req t i)) (uc_value (?g UCLAMP_MIN)) (uc_value (?g UCLAMP_MAX)) \<le> SCHED_CAPACITY_SCALE"
    using assms by (simp add: uclamp_sys_ok_def uc_ok_def clamp_def min_le_iff_disj)
  with assms show ?thesis
    by (auto simp: uclamp_eff_get_def uclamp_tg_restrict_def uclamp_sys_ok_def Let_def uclamp_se_set_ok)
qed

lemma clamp_rel_reinc:
  assumes "clamp_rel e u (add_mset v M)" and "clamp_dec e i (uclamp_bucket_id e v) v u = (u', idle)"
  shows "clamp_rel e (clamp_inc idle (uclamp_bucket_id e w) w u') (add_mset w M)"
    and "i = UCLAMP_MIN \<Longrightarrow> \<not> idle"
  using clamp_rel_dec [OF assms(1) _ assms(2)]
  by (cases i; auto intro!: clamp_rel_inc)+

lemma uclamp_rq_reinc_id_rel:
  assumes "clamp_rel e (rq_uclamp rq i) (add_mset (uc_value (t_uclamp t i)) M)"
    and "uc_active (t_uclamp t i)" "uc_ok e (t_uclamp t i)" "uclamp_sys_ok e k t" "\<not> rq_uclamp_idle rq"
    and "uclamp_rq_reinc_id e k rq t i = (rq', t')"
  shows "clamp_rel e (rq_uclamp rq' i) (add_mset (uc_value (t_uclamp t' i)) M)"
    and "\<not> rq_uclamp_idle rq'" and "j \<noteq> i \<Longrightarrow> rq_uclamp rq' j = rq_uclamp rq j"
    and "t' = t\<lparr>t_uclamp := (t_uclamp t)(i := (uclamp_eff_get e k t i)\<lparr>uc_active := True\<rparr>)\<rparr>"
proof -
  let ?v = "uc_value (t_uclamp t i)" and ?s = "uclamp_eff_get e k t i"
  obtain u' idle where d: "clamp_dec e i (uclamp_bucket_id e ?v) ?v (rq_uclamp rq i) = (u', idle)" by force
  have occ: "occupied (rq_uclamp rq i) (uclamp_bucket_id e ?v)"
    using clamp_rel_occupied [OF assms(1)] by auto
  have bs: "uc_bucket_id (t_uclamp t i) = uclamp_bucket_id e ?v" "uc_bucket_id ?s = uclamp_bucket_id e (uc_value ?s)"
    using assms(3) uclamp_eff_get_ok [OF assms(4), of i] by (simp_all add: uc_ok_def)
  have eq: "uclamp_rq_dec_id e rq t i =
      (rq\<lparr>rq_uclamp := (rq_uclamp rq)(i := u'), rq_uclamp_idle := idle\<rparr>,
       t\<lparr>t_uclamp := (t_uclamp t)(i := (t_uclamp t i)\<lparr>uc_active := False\<rparr>)\<rparr>)"
    using assms(2,5) occ by (simp add: uclamp_rq_dec_id_eq bs d)
  have "uclamp_rq_reinc_id e k rq t i =
      (rq\<lparr>rq_uclamp_idle := idle \<and> i \<noteq> UCLAMP_MAX,
          rq_uclamp := (rq_uclamp rq)(i := clamp_inc idle (uclamp_bucket_id e (uc_value ?s)) (uc_value ?s) u')\<rparr>,
       t\<lparr>t_uclamp := (t_uclamp t)(i := ?s\<lparr>uc_active := True\<rparr>)\<rparr>)"
    using assms(2) 
    by (cases idle) (simp_all add: uclamp_rq_reinc_id_def eq uclamp_rq_inc_id_eq bs(2) [symmetric])
  then have r: "rq' = rq\<lparr>rq_uclamp_idle := idle \<and> i \<noteq> UCLAMP_MAX,
          rq_uclamp := (rq_uclamp rq)(i := clamp_inc idle (uclamp_bucket_id e (uc_value ?s)) (uc_value ?s) u')\<rparr>"
    and t: "t' = t\<lparr>t_uclamp := (t_uclamp t)(i := ?s\<lparr>uc_active := True\<rparr>)\<rparr>"
    using assms(6) by simp_all
  note re = clamp_rel_reinc [OF assms(1) d]
  show "clamp_rel e (rq_uclamp rq' i) (add_mset (uc_value (t_uclamp t' i)) M)" using re(1) by (simp add: r t)
  show "\<not> rq_uclamp_idle rq'" using re(2) by (cases i) (simp_all add: r)
  show "rq_uclamp rq' j = rq_uclamp rq j" if "j \<noteq> i" using that by (simp add: r)
  show "t' = t\<lparr>t_uclamp := (t_uclamp t)(i := ?s\<lparr>uc_active := True\<rparr>)\<rparr>" by (rule t)
qed


lemma uclamp_reinc_inv:
  assumes inv: "uclamp_inv e rq (add_mset (task_clamps t) M)" and sys: "uclamp_sys_ok e k t"
    and ok: "\<And>i. uc_active (t_uclamp t i) \<and> uc_ok e (t_uclamp t i)"
    and run: "fold (\<lambda>i (rq, t). uclamp_rq_reinc_id e k rq t i) clamp_ids (rq, t) = (rq', t')"
  shows "uclamp_inv e rq' (add_mset (task_clamps t') M)" and "uc_active (t_uclamp t' i) \<and> uc_ok e (t_uclamp t' i)"
    and "t_sched_class t' = t_sched_class t"
proof -
  obtain rq1 t1 where one: "uclamp_rq_reinc_id e k rq t UCLAMP_MIN = (rq1, t1)" by force
  then have two: "uclamp_rq_reinc_id e k rq1 t1 UCLAMP_MAX = (rq', t')" using run by (simp add: fold_clamp_ids)
  have idle: "\<not> rq_uclamp_idle rq"
    and min: "clamp_rel e (rq_uclamp rq UCLAMP_MIN) (add_mset (uc_value (t_uclamp t UCLAMP_MIN)) (image_mset fst M))"
    and max: "clamp_rel e (rq_uclamp rq UCLAMP_MAX) (add_mset (uc_value (t_uclamp t UCLAMP_MAX)) (image_mset snd M))"
    using inv by (simp_all add: uclamp_inv_def task_clamps_def)
  note r1 = uclamp_rq_reinc_id_rel [OF min _ _ sys idle one]
  have t1: "t1 = t\<lparr>t_uclamp := (t_uclamp t)(UCLAMP_MIN := (uclamp_eff_get e k t UCLAMP_MIN)\<lparr>uc_active := True\<rparr>)\<rparr>"
    and idle1: "\<not> rq_uclamp_idle rq1" and max1: "rq_uclamp rq1 UCLAMP_MAX = rq_uclamp rq UCLAMP_MAX"
    using r1 ok by simp_all
  have "uclamp_sys_ok e k t1" using sys by (simp add: uclamp_sys_ok_def t1)
  from uclamp_rq_reinc_id_rel [OF _ _ _ this idle1 two, of "image_mset snd M"]
  have r2: "clamp_rel e (rq_uclamp rq' UCLAMP_MAX) (add_mset (uc_value (t_uclamp t' UCLAMP_MAX)) (image_mset snd M))"
    "\<not> rq_uclamp_idle rq'" "rq_uclamp rq' UCLAMP_MIN = rq_uclamp rq1 UCLAMP_MIN"
    "t' = t1\<lparr>t_uclamp := (t_uclamp t1)(UCLAMP_MAX := (uclamp_eff_get e k t UCLAMP_MAX)\<lparr>uc_active := True\<rparr>)\<rparr>"
    using max ok by (simp_all add: max1 t1)
  show "uclamp_inv e rq' (add_mset (task_clamps t') M)"
    using r1(1) r2 ok by (simp add: uclamp_inv_def task_clamps_def t1)
  show "uc_active (t_uclamp t' i) \<and> uc_ok e (t_uclamp t' i)"
    using uclamp_eff_get_ok [OF sys] by (cases i) (simp_all add: r2(4) t1 uc_ok_def)
  show "t_sched_class t' = t_sched_class t" by (simp add: r2(4) t1)
qed

end

subsection \<open>Every history of a run queue\<close>

text \<open>
  A run queue starts as \<^verbatim>\<open>init_uclamp_rq\<close> leaves it; tasks are enqueued, dequeued and re-counted in any
  order.  The second argument collects the counted tasks.  The system state \<open>k\<close> (system defaults and
  task groups) may differ from step to step; the static key \<^verbatim>\<open>sched_uclamp_used\<close> is on.
\<close>

inductive uclamp_reach :: "kenv \<Rightarrow> rq \<Rightarrow> task_struct multiset \<Rightarrow> bool" for e where
  boot: "uclamp_reach e (init_uclamp_rq rq) {#}"
| enqueue: "uclamp_reach e rq T \<Longrightarrow> sched_uclamp_used k \<Longrightarrow> uclamp_enabled e (t_sched_class t) \<Longrightarrow>
    uclamp_sys_ok e k t \<Longrightarrow> uclamp_rq_inc e k rq t = (rq', t') \<Longrightarrow> uclamp_reach e rq' (add_mset t' T)"
| dequeue: "uclamp_reach e rq (add_mset t T) \<Longrightarrow> sched_uclamp_used k \<Longrightarrow>
    uclamp_rq_dec e k rq t = (rq', t') \<Longrightarrow> uclamp_reach e rq' T"
| update: "uclamp_reach e rq (add_mset t T) \<Longrightarrow> uclamp_sys_ok e k t \<Longrightarrow>
    fold (\<lambda>i (rq, t). uclamp_rq_reinc_id e k rq t i) clamp_ids (rq, t) = (rq', t') \<Longrightarrow>
    uclamp_reach e rq' (add_mset t' T)"

lemma uclamp_inv_boot: "uclamp_inv e (init_uclamp_rq rq) {#}"
  by (simp add: uclamp_inv_def init_uclamp_rq_def fold_clamp_ids clamp_rel_def)

context uclamp_conf
begin

lemma uclamp_reach_inv:
  assumes "uclamp_reach e rq T"
  shows "uclamp_inv e rq (image_mset task_clamps T) \<and>
    (\<forall>t \<in># T. uclamp_enabled e (t_sched_class t) \<and> (\<forall>i. uc_active (t_uclamp t i) \<and> uc_ok e (t_uclamp t i)))"
  using assms
proof induction
  case (boot rq)
  then show ?case by (simp add: uclamp_inv_boot)
next
  case (enqueue rq T k t rq' t')
  then have ready: "uclamp_ready e k t" by (simp add: uclamp_ready_def uclamp_eff_get_ok)
  then show ?case
    using enqueue uc.inc_inv [OF _ ready] uc.inc_counted [OF _ ready] by (fastforce simp: uclamp_counted_def)
next
  case (dequeue rq t T k rq' t')
  then have "uclamp_counted e k t" by (simp add: uclamp_counted_def)
  then show ?case using dequeue uc.dec_inv by fastforce
next
  case (update rq t T k rq' t')
  then show ?case
    using uclamp_reinc_inv [of rq t "image_mset task_clamps T" k rq' t'] by auto
qed

end


lemma sint_unat:
  assumes "unat (w :: u32) < 2147483648"
  shows "sint w = int (unat w)"
proof -
  have "int (unat w) = uint w" by simp
  with assms have "uint w < 2147483648" "0 \<le> uint w" by linarith+
  then have "signed_take_bit 31 (uint w) = uint w"
    by (intro signed_take_bit_int_eq_self order_trans [OF _ uint_ge_0]) simp_all
  then show ?thesis by (simp add: sint_uint)
qed

lemma sint_small:
  assumes "unat (w :: u32) \<le> 1024"
  shows "sint (w + 1) = int (unat w) + 1 \<and> sint w = int (unat w) \<and> w \<noteq> - 1"
proof -
  have s: "unat (w + 1) = unat w + 1"
    using assms by (subst unat_word_ariths) simp
  then have "w \<noteq> - 1" by auto
  with s show ?thesis using assms sint_unat [of w] sint_unat [of "w + 1"] by simp
qed

context uclamp_conf
begin

lemma bits_per_scale: "bits_per e SCHED_CAPACITY_SCALE = 11"
proof -
  have "(2::nat) ^ 10 < 2 ^ bits_per e SCHED_CAPACITY_SCALE"
    using bits_per [of SCHED_CAPACITY_SCALE] by (simp add: SCHED_CAPACITY_SCALE_def)
  then have "10 < bits_per e SCHED_CAPACITY_SCALE" by (rule power_less_imp_less_exp [rotated]) simp
  moreover have "(2::nat) ^ (bits_per e SCHED_CAPACITY_SCALE - 1) \<le> 2 ^ 10"
    using bits_per_le [of SCHED_CAPACITY_SCALE] by (simp add: SCHED_CAPACITY_SCALE_def)
  then have "bits_per e SCHED_CAPACITY_SCALE - 1 \<le> 10" by (rule power_le_imp_le_exp [rotated]) simp
  ultimately show ?thesis by simp
qed

lemma clamp_rel_of_reach:
  assumes "uclamp_reach e rq T"
  shows "clamp_rel e (rq_uclamp rq i) (image_mset (\<lambda>t. uc_value (t_uclamp t i)) T)"
  using uclamp_reach_inv [OF assms]
  by (cases i) (simp_all add: uclamp_inv_def task_clamps_def image_mset.compositionality comp_def)

lemma delta_bounds: "0 < UCLAMP_BUCKET_DELTA e" "UCLAMP_BUCKET_DELTA e \<le> 1034"
proof -
  have "UCLAMP_BUCKETS e \<le> 1024 + UCLAMP_BUCKETS e div 2" using buckets_max by linarith
  then show "0 < UCLAMP_BUCKET_DELTA e"
    using buckets_min by (simp add: UCLAMP_BUCKET_DELTA_def DIV_ROUND_CLOSEST_def SCHED_CAPACITY_SCALE_def div_greater_zero_iff)
  have "(1024 + UCLAMP_BUCKETS e div 2) div UCLAMP_BUCKETS e \<le> 1024 + UCLAMP_BUCKETS e div 2" by (rule div_le_dividend)
  also have "\<dots> \<le> 1034" using buckets_max by linarith
  finally show "UCLAMP_BUCKET_DELTA e \<le> 1034"
    by (simp add: UCLAMP_BUCKET_DELTA_def DIV_ROUND_CLOSEST_def SCHED_CAPACITY_SCALE_def)
qed

lemma top_bucket_id:
  assumes "1034 * 20 \<le> v"
  shows "uclamp_bucket_id e v = UCLAMP_BUCKETS e - 1"
proof -
  have "20 \<le> v div 1034" using assms by linarith
  also have "v div 1034 \<le> v div UCLAMP_BUCKET_DELTA e" using delta_bounds by (simp add: div_le_mono2)
  finally show ?thesis using buckets_max by (simp add: uclamp_bucket_id_def)
qed

end

text \<open>A user value replaces whatever the reset pass left in the same clamp.\<close>

lemma setscheduler_uclamp_min:
  assumes "flag_set (sa_flags attr) (SCHED_FLAG_UTIL_CLAMP_MIN e)" "flag_set (sa_flags attr) (SCHED_FLAG_UTIL_CLAMP e)"
    and "sa_util_min attr \<noteq> - 1"
  shows "\<exists>s. t_uclamp_req (k__setscheduler_uclamp e k p attr) UCLAMP_MIN = uclamp_se_set e s (unat (sa_util_min attr)) True"
  using assms by (auto simp: k__setscheduler_uclamp_def set_uclamp_req_def Let_def)

lemma setscheduler_uclamp_max:
  assumes "flag_set (sa_flags attr) (SCHED_FLAG_UTIL_CLAMP_MAX e)" "flag_set (sa_flags attr) (SCHED_FLAG_UTIL_CLAMP e)"
    and "sa_util_max attr \<noteq> - 1"
  shows "\<exists>s. t_uclamp_req (k__setscheduler_uclamp e k p attr) UCLAMP_MAX = uclamp_se_set e s (unat (sa_util_max attr)) True"
  using assms by (auto simp: k__setscheduler_uclamp_def set_uclamp_req_def Let_def)

subsection \<open>Properties\<close>

text \<open>
  C1.  In every history of a run queue, its clamp value for each clamp index is at least the effective
  clamp of every counted task, and lies in the same bucket as the largest of them: no runnable task
  is clamped below its request, and overboost stays within one bucket.
\<close>

theorem uclamp_rq_value_tracks_max:
  assumes "uclamp_conf e" and "uclamp_reach e rq T" and "t \<in># T"
  shows "uc_value (t_uclamp t i) \<le> ur_value (rq_uclamp rq i) \<and>
    uclamp_bucket_id e (ur_value (rq_uclamp rq i)) =
    uclamp_bucket_id e (Max ((\<lambda>t. uc_value (t_uclamp t i)) ` set_mset T))"
proof -
  note rel = uclamp_conf.clamp_rel_of_reach [OF assms(1,2), of i]
  have "image_mset (\<lambda>t. uc_value (t_uclamp t i)) T \<noteq> {#}" using assms(3) by auto
  with uclamp_conf.clamp_rel_spec [OF assms(1) rel] assms(3) show ?thesis by simp
qed

definition sample_task :: task_struct where
  "sample_task = zero_task\<lparr>t_uclamp_req := (\<lambda>_. \<lparr>uc_value = 512, uc_bucket_id = 2, uc_active = False, uc_user_defined = True\<rparr>)\<rparr>"

definition sample_clamp_kernel :: kernel where
  "sample_clamp_kernel = zero_kernel\<lparr>sched_uclamp_used := True,
     uclamp_default := (\<lambda>_. \<lparr>uc_value = 1024, uc_bucket_id = 4, uc_active = False, uc_user_defined = False\<rparr>)\<rparr>"

lemma sample_bucket_ids:
  "uclamp_bucket_id kenv_v5_17 0 = 0" "uclamp_bucket_id kenv_v5_17 512 = 2" "uclamp_bucket_id kenv_v5_17 1024 = 4"
  by (simp_all add: uclamp_bucket_id_def UCLAMP_BUCKET_DELTA_def DIV_ROUND_CLOSEST_def SCHED_CAPACITY_SCALE_def kenv_v5_17_def)

lemma sample_reach:
  "uclamp_reach kenv_v5_17 (fst (uclamp_rq_inc kenv_v5_17 sample_clamp_kernel (init_uclamp_rq zero_rq) sample_task))
    {# snd (uclamp_rq_inc kenv_v5_17 sample_clamp_kernel (init_uclamp_rq zero_rq) sample_task) #}"
  by (rule uclamp_reach.enqueue [OF uclamp_reach.boot, where k = sample_clamp_kernel and t = sample_task])
    (simp_all add: sample_clamp_kernel_def sample_task_def zero_defs kenv_v5_17_def [THEN arg_cong, of uclamp_enabled]
      uclamp_sys_ok_def uc_ok_def sample_bucket_ids SCHED_CAPACITY_SCALE_def)

theorem uclamp_rq_value_tracks_max_witness:
  "let r = uclamp_rq_inc kenv_v5_17 sample_clamp_kernel (init_uclamp_rq zero_rq) sample_task
   in uc_value (t_uclamp (snd r) UCLAMP_MIN) = 512 \<and> 512 \<le> ur_value (rq_uclamp (fst r) UCLAMP_MIN)"
proof -
  have v: "uc_value (t_uclamp (snd (uclamp_rq_inc kenv_v5_17 sample_clamp_kernel (init_uclamp_rq zero_rq) sample_task)) UCLAMP_MIN) = 512"
    by (simp add: uclamp_rq_inc_def fold_clamp_ids uclamp_rq_inc_id_eq uclamp_eff_get_def uclamp_tg_restrict_def
        sample_clamp_kernel_def sample_task_def zero_defs kenv_v5_17_def root_task_group_def)
  show ?thesis
    using uclamp_rq_value_tracks_max [OF v5_17_uclamp.uclamp_conf_axioms sample_reach, where i = UCLAMP_MIN] v
    by (simp add: Let_def)
qed

text \<open>
  C6.  A request from user space with both clamps in range and in order is accepted, and is then stored
  exactly, in the bucket that belongs to it, and marked as user defined.
\<close>

theorem uclamp_request_honoured:
  assumes "uclamp_conf e" and "attr_h e"
    and "flag_set (sa_flags attr) (SCHED_FLAG_UTIL_CLAMP_MIN e)" and "flag_set (sa_flags attr) (SCHED_FLAG_UTIL_CLAMP_MAX e)"
    and "unat (sa_util_min attr) \<le> unat (sa_util_max attr)" and "unat (sa_util_max attr) \<le> SCHED_CAPACITY_SCALE"
  shows "fst (uclamp_validate e p attr k) = None \<and>
    uc_value (t_uclamp_req (k__setscheduler_uclamp e k p attr) UCLAMP_MIN) = unat (sa_util_min attr) \<and>
    uc_value (t_uclamp_req (k__setscheduler_uclamp e k p attr) UCLAMP_MAX) = unat (sa_util_max attr) \<and>
    (\<forall>i. uc_ok e (t_uclamp_req (k__setscheduler_uclamp e k p attr) i) \<and>
         uc_user_defined (t_uclamp_req (k__setscheduler_uclamp e k p attr) i))"
proof -
  let ?a = "sa_util_min attr" and ?b = "sa_util_max attr"
  have small: "unat w \<le> 1024 \<Longrightarrow> sint (w + 1) = int (unat w) + 1 \<and> sint w = int (unat w) \<and> w \<noteq> -1" for w :: u32
    by (rule sint_small)
  have le: "unat ?a \<le> 1024" "unat ?b \<le> 1024" using assms(5,6) by (simp_all add: SCHED_CAPACITY_SCALE_def)
  have ui: "uint ?a \<le> uint ?b" "uint ?b \<le> 1024"
    using assms(5) le(2) uint_nat [of ?a] uint_nat [of ?b] by linarith+
  have fl: "flag_set (sa_flags attr) (SCHED_FLAG_UTIL_CLAMP e)"
    using assms(3) attr_h.SCHED_FLAG_UTIL_CLAMP [OF assms(2)] by (simp add: flag_set_or)
  note st = uclamp_conf.uclamp_se_set_ok [OF assms(1)]
  have ok: "fst (uclamp_validate e p attr k) = None"
    using small [OF le(1)] small [OF le(2)] assms(3,4) ui
    by (simp add: uclamp_validate_def Let_def SCHED_CAPACITY_SCALE_def)
  obtain s where s: "t_uclamp_req (k__setscheduler_uclamp e k p attr) UCLAMP_MIN = uclamp_se_set e s (unat ?a) True"
    using setscheduler_uclamp_min assms(3) fl small [OF le(1)] by blast
  obtain s' where s': "t_uclamp_req (k__setscheduler_uclamp e k p attr) UCLAMP_MAX = uclamp_se_set e s' (unat ?b) True"
    using setscheduler_uclamp_max assms(4) fl small [OF le(2)] by blast
  from ok show ?thesis
    using st [of "unat ?a" s True] st [of "unat ?b" s' True] le
    by (simp add: all_uclamp_id SCHED_CAPACITY_SCALE_def s s')
      (simp add: uclamp_se_set_def)
qed

theorem uclamp_request_honoured_witness:
  "fst (uclamp_validate kenv_v5_17 zero_task (zero_attr\<lparr>sa_flags := 0x60, sa_util_min := 200, sa_util_max := 800\<rparr>) zero_kernel) = None"
proof -
  have "flag_set (0x60 :: u64) 0x20" "flag_set (0x60 :: u64) 0x40" by (simp_all add: flag_set_def)
  then show ?thesis
    using uclamp_request_honoured [OF v5_17_uclamp.uclamp_conf_axioms v5_17_attr.attr_h_axioms,
        of "zero_attr\<lparr>sa_flags := 0x60, sa_util_min := 200, sa_util_max := 800\<rparr>" zero_task zero_kernel]
    by (simp add: v5_17_attr.attr_h_simps SCHED_CAPACITY_SCALE_def)
qed

text \<open>
  C7.  The range check of \<^verbatim>\<open>uclamp_validate\<close> is signed, so a negative request other than the reset value
  \<open>-1\<close> passes it.  With \<^verbatim>\<open>sched_util_min\<close> set to \<open>-2048\<close> the task then carries the clamp value zero in the
  topmost bucket, against the rule that the bucket of a clamp is the bucket of its value.
\<close>

theorem uclamp_negative_request_accepted:
  assumes "uclamp_conf e" and "attr_h e" and "sa_flags attr = SCHED_FLAG_UTIL_CLAMP_MIN e"
    and "sa_util_min attr = - 2048" and "uc_ok e (t_uclamp_req p UCLAMP_MAX)"
  shows "fst (uclamp_validate e p attr k) = None \<and>
    uc_value (t_uclamp_req (k__setscheduler_uclamp e k p attr) UCLAMP_MIN) = 0 \<and>
    uc_bucket_id (t_uclamp_req (k__setscheduler_uclamp e k p attr) UCLAMP_MIN) = UCLAMP_BUCKETS e - 1 \<and>
    \<not> uc_ok e (t_uclamp_req (k__setscheduler_uclamp e k p attr) UCLAMP_MIN)"
proof -
  have fl: "flag_set (SCHED_FLAG_UTIL_CLAMP_MIN e) (SCHED_FLAG_UTIL_CLAMP_MIN e)"
    "\<not> flag_set (SCHED_FLAG_UTIL_CLAMP_MIN e) (SCHED_FLAG_UTIL_CLAMP_MAX e)"
    "flag_set (SCHED_FLAG_UTIL_CLAMP_MIN e) (SCHED_FLAG_UTIL_CLAMP e)"
    using assms(2) by (simp_all add: attr_h.attr_h_simps flag_set_def)
  have max: "sint (of_nat (uc_value (t_uclamp_req p UCLAMP_MAX)) :: u32) \<ge> 0"
    using assms(5) by (subst sint_unat) (auto simp: unat_of_nat uc_ok_def SCHED_CAPACITY_SCALE_def)
  have "fst (uclamp_validate e p attr k) = None"
    using fl max assms(3,4) by (simp add: uclamp_validate_def Let_def SCHED_CAPACITY_SCALE_def)
  moreover have st: "uclamp_se_set e s (unat (- 2048 :: u32)) True =
      s\<lparr>uc_value := 0, uc_bucket_id := UCLAMP_BUCKETS e - 1, uc_user_defined := True\<rparr>" for s
    using uclamp_conf.take_bit_bucket [OF assms(1), of 4294965248] uclamp_conf.bits_per_scale [OF assms(1)]
      uclamp_conf.top_bucket_id [OF assms(1), of 4294965248]
    by (simp add: uclamp_se_set_def take_bit_eq_mod)
  moreover have "uclamp_bucket_id e 0 \<noteq> UCLAMP_BUCKETS e - 1"
    using uclamp_conf.buckets_min [OF assms(1)] by (simp add: uclamp_bucket_id_def)
  moreover obtain s where
    "t_uclamp_req (k__setscheduler_uclamp e k p attr) UCLAMP_MIN = uclamp_se_set e s (unat (- 2048 :: u32)) True"
    using setscheduler_uclamp_min [of attr e k p] fl assms(3,4) by auto
  ultimately show ?thesis by (simp add: uc_ok_def)
qed

theorem uclamp_negative_request_accepted_witness:
  "let attr = zero_attr\<lparr>sa_flags := 0x20, sa_util_min := - 2048\<rparr>;
       p = zero_task\<lparr>t_uclamp_req := (\<lambda>_. \<lparr>uc_value = 512, uc_bucket_id = 2, uc_active = False, uc_user_defined = True\<rparr>)\<rparr>
   in fst (uclamp_validate kenv_v5_17 p attr zero_kernel) = None \<and>
      uc_bucket_id (t_uclamp_req (k__setscheduler_uclamp kenv_v5_17 zero_kernel p attr) UCLAMP_MIN) = 4"
proof -
  have "UCLAMP_BUCKETS kenv_v5_17 = 5" by (simp add: kenv_v5_17_def)
  then show ?thesis
    using uclamp_negative_request_accepted [OF v5_17_uclamp.uclamp_conf_axioms v5_17_attr.attr_h_axioms,
        of "zero_attr\<lparr>sa_flags := 0x20, sa_util_min := - 2048\<rparr>"
          "zero_task\<lparr>t_uclamp_req := (\<lambda>_. \<lparr>uc_value = 512, uc_bucket_id = 2, uc_active = False, uc_user_defined = True\<rparr>)\<rparr>"
          zero_kernel]
    by (simp add: v5_17_attr.attr_h_simps uc_ok_def sample_bucket_ids SCHED_CAPACITY_SCALE_def Let_def)
qed



text \<open>
   A forked task starts uncounted: dequeuing it before it was ever enqueued leaves the run queue
  and the task unchanged.
\<close>

theorem uclamp_fork_uncounted:
  "uclamp_rq_dec e k rq (uclamp_fork e p) = (rq, uclamp_fork e p)"
  by (simp add: uclamp_rq_dec_def uclamp_fork_def fold_clamp_ids uclamp_rq_dec_id_def set_uclamp_req_def Let_def
      uclamp_se_set_def)


end
