(* ===== verification/Prio.thy ===== *)
theory Prio
  imports Sched_Types
begin

text \<open>
  Task priorities of \<^verbatim>\<open>Project 2/core.c\<close>: the tables of load weights, the mapping from policy, real-time
  priority and nice value to the kernel's priority scale, the choice of the scheduling class, and the
  order on tasks that core scheduling uses.
\<close>

subsection \<open>Load weights\<close>

definition sched_prio_to_weight :: "nat list" where
  "sched_prio_to_weight =
    [88761, 71755, 56483, 46273, 36291,
     29154, 23254, 18705, 14949, 11916,
     9548, 7620, 6100, 4904, 3906,
     3121, 2501, 1991, 1586, 1277,
     1024, 820, 655, 526, 423,
     335, 272, 215, 172, 137,
     110, 87, 70, 56, 45,
     36, 29, 23, 18, 15]"

definition sched_prio_to_wmult :: "nat list" where
  "sched_prio_to_wmult =
    [48388, 59856, 76040, 92818, 118348,
     147320, 184698, 229616, 287308, 360437,
     449829, 563644, 704093, 875809, 1099582,
     1376151, 1717300, 2157191, 2708050, 3363326,
     4194304, 5237765, 6557202, 8165337, 10153587,
     12820798, 15790321, 19976592, 24970740, 31350126,
     39045157, 49367440, 61356676, 76695844, 95443717,
     119304647, 148102320, 186737708, 238609294, 286331153]"

text \<open>A read of one of the tables; outside its bounds C gives no value, so the environment supplies one.\<close>

definition table_read :: "kenv \<Rightarrow> nat list \<Rightarrow> int \<Rightarrow> nat" where
  "table_read e t i = (if 0 \<le> i \<and> i < int (length t) then t ! nat i else oob_read e i)"

definition prio_load :: "kenv \<Rightarrow> int \<Rightarrow> load_weight" where
  "prio_load e prio = \<lparr>lw_weight = scale_load e (table_read e sched_prio_to_weight prio),
     lw_inv_weight = table_read e sched_prio_to_wmult prio\<rparr>"

text \<open>
  \<^verbatim>\<open>set_load_weight\<close>.  The reweighting of a queued fair task, \<^verbatim>\<open>reweight_task\<close>, belongs to the fair class and
  is the argument \<open>reweight\<close>.
\<close>

definition set_load_weight ::
  "kenv \<Rightarrow> (int \<Rightarrow> task_struct \<Rightarrow> task_struct) \<Rightarrow> bool \<Rightarrow> task_struct \<Rightarrow> task_struct" where
  "set_load_weight e reweight update_load p =
     (let prio = t_static_prio p - MAX_RT_PRIO e
      in if idle_policy e (t_policy p)
         then p\<lparr>t_se := (t_se p)\<lparr>se_load := \<lparr>lw_weight = scale_load e (WEIGHT_IDLEPRIO e),
                  lw_inv_weight = WMULT_IDLEPRIO e\<rparr>\<rparr>\<rparr>
         else if update_load \<and> t_sched_class p = fair_sched_class then reweight prio p
         else p\<lparr>t_se := (t_se p)\<lparr>se_load := prio_load e prio\<rparr>\<rparr>)"

subsection \<open>Priorities\<close>

definition k__normal_prio :: "kenv \<Rightarrow> int \<Rightarrow> int \<Rightarrow> int \<Rightarrow> int" where
  "k__normal_prio e policy rtp nice =
     (if dl_policy e policy then MAX_DL_PRIO e - 1
      else if rt_policy e policy then MAX_RT_PRIO e - 1 - rtp
      else NICE_TO_PRIO e nice)"

definition normal_prio :: "kenv \<Rightarrow> task_struct \<Rightarrow> int" where
  "normal_prio e p = k__normal_prio e (t_policy p) (int (t_rt_priority p)) (PRIO_TO_NICE e (t_static_prio p))"

definition effective_prio :: "kenv \<Rightarrow> task_struct \<Rightarrow> int \<times> task_struct" where
  "effective_prio e p =
     (let p = p\<lparr>t_normal_prio := normal_prio e p\<rparr>
      in (if \<not> rt_prio e (t_prio p) then t_normal_prio p else t_prio p, p))"

definition task_nice :: "kenv \<Rightarrow> task_struct \<Rightarrow> int" where
  "task_nice e p = PRIO_TO_NICE e (t_static_prio p)"

definition task_prio :: "kenv \<Rightarrow> task_struct \<Rightarrow> int" where
  "task_prio e p = t_prio p - MAX_RT_PRIO e"

definition k__setscheduler_prio :: "kenv \<Rightarrow> int \<Rightarrow> task_struct \<Rightarrow> task_struct" where
  "k__setscheduler_prio e prio p =
     p\<lparr>t_sched_class := (if dl_prio e prio then dl_sched_class
                        else if rt_prio e prio then rt_sched_class else fair_sched_class),
       t_prio := prio\<rparr>"

definition k__rt_effective_prio :: "task_struct option \<Rightarrow> int \<Rightarrow> int" where
  "k__rt_effective_prio pi_task prio = (case pi_task of Some q \<Rightarrow> min prio (t_prio q) | None \<Rightarrow> prio)"

subsection \<open>The order of core scheduling\<close>

definition k__task_prio :: "kenv \<Rightarrow> task_struct \<Rightarrow> int" where
  "k__task_prio e p =
     (if t_sched_class p = stop_sched_class then -2
      else if rt_prio e (t_prio p) then t_prio p
      else if t_sched_class p = idle_sched_class then MAX_RT_PRIO e + NICE_WIDTH e
      else MAX_RT_PRIO e + MAX_NICE e)"

text \<open>\<^verbatim>\<open>dl_time_before\<close> of \<^verbatim>\<open>linux/sched/deadline.h\<close> compares wrapping time stamps.\<close>

definition dl_time_before :: "u64 \<Rightarrow> u64 \<Rightarrow> bool" where
  "dl_time_before a b \<longleftrightarrow> sint (a - b) < 0"

text \<open>\<open>cfs_less\<close> is \<^verbatim>\<open>cfs_prio_less\<close> of the fair class at the value of \<^verbatim>\<open>in_fi\<close>.\<close>

definition prio_less ::
  "kenv \<Rightarrow> (task_struct \<Rightarrow> task_struct \<Rightarrow> bool) \<Rightarrow> task_struct \<Rightarrow> task_struct \<Rightarrow> bool" where
  "prio_less e cfs_less a b =
     (let pa = k__task_prio e a; pb = k__task_prio e b
      in if - pa < - pb then True
         else if - pb < - pa then False
         else if pa = -1 then \<not> dl_time_before (dl_deadline (t_dl a)) (dl_deadline (t_dl b))
         else if pa = MAX_RT_PRIO e + MAX_NICE e then cfs_less a b
         else False)"

definition k__sched_core_less ::
  "kenv \<Rightarrow> (task_struct \<Rightarrow> task_struct \<Rightarrow> bool) \<Rightarrow> task_struct \<Rightarrow> task_struct \<Rightarrow> bool" where
  "k__sched_core_less e cfs_less a b =
     (if t_core_cookie a < t_core_cookie b then True
      else if t_core_cookie a > t_core_cookie b then False
      else prio_less e cfs_less b a)"

subsection \<open>Well-formed priorities\<close>

text \<open>
  The static priority lies in the fair range, so that it indexes the weight tables; the class is the one of
  the priority; without inheritance the priority is the normal one, with inheritance it is higher.
\<close>

definition prio_wf :: "kenv \<Rightarrow> task_struct \<Rightarrow> bool" where
  "prio_wf e p \<longleftrightarrow> 100 \<le> t_static_prio p \<and> t_static_prio p < 140 \<and>
     valid_policy e (t_policy p) \<and> (if rt_policy e (t_policy p) then 0 < t_rt_priority p \<and> t_rt_priority p \<le> 99
       else t_rt_priority p = 0) \<and>
     t_normal_prio p = normal_prio e p \<and> -1 \<le> t_prio p \<and> t_prio p \<le> t_normal_prio p \<and>
     t_sched_class p = (if dl_prio e (t_prio p) then dl_sched_class
       else if rt_prio e (t_prio p) then rt_sched_class else fair_sched_class)"

lemma table_lengths [simp]: "length sched_prio_to_weight = 40" "length sched_prio_to_wmult = 40"
  by (simp_all add: sched_prio_to_weight_def sched_prio_to_wmult_def)

text \<open>
  The weight tables are what their comments say: one nice level changes the weight by a factor between
  1.2 and 1.28 (about 1.25), and every entry of the inverse table is less than one away from \<open>2\<^sup>3\<^sup>2\<close> divided by
  the weight.
\<close>

theorem weight_tables:
  "list_all (\<lambda>i. 120 * sched_prio_to_weight ! Suc i \<le> 100 * sched_prio_to_weight ! i \<and>
     100 * sched_prio_to_weight ! i \<le> 128 * sched_prio_to_weight ! Suc i) [0..<39] \<and>
   list_all (\<lambda>i. (sched_prio_to_wmult ! i - 1) * sched_prio_to_weight ! i < 2 ^ 32 \<and>
     2 ^ 32 < (sched_prio_to_wmult ! i + 1) * sched_prio_to_weight ! i) [0..<40]"
  by (simp add: upt_rec sched_prio_to_weight_def sched_prio_to_wmult_def)

text \<open>The range of the priority for each policy; \<open>prio_wf\<close> bounds the boosted priority from above only.\<close>

lemma normal_prio_range:
  assumes "prio_h e" and "policy_h e" and "prio_wf e p"
  shows "if dl_policy e (t_policy p) then t_normal_prio p = -1
    else if rt_policy e (t_policy p) then t_normal_prio p = 99 - int (t_rt_priority p) \<and>
      0 \<le> t_normal_prio p \<and> t_normal_prio p \<le> 98
    else t_normal_prio p = t_static_prio p \<and> 100 \<le> t_normal_prio p \<and> t_normal_prio p < 140"
  using assms(3)
  by (auto simp: prio_wf_def normal_prio_def k__normal_prio_def prio_h.prio_h_simps [OF assms(1)] split: if_splits)

text \<open>
  What \<^verbatim>\<open>task_prio\<close> reports, as its table documents it: for a task that no other task boosts, 0 to 39 for
  the normal, batch and idle policies, where it is the nice value plus 20, -100 to -2 for the real-time
  policies and -101 for a deadline task.
\<close>

theorem task_prio_documented:
  assumes "prio_h e" and "policy_h e" and "prio_wf e p" and "t_prio p = t_normal_prio p"
  shows "if dl_policy e (t_policy p) then task_prio e p = -101
    else if rt_policy e (t_policy p) then task_prio e p = -1 - int (t_rt_priority p) \<and> task_prio e p \<in> {-100..-2}
    else task_prio e p = task_nice e p + 20 \<and> task_prio e p \<in> {0..39}"
  using normal_prio_range [OF assms(1-3)] assms
  by (simp add: task_prio_def task_nice_def prio_h.prio_h_simps [OF assms(1)] split: if_splits)

definition sample_fair :: task_struct where
  "sample_fair = zero_task\<lparr>t_static_prio := 120, t_normal_prio := 120, t_prio := 120\<rparr>"

definition sample_rt :: task_struct where
  "sample_rt = zero_task\<lparr>t_static_prio := 120, t_rt_priority := 50, t_policy := 1, t_normal_prio := 49, t_prio := 49,
     t_sched_class := rt_sched_class\<rparr>"

lemma sample_prio_wf: "prio_wf kenv_v5_17 sample_fair" "prio_wf kenv_v5_17 sample_rt"
  by (simp_all add: prio_wf_def sample_fair_def sample_rt_def zero_task_def normal_prio_def k__normal_prio_def
      v5_17_prio.prio_h_simps v5_17_policy.policy_h_simps)

theorem task_prio_documented_witness:
  "task_prio kenv_v5_17 sample_rt = -51 \<and> task_prio kenv_v5_17 sample_fair = 20"
  using task_prio_documented [OF v5_17_prio.prio_h_axioms v5_17_policy.policy_h_axioms sample_prio_wf(2)]
    task_prio_documented [OF v5_17_prio.prio_h_axioms v5_17_policy.policy_h_axioms sample_prio_wf(1)]
  by (simp add: sample_rt_def sample_fair_def zero_task_def task_nice_def v5_17_policy.policy_h_simps
      v5_17_prio.prio_h_simps)

text \<open>The priorities a task of each class has.\<close>

definition class_prio :: "task_struct \<Rightarrow> bool" where
  "class_prio p \<longleftrightarrow> (case t_sched_class p of
      stop_sched_class \<Rightarrow> True
    | dl_sched_class \<Rightarrow> t_prio p = -1
    | rt_sched_class \<Rightarrow> 0 \<le> t_prio p \<and> t_prio p < 100
    | fair_sched_class \<Rightarrow> 100 \<le> t_prio p
    | idle_sched_class \<Rightarrow> 100 \<le> t_prio p)"

lemma prio_wf_class: "prio_h e \<Longrightarrow> prio_wf e p \<Longrightarrow> class_prio p"
  by (auto simp: prio_wf_def class_prio_def prio_h.prio_h_simps split: sched_class.splits)

text \<open>
  The order of core scheduling refines the order of the scheduling classes: a task of a lower class is
  less than a task of a higher class and not the other way round, whatever the fair class decides between
  its own tasks.
\<close>

theorem prio_less_class:
  assumes "prio_h e" and "class_prio a" and "class_prio b" and "t_sched_class a < t_sched_class b"
  shows "prio_less e cfs_less a b \<and> \<not> prio_less e cfs_less b a"
  using assms(2-)
  by (cases "t_sched_class a"; cases "t_sched_class b")
    (auto simp: prio_less_def k__task_prio_def class_prio_def prio_h.prio_h_simps [OF assms(1)] less_sched_class_def)

theorem prio_less_class_witness:
  "prio_less kenv_v5_17 (\<lambda>_ _. False) sample_fair sample_rt"
  using prio_less_class [OF v5_17_prio.prio_h_axioms, of sample_fair sample_rt]
  by (simp add: class_prio_def sample_fair_def sample_rt_def zero_task_def less_sched_class_def)

text \<open>
  Between deadline tasks \<^verbatim>\<open>prio_less\<close> is not a strict order: two tasks with the same deadline are each less
  than the other, although the comment above it derives \<open>le(a,b)\<close> from \<open>l(b,a)\<close>.  In every other class a task is
  less than itself only if the fair class says so.
\<close>

theorem prio_less_dl_reflexive:
  assumes "prio_h e" and "class_prio a"
  shows "prio_less e cfs_less a a \<longleftrightarrow>
    t_sched_class a = dl_sched_class \<or> t_sched_class a = fair_sched_class \<and> cfs_less a a"
  using assms(2)
  by (cases "t_sched_class a")
    (auto simp: prio_less_def k__task_prio_def class_prio_def prio_h.prio_h_simps [OF assms(1)] dl_time_before_def)

theorem prio_less_dl_reflexive_witness:
  "let a = zero_task\<lparr>t_prio := -1, t_sched_class := dl_sched_class\<rparr> in prio_less kenv_v5_17 (\<lambda>_ _. False) a a"
  using prio_less_dl_reflexive [OF v5_17_prio.prio_h_axioms,
      of "zero_task\<lparr>t_prio := -1, t_sched_class := dl_sched_class\<rparr>" "\<lambda>_ _. False"]
  by (simp add: class_prio_def Let_def)

end
