(* ===== verification/Sched_Ops.thy ===== *)
theory Sched_Ops
  imports Uclamp_Accounting Prio
begin

text \<open>
  The operations on run queues that the rest of \<^verbatim>\<open>Project 2/core.c\<close> is built from: the run queue clock,
  requests to reschedule, the tree of core scheduling, and putting tasks on and off the run queue.  The
  callbacks of the scheduling classes and the clocks are not part of the repository: they are the fields of
  \<open>kops\<close>.  Statistics (\<^verbatim>\<open>sched_info\<close>, \<^verbatim>\<open>psi\<close>, load averages) and tracing are left out.
\<close>

subsection \<open>Operations outside the repository\<close>

datatype fair_pick = RETRY_TASK | No_task | Picked tid

record kops =
  op_enqueue_task :: "sched_class \<Rightarrow> cpu \<Rightarrow> tid \<Rightarrow> u32 \<Rightarrow> kernel \<Rightarrow> kernel"
  op_dequeue_task :: "sched_class \<Rightarrow> cpu \<Rightarrow> tid \<Rightarrow> u32 \<Rightarrow> kernel \<Rightarrow> kernel"
  op_check_preempt_curr :: "sched_class \<Rightarrow> cpu \<Rightarrow> tid \<Rightarrow> u32 \<Rightarrow> kernel \<Rightarrow> kernel"
  op_put_prev_task :: "sched_class \<Rightarrow> cpu \<Rightarrow> tid \<Rightarrow> kernel \<Rightarrow> kernel"
  op_set_next_task :: "sched_class \<Rightarrow> cpu \<Rightarrow> tid \<Rightarrow> bool \<Rightarrow> kernel \<Rightarrow> kernel"
  op_pick_next_task :: "sched_class \<Rightarrow> cpu \<Rightarrow> kernel \<Rightarrow> tid option \<times> kernel"
  op_pick_task :: "sched_class \<Rightarrow> cpu \<Rightarrow> kernel \<Rightarrow> tid option \<times> kernel"
  op_balance :: "sched_class \<Rightarrow> cpu \<Rightarrow> tid \<Rightarrow> kernel \<Rightarrow> bool \<times> kernel"
  op_switched_from :: "sched_class \<Rightarrow> (cpu \<Rightarrow> tid \<Rightarrow> kernel \<Rightarrow> kernel) option"
  op_switched_to :: "sched_class \<Rightarrow> cpu \<Rightarrow> tid \<Rightarrow> kernel \<Rightarrow> kernel"
  op_prio_changed :: "sched_class \<Rightarrow> cpu \<Rightarrow> tid \<Rightarrow> int \<Rightarrow> kernel \<Rightarrow> kernel"
  op_task_woken :: "sched_class \<Rightarrow> (cpu \<Rightarrow> tid \<Rightarrow> kernel \<Rightarrow> kernel) option"
  op_task_tick :: "sched_class \<Rightarrow> cpu \<Rightarrow> tid \<Rightarrow> bool \<Rightarrow> kernel \<Rightarrow> kernel"
  op_select_task_rq :: "sched_class \<Rightarrow> tid \<Rightarrow> cpu \<Rightarrow> u32 \<Rightarrow> kernel \<Rightarrow> cpu"
  op_migrate_task_rq :: "sched_class \<Rightarrow> (tid \<Rightarrow> cpu \<Rightarrow> kernel \<Rightarrow> kernel) option"
  op_yield_task :: "sched_class \<Rightarrow> cpu \<Rightarrow> kernel \<Rightarrow> kernel"
  op_yield_to_task :: "sched_class \<Rightarrow> (cpu \<Rightarrow> tid \<Rightarrow> kernel \<Rightarrow> bool \<times> kernel) option"
  op_task_fork :: "sched_class \<Rightarrow> (tid \<Rightarrow> kernel \<Rightarrow> kernel) option"
  reweight_task :: "int \<Rightarrow> task_struct \<Rightarrow> task_struct"
  cfs_prio_less :: "bool \<Rightarrow> task_struct \<Rightarrow> task_struct \<Rightarrow> bool"
  \<comment> \<open>red-black trees, seen as the list of their nodes from left to right\<close>
  rb_add :: "(tid \<Rightarrow> tid \<Rightarrow> bool) \<Rightarrow> tid \<Rightarrow> tid list \<Rightarrow> tid list"
  rb_erase :: "tid \<Rightarrow> tid list \<Rightarrow> tid list"
  rb_find_first :: "(tid \<Rightarrow> int) \<Rightarrow> tid list \<Rightarrow> tid option"
  rb_next :: "tid \<Rightarrow> tid list \<Rightarrow> tid option"
  \<comment> \<open>clocks\<close>
  sched_clock_cpu :: "cpu \<Rightarrow> kernel \<Rightarrow> u64"
  irq_time_read :: "cpu \<Rightarrow> kernel \<Rightarrow> u64"
  paravirt_steal_rq_enabled :: bool
  paravirt_steal_clock :: "cpu \<Rightarrow> kernel \<Rightarrow> u64"
  cpu_smt_mask :: "cpu \<Rightarrow> cpu list"
  \<comment> \<open>\<^verbatim>\<open>pick_next_task_fair\<close>, \<^verbatim>\<open>pick_next_task_idle\<close> and the core scheduling part of the fair class\<close>
  pick_next_task_fair :: "cpu \<Rightarrow> tid \<Rightarrow> kernel \<Rightarrow> fair_pick \<times> kernel"
  pick_next_task_idle :: "cpu \<Rightarrow> kernel \<Rightarrow> tid \<times> kernel"
  task_vruntime_update :: "cpu \<Rightarrow> tid \<Rightarrow> bool \<Rightarrow> kernel \<Rightarrow> kernel"
  sched_core_account_forceidle :: "cpu \<Rightarrow> kernel \<Rightarrow> kernel"
  schedstat_enabled :: bool
  \<comment> \<open>balance callbacks: queueing \<^verbatim>\<open>sched_core_balance\<close>, and running those that are queued\<close>
  queue_balance_callback :: "cpu \<Rightarrow> kernel \<Rightarrow> kernel"
  k__balance_callbacks :: "cpu \<Rightarrow> kernel \<Rightarrow> kernel"
  signal_pending_state :: "u32 \<Rightarrow> tid \<Rightarrow> kernel \<Rightarrow> bool"
  \<comment> \<open>the end of a task\<close>
  op_task_dead :: "sched_class \<Rightarrow> (tid \<Rightarrow> kernel \<Rightarrow> kernel) option"
  put_dead_task :: "tid \<Rightarrow> kernel \<Rightarrow> kernel" \<comment> \<open>\<^verbatim>\<open>put_task_stack\<close> and \<^verbatim>\<open>put_task_struct_rcu_user\<close>\<close>
  \<comment> \<open>affinity\<close>
  op_set_cpus_allowed :: "sched_class \<Rightarrow> tid \<Rightarrow> cpus_ptr \<Rightarrow> u32 \<Rightarrow> kernel \<Rightarrow> kernel"
  op_find_lock_rq :: "sched_class \<Rightarrow> (tid \<Rightarrow> cpu \<Rightarrow> kernel \<Rightarrow> cpu option) option"
  task_cpu_possible_mask :: "tid \<Rightarrow> cpu set"
  kthread_is_per_cpu :: "tid \<Rightarrow> bool"
  cpu_dying :: "cpu \<Rightarrow> bool"
  flush_smp_call_function_from_idle :: "kernel \<Rightarrow> kernel"
  wait_for_completion :: "nat \<Rightarrow> kernel \<Rightarrow> kernel" \<comment> \<open>the state when the completion of a pending request is signalled\<close>
  cpuset_cpus_allowed :: "tid \<Rightarrow> kernel \<Rightarrow> cpu set"
  cpuset_cpus_allowed_fallback :: "tid \<Rightarrow> kernel \<Rightarrow> bool \<times> kernel"
  cpu_to_node :: "cpu \<Rightarrow> nat option"
  cpumask_of_node :: "nat \<Rightarrow> cpu list"
  sd_llc_id :: "cpu \<Rightarrow> nat"
  sched_feat_TTWU_QUEUE :: bool
  cpumask_any_and_distribute :: "cpu set \<Rightarrow> cpu set \<Rightarrow> cpu option" \<comment> \<open>\<open>None\<close>: not below \<^verbatim>\<open>nr_cpu_ids\<close>\<close>
  \<comment> \<open>work queues and block layer, called around a switch\<close>
  wq_worker_sleeping :: "tid \<Rightarrow> kernel \<Rightarrow> kernel"
  io_wq_worker_sleeping :: "tid \<Rightarrow> kernel \<Rightarrow> kernel"
  wq_worker_running :: "tid \<Rightarrow> kernel \<Rightarrow> kernel"
  io_wq_worker_running :: "tid \<Rightarrow> kernel \<Rightarrow> kernel"
  tsk_is_pi_blocked :: "tid \<Rightarrow> kernel \<Rightarrow> bool"
  blk_needs_flush_plug :: "tid \<Rightarrow> kernel \<Rightarrow> bool"
  blk_flush_plug :: "tid \<Rightarrow> kernel \<Rightarrow> kernel" \<comment> \<open>of the plug of a task, if it has one\<close>
  preemptible :: "kernel \<Rightarrow> bool"
  get_rr_interval :: "sched_class \<Rightarrow> (cpu \<Rightarrow> tid \<Rightarrow> kernel \<Rightarrow> nat) option"
  \<comment> \<open>wakeups\<close>
  update_avg :: "u64 \<Rightarrow> u64 \<Rightarrow> u64" \<comment> \<open>a running average with a new sample\<close>
  jiffies :: "kernel \<Rightarrow> u64"
  smp_call_single_queue :: "cpu \<Rightarrow> tid \<Rightarrow> kernel \<Rightarrow> kernel" \<comment> \<open>\<^verbatim>\<open>__smp_call_single_queue\<close> with the wake entry of a task\<close>
  arch_send_call_function_single_ipi :: "cpu \<Rightarrow> kernel \<Rightarrow> kernel"
  wait_off_cpu :: "tid \<Rightarrow> kernel \<Rightarrow> kernel" \<comment> \<open>the state when \<^verbatim>\<open>on_cpu\<close> of the task has been cleared\<close>
  sched_rr_timeslice :: nat
  clear_dl_params :: "task_struct \<Rightarrow> task_struct" \<comment> \<open>\<^verbatim>\<open>__dl_clear_params\<close>\<close>
  \<comment> \<open>the earlier of two deadline entities\<close>
  dl_entity_preempt :: "sched_dl_entity \<Rightarrow> sched_dl_entity \<Rightarrow> bool"

text \<open>
  What the callbacks of the scheduling classes leave alone: they change the class's own entities in the
  tasks (except for the load weight), the counters and clock of run queues, and requests to reschedule.
\<close>

definition task_core :: "task_struct \<Rightarrow> task_struct" where
  "task_core t = t\<lparr>t_se := (t_se zero_task)\<lparr>se_load := se_load (t_se t)\<rparr>, t_rt := t_rt zero_task, t_dl := t_dl zero_task, t_need_resched := False\<rparr>"

definition rq_core_state ::
  "rq \<Rightarrow> (uclamp_id \<Rightarrow> uclamp_rq) \<times> bool \<times> tid \<times> tid \<times> tid list \<times> cpu \<times> bool \<times> nat \<times> nat option" where
  "rq_core_state rq = (rq_uclamp rq, rq_uclamp_idle rq, rq_curr rq, rq_idle rq, rq_core_tree rq, rq_core rq,
     rq_core_enabled rq, rq_core_forceidle_count rq, rq_prev_mm rq)"

definition kernel_core :: "kernel \<Rightarrow> kernel" where
  "kernel_core k = k\<lparr>tasks := (\<lambda>p. task_core (tasks k p)), rqs := (\<lambda>_. zero_rq), resched_ipis := [],
     preempt_need_resched := False\<rparr>"

text \<open>The parts of the state that no operation on run queues touches.\<close>

definition kfix :: "kernel \<Rightarrow> (nat \<Rightarrow> affinity_pending) \<times> (cpu \<times> stop_work) list \<times> (nat \<Rightarrow> int) \<times> cpu set \<times> cpu set \<times> cpu list" where
  "kfix k = (pendings k, stop_works k, mm_count k, cpu_online_mask k, cpu_active_mask k, possible_cpus k)"

definition sched_frame :: "kernel \<Rightarrow> kernel \<Rightarrow> bool" where
  "sched_frame k k' \<longleftrightarrow> kernel_core k' = kernel_core k \<and>
     (\<forall>c. rq_core_state (rqs k' c) = rq_core_state (rqs k c))"

subsection \<open>Requests to reschedule\<close>

definition set_nr_and_not_polling :: "tid \<Rightarrow> kernel \<Rightarrow> bool \<times> kernel" where
  "set_nr_and_not_polling p k = (\<not> t_polling (tasks k p), upd_task p (\<lambda>t. t\<lparr>t_need_resched := True\<rparr>) k)"

definition set_nr_if_polling :: "tid \<Rightarrow> kernel \<Rightarrow> bool \<times> kernel" where
  "set_nr_if_polling p k =
     (if \<not> t_polling (tasks k p) then (False, k)
      else if t_need_resched (tasks k p) then (True, k)
      else (True, upd_task p (\<lambda>t. t\<lparr>t_need_resched := True\<rparr>) k))"

definition smp_send_reschedule :: "cpu \<Rightarrow> kernel \<Rightarrow> kernel" where
  "smp_send_reschedule c k = k\<lparr>resched_ipis := c # resched_ipis k\<rparr>"

definition resched_curr :: "cpu \<Rightarrow> kernel \<Rightarrow> kernel" where
  "resched_curr c k =
     (let curr = rq_curr (rqs k c)
      in if t_need_resched (tasks k curr) then k
         else if c = this_cpu k
         then (upd_task curr (\<lambda>t. t\<lparr>t_need_resched := True\<rparr>) k)\<lparr>preempt_need_resched := True\<rparr>
         else let (not_polling, k) = set_nr_and_not_polling curr k
              in if not_polling then smp_send_reschedule c k else k)"

definition resched_cpu :: "cpu \<Rightarrow> kernel \<Rightarrow> kernel" where
  "resched_cpu c k = (if c \<in> cpu_online_mask k \<or> c = this_cpu k then resched_curr c k else k)"

definition wake_up_idle_cpu :: "cpu \<Rightarrow> kernel \<Rightarrow> kernel" where
  "wake_up_idle_cpu c k =
     (if c = this_cpu k then k
      else let (not_polling, k) = set_nr_and_not_polling (rq_idle (rqs k c)) k
           in if not_polling then smp_send_reschedule c k else k)"

subsection \<open>The run queue clock\<close>

text \<open>
  Time differences are signed 64 bit numbers, kept as their bit patterns and compared with \<open>sint\<close>.
\<close>

definition update_rq_clock_task :: "kops \<Rightarrow> cpu \<Rightarrow> u64 \<Rightarrow> kernel \<Rightarrow> kernel" where
  "update_rq_clock_task x c delta k =
     (let rq = rqs k c;
          irq_delta = irq_time_read x c k - rq_prev_irq_time rq;
          irq_delta = (if sint irq_delta > sint delta then delta else irq_delta);
          rq = rq\<lparr>rq_prev_irq_time := rq_prev_irq_time rq + irq_delta\<rparr>;
          delta = delta - irq_delta;
          (rq, delta) =
            (if paravirt_steal_rq_enabled x
             then let steal = paravirt_steal_clock x c k - rq_prev_steal_time_rq rq;
                      steal = (if sint steal > sint delta then delta else steal)
                  in (rq\<lparr>rq_prev_steal_time_rq := rq_prev_steal_time_rq rq + steal\<rparr>, delta - steal)
             else (rq, delta))
      in upd_rq c (\<lambda>_. rq\<lparr>rq_clock_task := rq_clock_task rq + delta\<rparr>) k)"

definition update_rq_clock :: "kenv \<Rightarrow> kops \<Rightarrow> cpu \<Rightarrow> kernel \<Rightarrow> kernel" where
  "update_rq_clock e x c k =
     (if flag_set (rq_clock_update_flags (rqs k c)) (RQCF_ACT_SKIP e) then k
      else
        let k = upd_rq c (\<lambda>rq. rq\<lparr>rq_clock_update_flags := rq_clock_update_flags rq OR RQCF_UPDATED e\<rparr>) k;
            delta = sched_clock_cpu x c k - rq_clock (rqs k c)
        in if sint delta < 0 then k
           else update_rq_clock_task x c delta (upd_rq c (\<lambda>rq. rq\<lparr>rq_clock := rq_clock rq + delta\<rparr>) k))"

subsection \<open>The tree of core scheduling\<close>

definition sched_core_enabled :: "kernel \<Rightarrow> cpu \<Rightarrow> bool" where
  "sched_core_enabled k c \<longleftrightarrow> k__sched_core_enabled k \<and> rq_core_enabled (rqs k c)"

definition rb_sched_core_less :: "kenv \<Rightarrow> kops \<Rightarrow> kernel \<Rightarrow> tid \<Rightarrow> tid \<Rightarrow> bool" where
  "rb_sched_core_less e x k a b =
     k__sched_core_less e (cfs_prio_less x (rq_core_forceidle_count (rqs k (rq_core (rqs k (task_rq k a)))) \<noteq> 0))
       (tasks k a) (tasks k b)"

definition rb_sched_core_cmp :: "kernel \<Rightarrow> nat \<Rightarrow> tid \<Rightarrow> int" where
  "rb_sched_core_cmp k cookie p =
     (if cookie < t_core_cookie (tasks k p) then -1 else if cookie > t_core_cookie (tasks k p) then 1 else 0)"

definition core_task_seq_inc :: "cpu \<Rightarrow> kernel \<Rightarrow> kernel" where
  "core_task_seq_inc c k = upd_rq (rq_core (rqs k c)) (\<lambda>rq. rq\<lparr>rq_core_task_seq := rq_core_task_seq rq + 1\<rparr>) k"

definition sched_core_enqueue :: "kenv \<Rightarrow> kops \<Rightarrow> cpu \<Rightarrow> tid \<Rightarrow> kernel \<Rightarrow> kernel" where
  "sched_core_enqueue e x c p k =
     (let k = core_task_seq_inc c k
      in if t_core_cookie (tasks k p) = 0 then k
         else upd_rq c (\<lambda>rq. rq\<lparr>rq_core_tree := rb_add x (rb_sched_core_less e x k) p (rq_core_tree rq)\<rparr>) k)"

definition sched_core_dequeue :: "kenv \<Rightarrow> kops \<Rightarrow> cpu \<Rightarrow> tid \<Rightarrow> u32 \<Rightarrow> kernel \<Rightarrow> kernel" where
  "sched_core_dequeue e x c p flags k =
     (let k = core_task_seq_inc c k;
          k = (if p \<in> set (rq_core_tree (rqs k c))
               then upd_rq c (\<lambda>rq. rq\<lparr>rq_core_tree := rb_erase x p (rq_core_tree rq)\<rparr>) k else k)
      in if \<not> flag_set flags (DEQUEUE_SAVE e) \<and> rq_nr_running (rqs k c) = 1 \<and>
            rq_core_forceidle_count (rqs k (rq_core (rqs k c))) \<noteq> 0 \<and> rq_curr (rqs k c) = rq_idle (rqs k c)
         then resched_curr c k else k)"

text \<open>The idle class picks the idle task of the run queue, which matches any cookie.\<close>

definition sched_core_find :: "kops \<Rightarrow> cpu \<Rightarrow> nat \<Rightarrow> kernel \<Rightarrow> tid option \<times> kernel" where
  "sched_core_find x c cookie k =
     (case rb_find_first x (rb_sched_core_cmp k cookie) (rq_core_tree (rqs k c)) of
        None \<Rightarrow> op_pick_task x idle_sched_class c k
      | Some p \<Rightarrow> (Some p, k))"

definition sched_core_next :: "kops \<Rightarrow> kernel \<Rightarrow> cpu \<Rightarrow> tid \<Rightarrow> nat \<Rightarrow> tid option" where
  "sched_core_next x k c p cookie =
     (case rb_next x p (rq_core_tree (rqs k c)) of
        None \<Rightarrow> None
      | Some q \<Rightarrow> if t_core_cookie (tasks k q) \<noteq> cookie then None else Some q)"

subsection \<open>Putting tasks on and off a run queue\<close>

definition enqueue_task :: "kenv \<Rightarrow> kops \<Rightarrow> cpu \<Rightarrow> tid \<Rightarrow> u32 \<Rightarrow> kernel \<Rightarrow> kernel" where
  "enqueue_task e x c p flags k =
     (let k = (if \<not> flag_set flags (ENQUEUE_NOCLOCK e) then update_rq_clock e x c k else k);
          (rq, t) = uclamp_rq_inc e k (rqs k c) (tasks k p);
          k = upd_task p (\<lambda>_. t) (upd_rq c (\<lambda>_. rq) k);
          k = op_enqueue_task x (t_sched_class (tasks k p)) c p flags k
      in if sched_core_enabled k c then sched_core_enqueue e x c p k else k)"

definition dequeue_task :: "kenv \<Rightarrow> kops \<Rightarrow> cpu \<Rightarrow> tid \<Rightarrow> u32 \<Rightarrow> kernel \<Rightarrow> kernel" where
  "dequeue_task e x c p flags k =
     (let k = (if sched_core_enabled k c then sched_core_dequeue e x c p flags k else k);
          k = (if \<not> flag_set flags (DEQUEUE_NOCLOCK e) then update_rq_clock e x c k else k);
          (rq, t) = uclamp_rq_dec e k (rqs k c) (tasks k p);
          k = upd_task p (\<lambda>_. t) (upd_rq c (\<lambda>_. rq) k)
      in op_dequeue_task x (t_sched_class (tasks k p)) c p flags k)"

definition activate_task :: "kenv \<Rightarrow> kops \<Rightarrow> cpu \<Rightarrow> tid \<Rightarrow> u32 \<Rightarrow> kernel \<Rightarrow> kernel" where
  "activate_task e x c p flags k =
     upd_task p (\<lambda>t. t\<lparr>t_on_rq := TASK_ON_RQ_QUEUED\<rparr>) (enqueue_task e x c p flags k)"

definition deactivate_task :: "kenv \<Rightarrow> kops \<Rightarrow> cpu \<Rightarrow> tid \<Rightarrow> u32 \<Rightarrow> kernel \<Rightarrow> kernel" where
  "deactivate_task e x c p flags k =
     dequeue_task e x c p flags (upd_task p (\<lambda>t. t\<lparr>t_on_rq :=
       (if flag_set flags (DEQUEUE_SLEEP e) then NOT_ON_RQ else TASK_ON_RQ_MIGRATING)\<rparr>) k)"

definition task_curr :: "kernel \<Rightarrow> tid \<Rightarrow> bool" where
  "task_curr k p \<longleftrightarrow> rq_curr (rqs k (t_cpu (tasks k p))) = p"

definition put_prev_task :: "kops \<Rightarrow> cpu \<Rightarrow> tid \<Rightarrow> kernel \<Rightarrow> kernel" where
  "put_prev_task x c p k = op_put_prev_task x (t_sched_class (tasks k p)) c p k"

definition set_next_task :: "kops \<Rightarrow> cpu \<Rightarrow> tid \<Rightarrow> kernel \<Rightarrow> kernel" where
  "set_next_task x c p k = op_set_next_task x (t_sched_class (tasks k p)) c p False k"

definition check_class_changed :: "kenv \<Rightarrow> kops \<Rightarrow> cpu \<Rightarrow> tid \<Rightarrow> sched_class \<Rightarrow> int \<Rightarrow> kernel \<Rightarrow> kernel" where
  "check_class_changed e x c p prev_class oldprio k =
     (if prev_class \<noteq> t_sched_class (tasks k p)
      then let k = (case op_switched_from x prev_class of None \<Rightarrow> k | Some f \<Rightarrow> f c p k)
           in op_switched_to x (t_sched_class (tasks k p)) c p k
      else if oldprio \<noteq> t_prio (tasks k p) \<or> dl_task e (tasks k p)
      then op_prio_changed x (t_sched_class (tasks k p)) c p oldprio k
      else k)"

definition check_preempt_curr :: "kenv \<Rightarrow> kops \<Rightarrow> cpu \<Rightarrow> tid \<Rightarrow> u32 \<Rightarrow> kernel \<Rightarrow> kernel" where
  "check_preempt_curr e x c p flags k =
     (let curr = rq_curr (rqs k c);
          k = (if t_sched_class (tasks k p) = t_sched_class (tasks k curr)
               then op_check_preempt_curr x (t_sched_class (tasks k curr)) c p flags k
               else if t_sched_class (tasks k p) > t_sched_class (tasks k curr) then resched_curr c k
               else k);
          curr = rq_curr (rqs k c)
      in if task_on_rq_queued (tasks k curr) \<and> t_need_resched (tasks k curr)
         then upd_rq c (\<lambda>rq. rq\<lparr>rq_clock_update_flags := rq_clock_update_flags rq OR RQCF_REQ_SKIP e\<rparr>) k
         else k)"

definition idle_cpu :: "kernel \<Rightarrow> cpu \<Rightarrow> bool" where
  "idle_cpu k c =
     (if rq_curr (rqs k c) \<noteq> rq_idle (rqs k c) then False
      else if rq_nr_running (rqs k c) \<noteq> 0 then False
      else if rq_ttwu_pending (rqs k c) then False
      else True)"

subsection \<open>Frames\<close>

text \<open>What the development assumes of the callbacks of the scheduling classes.\<close>

definition kops_frame :: "kops \<Rightarrow> bool" where
  "kops_frame x \<longleftrightarrow>
     (\<forall>s c p f k. sched_frame k (op_enqueue_task x s c p f k) \<and> sched_frame k (op_dequeue_task x s c p f k) \<and>
        sched_frame k (op_check_preempt_curr x s c p f k)) \<and>
     (\<forall>s c p k. sched_frame k (op_put_prev_task x s c p k) \<and> sched_frame k (op_set_next_task x s c p False k) \<and>
        sched_frame k (op_switched_to x s c p k)) \<and>
     (\<forall>s c p i k. sched_frame k (op_prio_changed x s c p i k)) \<and>
     (\<forall>s f c p k. op_switched_from x s = Some f \<longrightarrow> sched_frame k (f c p k)) \<and>
     (\<forall>i t. \<exists>s. reweight_task x i t = t\<lparr>t_se := s\<rparr>)"

text \<open>\<^verbatim>\<open>reweight_task\<close> gives the task the weight of the priority it is called with.\<close>

definition reweight_law :: "kenv \<Rightarrow> kops \<Rightarrow> bool" where
  "reweight_law e x \<longleftrightarrow> (\<forall>i t. se_load (t_se (reweight_task x i t)) = prio_load e i)"

lemma sched_frame_refl [simp]: "sched_frame k k"
  by (simp add: sched_frame_def)

lemma sched_frame_trans: "sched_frame k k' \<Longrightarrow> sched_frame k' k'' \<Longrightarrow> sched_frame k k''"
  by (simp add: sched_frame_def)

lemma sched_frame_task:
  assumes "sched_frame k k'"
  shows "task_core (tasks k' p) = task_core (tasks k p)"
proof -
  have "tasks (kernel_core k') p = tasks (kernel_core k) p" using assms by (simp add: sched_frame_def)
  then show ?thesis by (simp add: kernel_core_def)
qed

text \<open>Fields of tasks and run queues that a frame keeps.\<close>

lemma task_core_sel:
  assumes "task_core t = task_core t'"
  shows "t_prio t = t_prio t'" "t_static_prio t = t_static_prio t'" "t_normal_prio t = t_normal_prio t'"
    "t_rt_priority t = t_rt_priority t'" "t_policy t = t_policy t'" "t_sched_class t = t_sched_class t'"
    "t_uclamp t = t_uclamp t'" "t_uclamp_req t = t_uclamp_req t'" "t_on_rq t = t_on_rq t'" "t_cpu t = t_cpu t'"
    "t_sched_task_group t = t_sched_task_group t'" "t_my_fixed_priority t = t_my_fixed_priority t'"
    "t_core_cookie t = t_core_cookie t'" "t_state t = t_state t'" "t_pi_top_task t = t_pi_top_task t'"
    "t_sched_reset_on_fork t = t_sched_reset_on_fork t'" "se_load (t_se t) = se_load (t_se t')"
  using arg_cong [OF assms, of t_prio]
    arg_cong [OF assms, of t_static_prio]
    arg_cong [OF assms, of t_normal_prio]
    arg_cong [OF assms, of t_rt_priority]
    arg_cong [OF assms, of t_policy]
    arg_cong [OF assms, of t_sched_class]
    arg_cong [OF assms, of t_uclamp]
    arg_cong [OF assms, of t_uclamp_req]
    arg_cong [OF assms, of t_on_rq]
    arg_cong [OF assms, of t_cpu]
    arg_cong [OF assms, of t_sched_task_group]
    arg_cong [OF assms, of t_my_fixed_priority]
    arg_cong [OF assms, of t_core_cookie]
    arg_cong [OF assms, of t_state]
    arg_cong [OF assms, of t_pi_top_task]
    arg_cong [OF assms, of t_sched_reset_on_fork]
    arg_cong [OF assms, of "\<lambda>t. se_load (t_se t)"]
  by (simp_all add: task_core_def)

lemma sched_frame_kernel:
  assumes "sched_frame k k'"
  shows "task_groups k' = task_groups k" "uclamp_default k' = uclamp_default k"
    "sched_uclamp_used k' = sched_uclamp_used k" "this_cpu k' = this_cpu k"
    "k__sched_core_enabled k' = k__sched_core_enabled k"
    "sysctl_sched_uclamp_util_min_rt_default k' = sysctl_sched_uclamp_util_min_rt_default k" "kfix k' = kfix k"
proof -
  have eq: "kernel_core k' = kernel_core k" using assms by (simp add: sched_frame_def)
  show "task_groups k' = task_groups k" using arg_cong [OF eq, of task_groups] by (simp add: kernel_core_def)
  show "uclamp_default k' = uclamp_default k" using arg_cong [OF eq, of uclamp_default] by (simp add: kernel_core_def)
  show "sched_uclamp_used k' = sched_uclamp_used k"
    using arg_cong [OF eq, of sched_uclamp_used] by (simp add: kernel_core_def)
  show "this_cpu k' = this_cpu k" using arg_cong [OF eq, of this_cpu] by (simp add: kernel_core_def)
  show "k__sched_core_enabled k' = k__sched_core_enabled k"
    using arg_cong [OF eq, of k__sched_core_enabled] by (simp add: kernel_core_def)
  show "sysctl_sched_uclamp_util_min_rt_default k' = sysctl_sched_uclamp_util_min_rt_default k"
    using arg_cong [OF eq, of sysctl_sched_uclamp_util_min_rt_default] by (simp add: kernel_core_def)
  show "kfix k' = kfix k" using arg_cong [OF eq, of kfix] by (simp add: kernel_core_def kfix_def)
qed

lemma sched_frame_rq:
  assumes "sched_frame k k'"
  shows "rq_uclamp (rqs k' c) = rq_uclamp (rqs k c)" "rq_uclamp_idle (rqs k' c) = rq_uclamp_idle (rqs k c)"
    "rq_curr (rqs k' c) = rq_curr (rqs k c)" "rq_idle (rqs k' c) = rq_idle (rqs k c)"
    "rq_core_tree (rqs k' c) = rq_core_tree (rqs k c)" "rq_core_enabled (rqs k' c) = rq_core_enabled (rqs k c)"
    "rq_prev_mm (rqs k' c) = rq_prev_mm (rqs k c)"
  using assms by (simp_all add: sched_frame_def rq_core_state_def)

lemma sched_frame_upd_task:
  "(\<And>t. task_core (f t) = task_core t) \<Longrightarrow> sched_frame k (upd_task p f k)"
  by (simp add: sched_frame_def kernel_core_def upd_task_def fun_eq_iff)

lemma sched_frame_upd_rq:
  "(\<And>rq. rq_core_state (f rq) = rq_core_state rq) \<Longrightarrow> sched_frame k (upd_rq c f k)"
  by (simp add: sched_frame_def kernel_core_def upd_rq_def)

lemma kernel_core_ipis [simp]:
  "kernel_core (k\<lparr>resched_ipis := l\<rparr>) = kernel_core k" "kernel_core (k\<lparr>preempt_need_resched := b\<rparr>) = kernel_core k"
  by (simp_all add: kernel_core_def)

lemma task_core_resched [simp]: "task_core (t\<lparr>t_need_resched := b\<rparr>) = task_core t"
  by (simp add: task_core_def)

lemma sched_frame_ipis [simp]:
  "sched_frame k (k'\<lparr>resched_ipis := l\<rparr>) \<longleftrightarrow> sched_frame k k'"
  "sched_frame k (k'\<lparr>preempt_need_resched := b\<rparr>) \<longleftrightarrow> sched_frame k k'"
  by (simp_all add: sched_frame_def)

lemma sched_frame_resched_curr [simp]: "sched_frame k (resched_curr c k)"
  by (simp add: resched_curr_def set_nr_and_not_polling_def smp_send_reschedule_def Let_def sched_frame_upd_task)

lemma sched_frame_update_rq_clock_task [simp]: "sched_frame k (update_rq_clock_task x c d k)"
  by (simp add: update_rq_clock_task_def Let_def sched_frame_def kernel_core_def upd_rq_def rq_core_state_def)

lemma sched_frame_update_rq_clock [simp]: "sched_frame k (update_rq_clock e x c k)"
proof -
  have up: "sched_frame k (upd_rq c f k)" if "\<And>rq. rq_core_state (f rq) = rq_core_state rq" for f k
    using that by (rule sched_frame_upd_rq)
  show ?thesis
    by (simp add: update_rq_clock_def Let_def up rq_core_state_def)
      (intro impI sched_frame_trans [OF _ sched_frame_update_rq_clock_task] sched_frame_trans [OF up up];
        simp add: rq_core_state_def)
qed

subsection \<open>Clock and reschedule requests\<close>

text \<open>The clock readings of one update, and the part of the elapsed time that remains for tasks.\<close>

lemma sint_diff_bounds:
  fixes a d :: u64
  assumes "0 \<le> sint a" "sint a \<le> sint d"
  shows "0 \<le> sint (d - a)" "sint (d - a) \<le> sint d"
proof -
  have "sint d < 2 ^ 63" using sint_less [of d] by simp
  then have "sint (d - a) = sint d - sint a" using assms
    by (subst sint_word_ariths(2)) (simp add: signed_take_bit_int_eq_self)
  then show "0 \<le> sint (d - a)" "sint (d - a) \<le> sint d" using assms by simp_all
qed

lemma update_rq_clock_task_split:
  fixes x c d k
  defines "rq \<equiv> rqs k c" and "rq' \<equiv> rqs (update_rq_clock_task x c d k) c"
  shows "(rq_clock_task rq' - rq_clock_task rq) + (rq_prev_irq_time rq' - rq_prev_irq_time rq) +
      (rq_prev_steal_time_rq rq' - rq_prev_steal_time_rq rq) = d"
    and "0 \<le> sint d \<Longrightarrow> 0 \<le> sint (irq_time_read x c k - rq_prev_irq_time rq) \<Longrightarrow>
      0 \<le> sint (paravirt_steal_clock x c k - rq_prev_steal_time_rq rq) \<Longrightarrow>
      0 \<le> sint (rq_clock_task rq' - rq_clock_task rq) \<and> sint (rq_clock_task rq' - rq_clock_task rq) \<le> sint d"
    and "rq_clock rq' = rq_clock rq"
proof -
  let ?i = "irq_time_read x c k - rq_prev_irq_time rq"
  define i where "i = (if sint ?i > sint d then d else ?i)"
  let ?s = "paravirt_steal_clock x c k - rq_prev_steal_time_rq rq"
  define s where "s = (if paravirt_steal_rq_enabled x then if sint ?s > sint (d - i) then d - i else ?s else 0)"
  have rq': "rq' = rq\<lparr>rq_prev_irq_time := rq_prev_irq_time rq + i, rq_prev_steal_time_rq := rq_prev_steal_time_rq rq + s,
      rq_clock_task := rq_clock_task rq + (d - i - s)\<rparr>"
    by (simp add: rq'_def update_rq_clock_task_def Let_def i_def s_def rq_def)
  then show "(rq_clock_task rq' - rq_clock_task rq) + (rq_prev_irq_time rq' - rq_prev_irq_time rq) +
      (rq_prev_steal_time_rq rq' - rq_prev_steal_time_rq rq) = d"
    and "rq_clock rq' = rq_clock rq"
    by simp_all
  assume d: "0 \<le> sint d" and "0 \<le> sint ?i" and "0 \<le> sint ?s"
  then have i: "0 \<le> sint i" "sint i \<le> sint d" by (auto simp: i_def)
  note di = sint_diff_bounds [OF i]
  have s: "0 \<le> sint s" "sint s \<le> sint (d - i)" using \<open>0 \<le> sint ?s\<close> di(1) by (auto simp: s_def)
  show "0 \<le> sint (rq_clock_task rq' - rq_clock_task rq) \<and> sint (rq_clock_task rq' - rq_clock_task rq) \<le> sint d"
    using sint_diff_bounds [OF s] di by (simp add: rq')
qed

text \<open>
  An update of the run queue clock never moves it back, and divides the elapsed time without loss between
  interrupts, stolen time and the task clock.  When the interrupt and steal clocks have not run backwards the
  task clock does not either, and it advances by no more than the clock.
\<close>

theorem update_rq_clock_conserves:
  fixes e x c k
  defines "rq \<equiv> rqs k c" and "rq' \<equiv> rqs (update_rq_clock e x c k) c"
  shows "(rq_clock_task rq' - rq_clock_task rq) + (rq_prev_irq_time rq' - rq_prev_irq_time rq) +
      (rq_prev_steal_time_rq rq' - rq_prev_steal_time_rq rq) = rq_clock rq' - rq_clock rq \<and>
    0 \<le> sint (rq_clock rq' - rq_clock rq) \<and>
    ((\<forall>k. 0 \<le> sint (irq_time_read x c k - rq_prev_irq_time rq) \<and>
          0 \<le> sint (paravirt_steal_clock x c k - rq_prev_steal_time_rq rq)) \<longrightarrow>
      0 \<le> sint (rq_clock_task rq' - rq_clock_task rq) \<and>
      sint (rq_clock_task rq' - rq_clock_task rq) \<le> sint (rq_clock rq' - rq_clock rq))"
proof -
  let ?k1 = "upd_rq c (\<lambda>rq. rq\<lparr>rq_clock_update_flags := rq_clock_update_flags rq OR RQCF_UPDATED e\<rparr>) k"
  let ?d = "sched_clock_cpu x c ?k1 - rq_clock rq"
  let ?k2 = "upd_rq c (\<lambda>rq. rq\<lparr>rq_clock := rq_clock rq + ?d\<rparr>) ?k1"
  consider (skip) "flag_set (rq_clock_update_flags rq) (RQCF_ACT_SKIP e)"
    | (early) "\<not> flag_set (rq_clock_update_flags rq) (RQCF_ACT_SKIP e)" "sint ?d < 0"
    | (adv) "\<not> flag_set (rq_clock_update_flags rq) (RQCF_ACT_SKIP e)" "0 \<le> sint ?d" by linarith
  then show ?thesis
  proof cases
    case adv
    then have "update_rq_clock e x c k = update_rq_clock_task x c ?d ?k2"
      by (simp add: update_rq_clock_def rq_def Let_def)
    then show ?thesis
      using adv(2) update_rq_clock_task_split [where k = ?k2 and c = c and x = x and d = ?d] by (simp add: rq'_def rq_def)
  qed (simp_all add: rq'_def rq_def update_rq_clock_def Let_def)
qed

text \<open>
  A concrete set of callbacks: classes without state of their own, trees as sorted lists, and clocks that
  stand at 1000 (system), 200 (interrupts) and 50 (stolen time).
\<close>

definition plain_kops :: kops where
  "plain_kops = \<lparr>
     op_enqueue_task = (\<lambda>_ c _ _. upd_rq c (\<lambda>rq. rq\<lparr>rq_nr_running := rq_nr_running rq + 1\<rparr>)),
     op_dequeue_task = (\<lambda>_ c _ _. upd_rq c (\<lambda>rq. rq\<lparr>rq_nr_running := rq_nr_running rq - 1\<rparr>)),
     op_check_preempt_curr = (\<lambda>_ c _ _. resched_curr c),
     op_put_prev_task = (\<lambda>_ _ _ k. k), op_set_next_task = (\<lambda>_ _ _ _ k. k),
     op_pick_next_task = (\<lambda>s c k. (if s = idle_sched_class then Some (rq_idle (rqs k c)) else None, k)),
     op_pick_task = (\<lambda>s c k. (if s = idle_sched_class then Some (rq_idle (rqs k c)) else None, k)),
     op_balance = (\<lambda>_ _ _ k. (False, k)),
     op_switched_from = (\<lambda>_. None), op_switched_to = (\<lambda>_ c _. resched_curr c),
     op_prio_changed = (\<lambda>_ c _ _. resched_curr c), op_task_woken = (\<lambda>_. None), op_task_tick = (\<lambda>_ _ _ _ k. k),
     op_select_task_rq = (\<lambda>_ _ c _ _. c), op_migrate_task_rq = (\<lambda>_. None),
     op_yield_task = (\<lambda>_ _ k. k), op_yield_to_task = (\<lambda>_. None), op_task_fork = (\<lambda>_. None),
     reweight_task = (\<lambda>i t. t\<lparr>t_se := (t_se t)\<lparr>se_load := prio_load kenv_v5_17 i\<rparr>\<rparr>),
     cfs_prio_less = (\<lambda>_ a b. sint (se_vruntime (t_se b) - se_vruntime (t_se a)) < 0),
     rb_add = (\<lambda>less p xs. takeWhile (\<lambda>y. \<not> less p y) xs @ p # dropWhile (\<lambda>y. \<not> less p y) xs),
     rb_erase = (\<lambda>p xs. filter (\<lambda>y. y \<noteq> p) xs),
     rb_find_first = (\<lambda>cmp xs. find (\<lambda>y. cmp y = 0) xs),
     rb_next = (\<lambda>p xs. case dropWhile (\<lambda>y. y \<noteq> p) xs of _ # q # _ \<Rightarrow> Some q | _ \<Rightarrow> None),
     sched_clock_cpu = (\<lambda>_ _. 1000), irq_time_read = (\<lambda>_ _. 200), paravirt_steal_rq_enabled = True,
     paravirt_steal_clock = (\<lambda>_ _. 50), cpu_smt_mask = (\<lambda>c. [c]),
     pick_next_task_fair = (\<lambda>_ _ k. (No_task, k)), pick_next_task_idle = (\<lambda>c k. (rq_idle (rqs k c), k)),
     task_vruntime_update = (\<lambda>_ _ _ k. k), sched_core_account_forceidle = (\<lambda>_ k. k), schedstat_enabled = True,
     queue_balance_callback = (\<lambda>_ k. k), k__balance_callbacks = (\<lambda>_ k. k), signal_pending_state = (\<lambda>_ _ _. False),
     op_task_dead = (\<lambda>_. None), put_dead_task = (\<lambda>_ k. k),
     op_set_cpus_allowed = (\<lambda>_ p m f. upd_task p (\<lambda>t. if flag_set f 0x06 then t\<lparr>t_cpus_ptr := m\<rparr>
       else t\<lparr>t_cpus_mask := mask_of t m, t_nr_cpus_allowed := card (mask_of t m)\<rparr>)),
     op_find_lock_rq = (\<lambda>_. None), task_cpu_possible_mask = (\<lambda>_. {..<64}), kthread_is_per_cpu = (\<lambda>_. False),
     cpu_dying = (\<lambda>_. False), flush_smp_call_function_from_idle = (\<lambda>k. k),
     wait_for_completion = (\<lambda>i k. k\<lparr>pendings := (pendings k)(i := (pendings k i)\<lparr>ap_done := True\<rparr>)\<rparr>),
     cpuset_cpus_allowed = (\<lambda>_ k. cpu_active_mask k), cpuset_cpus_allowed_fallback = (\<lambda>_ k. (False, k)),
     cpu_to_node = (\<lambda>_. None), cpumask_of_node = (\<lambda>_. []), sd_llc_id = (\<lambda>c. c), sched_feat_TTWU_QUEUE = True,
     cpumask_any_and_distribute = (\<lambda>a b. find (\<lambda>i. i \<in> a \<and> i \<in> b) [0..<64]),
     wq_worker_sleeping = (\<lambda>_ k. k), io_wq_worker_sleeping = (\<lambda>_ k. k), wq_worker_running = (\<lambda>_ k. k),
     io_wq_worker_running = (\<lambda>_ k. k), tsk_is_pi_blocked = (\<lambda>_ _. False), blk_needs_flush_plug = (\<lambda>_ _. False),
     blk_flush_plug = (\<lambda>_ k. k),
     preemptible = (\<lambda>_. True), get_rr_interval = (\<lambda>s. if s = rt_sched_class then Some (\<lambda>_ _ _. 25) else None),
     update_avg = (\<lambda>avg v. avg + (v - avg) div 8), jiffies = (\<lambda>_. 77),
     smp_call_single_queue = (\<lambda>c p. upd_rq c (\<lambda>rq. rq\<lparr>rq_wake_list := rq_wake_list rq @ [p]\<rparr>)),
     arch_send_call_function_single_ipi = (\<lambda>_ k. k),
     wait_off_cpu = (\<lambda>p. upd_task p (\<lambda>t. t\<lparr>t_on_cpu := False\<rparr>)), sched_rr_timeslice = 25, clear_dl_params = (\<lambda>t. t\<lparr>t_dl := t_dl zero_task\<rparr>),
     dl_entity_preempt = (\<lambda>a b. dl_time_before (dl_deadline a) (dl_deadline b))\<rparr>"

lemma plain_kops_frame: "kops_frame plain_kops"
proof -
  have "sched_frame k (upd_rq c (\<lambda>rq. rq\<lparr>rq_nr_running := f rq\<rparr>) k)" for f c k
    by (rule sched_frame_upd_rq) (simp add: rq_core_state_def)
  then show ?thesis by (simp add: kops_frame_def plain_kops_def) blast
qed

lemma plain_kops_reweight: "reweight_law kenv_v5_17 plain_kops"
  by (simp add: reweight_law_def plain_kops_def)

theorem update_rq_clock_conserves_witness:
  "rq_clock_task (rqs (update_rq_clock kenv_v5_17 plain_kops 0 zero_kernel) 0) = 750 \<and>
   sint (rq_clock_task (rqs (update_rq_clock kenv_v5_17 plain_kops 0 zero_kernel) 0)) \<le> 1000"
proof -
  have "rq_clock_task (rqs (update_rq_clock kenv_v5_17 plain_kops 0 zero_kernel) 0) = 750 \<and>
      rq_clock (rqs (update_rq_clock kenv_v5_17 plain_kops 0 zero_kernel) 0) = 1000"
    by (simp add: update_rq_clock_def update_rq_clock_task_def flag_set_def plain_kops_def zero_defs Let_def)
  then show ?thesis
    using update_rq_clock_conserves [where e = kenv_v5_17 and x = plain_kops and c = 0 and k = zero_kernel]
    by (simp add: plain_kops_def zero_defs)
qed

text \<open>
   A request to reschedule marks the current task of the run queue; it interrupts the CPU only when that
  CPU is another one, its current task is not marked yet and does not poll the mark, and it changes
  nothing when repeated.
\<close>

theorem resched_curr_marks:
  "t_need_resched (tasks (resched_curr c k) (rq_curr (rqs k c))) \<and>
   resched_ipis (resched_curr c k) =
     (if c \<noteq> this_cpu k \<and> \<not> t_need_resched (tasks k (rq_curr (rqs k c))) \<and> \<not> t_polling (tasks k (rq_curr (rqs k c)))
      then c # resched_ipis k else resched_ipis k) \<and>
   resched_curr c (resched_curr c k) = resched_curr c k"
  by (simp add: resched_curr_def set_nr_and_not_polling_def smp_send_reschedule_def upd_task_def Let_def)

end
