(* ===== verification/Requeue.thy ===== *)
theory Requeue
  imports Sched_Ops
begin

text \<open>
  Changing the parameters of a task that may be queued: \<^verbatim>\<open>core.c\<close> takes the task off its run queue, changes
  it and puts it back (\<^verbatim>\<open>set_user_nice\<close>, \<^verbatim>\<open>rt_mutex_setprio\<close>, \<^verbatim>\<open>__sched_setscheduler\<close>, \<^verbatim>\<open>sched_move_task\<close> and the
  affinity calls).  The locale \<open>queue_cycle\<close> is the contract of that pattern; the accounting of utilization
  clamps by \<open>enqueue_task\<close> and \<open>dequeue_task\<close> meets it.
\<close>

subsection \<open>The contract\<close>

locale queue_cycle =
  fixes inv :: "'p set \<Rightarrow> 'k \<Rightarrow> bool"
    and enq deq :: "'p \<Rightarrow> 'f \<Rightarrow> 'k \<Rightarrow> 'k"
    and off :: "'p \<Rightarrow> 'k \<Rightarrow> bool"
    and same :: "'k \<Rightarrow> 'k \<Rightarrow> bool"
    and change :: "'p \<Rightarrow> 'k \<Rightarrow> 'k \<Rightarrow> bool"
  assumes enq_inv: "inv Q k \<Longrightarrow> p \<notin> Q \<Longrightarrow> off p k \<Longrightarrow> inv (insert p Q) (enq p f k)"
    and deq_inv: "inv Q k \<Longrightarrow> p \<in> Q \<Longrightarrow> inv (Q - {p}) (deq p f k)"
    and deq_off: "inv Q k \<Longrightarrow> p \<in> Q \<Longrightarrow> off p (deq p f k)"
    and same_inv: "inv Q k \<Longrightarrow> same k k' \<Longrightarrow> inv Q k'"
    and same_off: "off p k \<Longrightarrow> same k k' \<Longrightarrow> off p k'"
    and change_inv: "inv Q k \<Longrightarrow> p \<notin> Q \<Longrightarrow> change p k k' \<Longrightarrow> inv Q k'"
    and change_off: "off p k \<Longrightarrow> change p k k' \<Longrightarrow> off p k'"
begin

text \<open>The whole cycle, with callbacks between its steps.\<close>

lemma cycle:
  assumes "inv Q k" and "queued \<longleftrightarrow> p \<in> Q"
    and "same (if queued then deq p f k else k) k2" and "change p k2 k3"
    and "same (if queued then enq p f' k3 else k3) k5"
  shows "inv Q k5"
proof (cases queued)
  case True
  with assms(1,2) have "inv (Q - {p}) (deq p f k)" "off p (deq p f k)" by (simp_all add: deq_inv deq_off)
  with assms(3) True have "inv (Q - {p}) k2" "off p k2" by (simp_all add: same_inv same_off)
  then have "inv (Q - {p}) k3" "off p k3" using change_inv [OF _ _ assms(4)] change_off [OF _ assms(4)] by simp_all
  then have "inv (insert p (Q - {p})) (enq p f' k3)" by (intro enq_inv) simp_all
  moreover have "insert p (Q - {p}) = Q" using assms(2) True by blast
  ultimately show ?thesis using assms(5) True by (simp add: same_inv)
next
  case False
  then have "inv Q k2" using assms(1,3) by (simp add: same_inv)
  then have "inv Q k3" using assms(2) False change_inv [OF _ _ assms(4)] by simp
  then show ?thesis using assms(5) False by (simp add: same_inv)
qed

end

subsection \<open>Utilization clamps of the queued tasks\<close>

abbreviation is_counted :: "kernel \<Rightarrow> tid \<Rightarrow> bool" where
  "is_counted k p \<equiv> uc_active (t_uclamp (tasks k p) UCLAMP_MIN)"

text \<open>
  \<open>Q\<close> is the set of tasks queued on CPU \<open>c\<close>.  The buckets of the run queue account for exactly those of them
  that are counted.  Every clamp request and every group's clamp is in range.
\<close>

definition clamps_counted :: "kernel \<Rightarrow> tid set \<Rightarrow> (nat \<times> nat) multiset" where
  "clamps_counted k Q = image_mset (\<lambda>p. task_clamps (tasks k p)) (mset_set {p \<in> Q. is_counted k p})"

definition task_acc :: "kenv \<Rightarrow> kernel \<Rightarrow> tid \<Rightarrow> bool" where
  "task_acc e k p \<longleftrightarrow> (uc_active (t_uclamp (tasks k p) UCLAMP_MAX) \<longleftrightarrow> is_counted k p) \<and>
     (is_counted k p \<longrightarrow> uclamp_counted e k (tasks k p))"

definition acc :: "kenv \<Rightarrow> cpu \<Rightarrow> tid set \<Rightarrow> kernel \<Rightarrow> bool" where
  "acc e c Q k \<longleftrightarrow> finite Q \<and> (\<forall>p. uclamp_sys_ok e k (tasks k p)) \<and> (\<forall>p \<in> Q. task_acc e k p) \<and>
     uclamp_inv e (rqs k c) (clamps_counted k Q)"

definition acc_off :: "tid \<Rightarrow> kernel \<Rightarrow> bool" where
  "acc_off p k \<longleftrightarrow> (\<forall>i. \<not> uc_active (t_uclamp (tasks k p) i))"

definition acc_same :: "cpu \<Rightarrow> kernel \<Rightarrow> kernel \<Rightarrow> bool" where
  "acc_same c k k' \<longleftrightarrow> rq_uclamp (rqs k' c) = rq_uclamp (rqs k c) \<and> rq_uclamp_idle (rqs k' c) = rq_uclamp_idle (rqs k c) \<and>
     sched_uclamp_used k' = sched_uclamp_used k \<and> uclamp_default k' = uclamp_default k \<and> task_groups k' = task_groups k \<and>
     (\<forall>p. t_uclamp (tasks k' p) = t_uclamp (tasks k p) \<and> t_uclamp_req (tasks k' p) = t_uclamp_req (tasks k p) \<and>
          t_sched_class (tasks k' p) = t_sched_class (tasks k p) \<and>
          t_sched_task_group (tasks k' p) = t_sched_task_group (tasks k p))"

text \<open>A change of one task that keeps its accounting and leaves its request in range.\<close>

definition acc_change :: "kenv \<Rightarrow> cpu \<Rightarrow> tid \<Rightarrow> kernel \<Rightarrow> kernel \<Rightarrow> bool" where
  "acc_change e c p k k' \<longleftrightarrow> (\<exists>f. acc_same c (upd_task p f k) k' \<and> t_uclamp (f (tasks k p)) = t_uclamp (tasks k p) \<and>
     uclamp_sys_ok e k (f (tasks k p)))"

lemma acc_same_refl [simp]: "acc_same c k k"
  by (simp add: acc_same_def)

lemma acc_same_trans: "acc_same c k k' \<Longrightarrow> acc_same c k' k'' \<Longrightarrow> acc_same c k k''"
  by (simp add: acc_same_def)

lemma sched_frame_acc: "sched_frame k k' \<Longrightarrow> acc_same c k k'"
  using sched_frame_rq [of k k' c] sched_frame_kernel [of k k'] task_core_sel [OF sched_frame_task]
  by (simp add: acc_same_def)

lemma acc_same_upd_rq:
  "(\<And>rq. rq_uclamp (f rq) = rq_uclamp rq \<and> rq_uclamp_idle (f rq) = rq_uclamp_idle rq) \<Longrightarrow> acc_same c k (upd_rq d f k)"
  by (simp add: acc_same_def upd_rq_def)

lemma acc_same_seq_inc [simp]: "acc_same c k (core_task_seq_inc d k)"
  unfolding core_task_seq_inc_def by (rule acc_same_upd_rq) simp

lemma acc_same_tree [simp]: "acc_same c k (upd_rq d (\<lambda>rq. rq\<lparr>rq_core_tree := f rq\<rparr>) k)"
  by (rule acc_same_upd_rq) simp

lemma acc_same_core_enqueue [simp]: "acc_same c k (sched_core_enqueue e x d p k)"
  using acc_same_trans [OF acc_same_seq_inc acc_same_tree]
  by (simp add: sched_core_enqueue_def Let_def)

lemma acc_same_core_dequeue [simp]: "acc_same c k (sched_core_dequeue e x d p f k)"
proof -
  let ?k1 = "core_task_seq_inc d k"
  let ?k2 = "if p \<in> set (rq_core_tree (rqs ?k1 d))
    then upd_rq d (\<lambda>rq. rq\<lparr>rq_core_tree := rb_erase x p (rq_core_tree rq)\<rparr>) ?k1 else ?k1"
  have "acc_same c k ?k2" using acc_same_trans [OF acc_same_seq_inc acc_same_tree] by simp
  moreover have "acc_same c ?k2 (resched_curr d ?k2)" by (rule sched_frame_acc) simp
  ultimately have "acc_same c k (resched_curr d ?k2)" by (rule acc_same_trans)
  with \<open>acc_same c k ?k2\<close> show ?thesis unfolding sched_core_dequeue_def Let_def by (simp only: if_split) blast
qed

lemma acc_same_inv:
  assumes "acc e c Q k" and "acc_same c k k'"
  shows "acc e c Q k'"
proof -
  have "clamps_counted k' Q = clamps_counted k Q"
    using assms(2) by (simp add: clamps_counted_def acc_same_def task_clamps_def)
  moreover have "task_acc e k' p = task_acc e k p" for p
    using assms(2) by (simp add: task_acc_def acc_same_def uclamp_counted_def)
  moreover have "uclamp_sys_ok e k' (tasks k' p) = uclamp_sys_ok e k (tasks k p)" for p
    using assms(2) by (simp add: uclamp_sys_ok_def acc_same_def)
  moreover have "uclamp_inv e (rqs k' c) M = uclamp_inv e (rqs k c) M" for M
    using assms(2) by (simp add: uclamp_inv_def acc_same_def)
  ultimately show ?thesis using assms(1) by (simp add: acc_def)
qed

lemma clamps_counted_cong:
  "(\<And>p. p \<in> Q \<Longrightarrow> t_uclamp (tasks k' p) = t_uclamp (tasks k p)) \<Longrightarrow> clamps_counted k' Q = clamps_counted k Q"
proof -
  assume eq: "\<And>p. p \<in> Q \<Longrightarrow> t_uclamp (tasks k' p) = t_uclamp (tasks k p)"
  then have "{p \<in> Q. is_counted k' p} = {p \<in> Q. is_counted k p}" by auto
  with eq show ?thesis by (cases "finite {p \<in> Q. is_counted k p}")
      (auto simp: clamps_counted_def task_clamps_def intro!: image_mset_cong)
qed

lemma clamps_counted_insert:
  "finite Q \<Longrightarrow> p \<notin> Q \<Longrightarrow> clamps_counted k (insert p Q) =
     (if is_counted k p then add_mset (task_clamps (tasks k p)) (clamps_counted k Q) else clamps_counted k Q)"
proof -
  assume "finite Q" "p \<notin> Q"
  moreover have "{q \<in> insert p Q. is_counted k q} =
      (if is_counted k p then insert p {q \<in> Q. is_counted k q} else {q \<in> Q. is_counted k q})" by auto
  ultimately show ?thesis by (simp add: clamps_counted_def)
qed

lemma acc_change_inv:
  assumes "acc e c Q k" and "p \<notin> Q" and "acc_change e c p k k'"
  shows "acc e c Q k'"
proof -
  from assms(3) obtain f where same: "acc_same c (upd_task p f k) k'"
    and ok: "uclamp_sys_ok e k (f (tasks k p))" by (auto simp: acc_change_def)
  let ?k = "upd_task p f k"
  have sys: "uclamp_sys_ok e ?k t = uclamp_sys_ok e k t" for t by (simp add: uclamp_sys_ok_def upd_task_def)
  have "clamps_counted ?k Q = clamps_counted k Q" using assms(2) by (intro clamps_counted_cong) auto
  moreover have "task_acc e ?k q = task_acc e k q" if "q \<in> Q" for q
    using that assms(2) by (auto simp: task_acc_def uclamp_counted_def upd_task_def)
  ultimately have "acc e c Q ?k" using assms(1) ok by (auto simp: acc_def sys)
  then show ?thesis using same by (rule acc_same_inv)
qed

lemma acc_change_off: "acc_off p k \<Longrightarrow> acc_change e c p k k' \<Longrightarrow> acc_off p k'"
  by (auto simp: acc_off_def acc_change_def acc_same_def)

subsection \<open>Enqueue and dequeue meet the contract\<close>

lemma uclamp_rq_inc_task:
  assumes "uclamp_rq_inc e k rq t = (rq', t')"
  shows "t' = t\<lparr>t_uclamp := t_uclamp t'\<rparr>"
proof -
  let ?i = "uclamp_rq_inc_id e k"
  have id: "snd (?i rq t i) = t\<lparr>t_uclamp := (t_uclamp t)(i := (uclamp_eff_get e k t i)\<lparr>uc_active := True\<rparr>)\<rparr>" for rq t i
    by (simp add: uclamp_rq_inc_id_def Let_def)
  have "\<exists>f. snd (?i (fst (?i rq t UCLAMP_MIN)) (snd (?i rq t UCLAMP_MIN)) UCLAMP_MAX) = t\<lparr>t_uclamp := f\<rparr>"
    unfolding id by (rule exI) simp
  then show ?thesis
    using assms by (auto simp: uclamp_rq_inc_def fold_clamp_ids split: prod.splits if_splits)
qed

lemma uclamp_rq_dec_task:
  assumes "uclamp_rq_dec e k rq t = (rq', t')"
  shows "t' = t\<lparr>t_uclamp := t_uclamp t'\<rparr>"
    and "sched_uclamp_used k \<Longrightarrow> uclamp_enabled e (t_sched_class t) \<Longrightarrow> \<not> uc_active (t_uclamp t' i)"
proof -
  let ?d = "uclamp_rq_dec_id e"
  have id: "snd (?d rq t i) =
      t\<lparr>t_uclamp := (t_uclamp t)(i := (t_uclamp t i)\<lparr>uc_active := False\<rparr>)\<rparr>" for rq t i
  proof (cases "uc_active (t_uclamp t i)")
    case False
    then have "(t_uclamp t)(i := (t_uclamp t i)\<lparr>uc_active := False\<rparr>) = t_uclamp t"
      by (intro fun_upd_idem) (cases "t_uclamp t i", simp)
    moreover have "snd (?d rq t i) = t" using False by (simp add: uclamp_rq_dec_id_def)
    ultimately show ?thesis by (simp only:) simp
  qed (simp add: uclamp_rq_dec_id_def Let_def split: prod.split)
  let ?t = "t\<lparr>t_uclamp := (t_uclamp t)(UCLAMP_MIN := (t_uclamp t UCLAMP_MIN)\<lparr>uc_active := False\<rparr>,
      UCLAMP_MAX := (t_uclamp t UCLAMP_MAX)\<lparr>uc_active := False\<rparr>)\<rparr>"
  have "snd (?d (fst (?d rq t UCLAMP_MIN)) (snd (?d rq t UCLAMP_MIN)) UCLAMP_MAX) = ?t" by (simp add: id)
  then have t': "t' = (if sched_uclamp_used k \<and> uclamp_enabled e (t_sched_class t) then ?t else t)"
    using assms by (simp add: uclamp_rq_dec_def fold_clamp_ids case_prod_unfold split: if_splits)
  show "t' = t\<lparr>t_uclamp := t_uclamp t'\<rparr>" by (simp add: t')
  show "\<not> uc_active (t_uclamp t' i)" if "sched_uclamp_used k" "uclamp_enabled e (t_sched_class t)"
    using that by (cases i) (simp_all add: t')
qed

lemma uclamp_sys_ok_frame [simp]: "uclamp_sys_ok e k (t\<lparr>t_uclamp := f\<rparr>) = uclamp_sys_ok e k t"
  by (simp add: uclamp_sys_ok_def)

context uclamp_conf
begin

lemma acc_inc:
  assumes "acc e c Q k" and "p \<notin> Q" and "acc_off p k" and "uclamp_rq_inc e k (rqs k c) (tasks k p) = (rq, t)"
  shows "acc e c (insert p Q) (upd_task p (\<lambda>_. t) (upd_rq c (\<lambda>_. rq) k))" (is "acc e c _ ?k")
proof -
  have fin: "finite Q" using assms(1) by (simp add: acc_def)
  have t: "t = (tasks k p)\<lparr>t_uclamp := t_uclamp t\<rparr>" using assms(4) by (rule uclamp_rq_inc_task)
  have cong: "clamps_counted ?k Q = clamps_counted k Q" using assms(2) by (intro clamps_counted_cong) auto
  have inv: "uclamp_inv e (rqs k c) (clamps_counted k Q)" using assms(1) by (simp add: acc_def)
  show ?thesis
  proof (cases "sched_uclamp_used k \<and> uclamp_enabled e (t_sched_class (tasks k p))")
    case True
    then have ready: "uclamp_ready e k (tasks k p)"
      using assms(1) uclamp_eff_get_ok by (simp add: uclamp_ready_def acc_def)
    note c = uc.inc_counted [OF inv ready assms(4)] and i = uc.inc_inv [OF inv ready assms(4)]
    have "sched_uclamp_used ?k = sched_uclamp_used k" by (simp add: upd_task_def upd_rq_def)
    then have p: "task_acc e ?k p" using c by (simp add: task_acc_def uclamp_counted_def)
    have counted: "is_counted ?k p" using c by (simp add: uclamp_counted_def)
    have sys: "uclamp_sys_ok e ?k u = uclamp_sys_ok e k u" for u
      by (simp add: uclamp_sys_ok_def upd_task_def upd_rq_def)
    have t2: "uclamp_sys_ok e k t" using assms(1) t uclamp_sys_ok_frame by (metis acc_def)
    have "task_acc e ?k q = task_acc e k q" if "q \<in> Q" for q
      using that assms(2) by (auto simp: task_acc_def uclamp_counted_def upd_task_def upd_rq_def)
    then show ?thesis
      using assms(1) fin p counted i cong t2 clamps_counted_insert [OF fin assms(2), of ?k]
      by (auto simp: acc_def sys)
  next
    case False
    then have eq: "rq = rqs k c" "t = tasks k p" using assms(4) by (auto simp: uclamp_rq_inc_def split: if_splits)
    then have "?k = k" by (simp add: upd_task_def upd_rq_def)
    moreover have "\<not> is_counted k p" "task_acc e k p" using assms(3) by (simp_all add: acc_off_def task_acc_def)
    ultimately show ?thesis
      using assms(1) clamps_counted_insert [OF fin assms(2), of k] by (simp add: acc_def)
  qed
qed

lemma acc_dec:
  assumes "acc e c Q k" and "p \<in> Q" and "uclamp_rq_dec e k (rqs k c) (tasks k p) = (rq, t)"
  shows "acc e c (Q - {p}) (upd_task p (\<lambda>_. t) (upd_rq c (\<lambda>_. rq) k))" (is "acc e c _ ?k")
    and "acc_off p (upd_task p (\<lambda>_. t) (upd_rq c (\<lambda>_. rq) k))"
proof -
  let ?Q = "Q - {p}"
  have fin: "finite ?Q" "p \<notin> ?Q" and ins: "insert p ?Q = Q" using assms(1,2) by (auto simp: acc_def)
  have t: "t = (tasks k p)\<lparr>t_uclamp := t_uclamp t\<rparr>" using assms(3) by (rule uclamp_rq_dec_task)
  have inv: "uclamp_inv e (rqs k c) (if is_counted k p then add_mset (task_clamps (tasks k p)) (clamps_counted k ?Q)
      else clamps_counted k ?Q)"
    using assms(1) clamps_counted_insert [OF fin, of k] unfolding acc_def ins by simp
  have p: "task_acc e k p" using assms(1,2) by (simp add: acc_def)
  have sub: "acc e c ?Q k" if "uclamp_inv e (rqs k c) (clamps_counted k ?Q)"
    using assms(1) that by (simp add: acc_def)
  have "uclamp_inv e rq (clamps_counted k ?Q) \<and> acc_off p ?k"
  proof (cases "is_counted k p")
    case True
    then have c: "uclamp_counted e k (tasks k p)" using p by (simp add: task_acc_def)
    then show ?thesis
      using uc.dec_inv [OF _ c assms(3)] inv True uclamp_rq_dec_task(2) [OF assms(3)]
      by (simp add: acc_off_def uclamp_counted_def)
  next
    case False
    then have "\<not> uc_active (t_uclamp (tasks k p) i)" for i using p by (cases i) (simp_all add: task_acc_def)
    then have "rq = rqs k c \<and> t = tasks k p"
      using assms(3) by (auto simp: uclamp_rq_dec_def fold_clamp_ids uclamp_rq_dec_id_def split: if_splits)
    with False inv \<open>\<And>i. \<not> uc_active (t_uclamp (tasks k p) i)\<close> show ?thesis by (simp add: acc_off_def)
  qed
  moreover have "acc e c ?Q ?k" if "uclamp_inv e rq (clamps_counted k ?Q)"
  proof -
    have "clamps_counted ?k ?Q = clamps_counted k ?Q" by (intro clamps_counted_cong) auto
    moreover have "task_acc e ?k q = task_acc e k q" if "q \<in> ?Q" for q
      using that by (auto simp: task_acc_def uclamp_counted_def upd_task_def upd_rq_def)
    moreover have "uclamp_sys_ok e ?k u = uclamp_sys_ok e k u" for u
      by (simp add: uclamp_sys_ok_def upd_task_def upd_rq_def)
    moreover have "uclamp_sys_ok e k t" using assms(1) t uclamp_sys_ok_frame by (metis acc_def)
    ultimately show ?thesis using assms(1) that by (auto simp: acc_def)
  qed
  ultimately show "acc e c ?Q ?k" and "acc_off p ?k" by blast+
qed

end

text \<open>A configuration of the clamps, callbacks that keep to their frame, and one CPU.\<close>

locale sched_conf = uclamp_conf +
  fixes x :: kops and c :: cpu
  assumes frame: "kops_frame x"

sublocale sched_conf \<subseteq> rc: queue_cycle "acc e c" "enqueue_task e x c" "dequeue_task e x c" acc_off
  "acc_same c" "acc_change e c"
proof
  fix Q k p f
  assume inv: "acc e c Q k" and p: "p \<notin> Q" "acc_off p k"
  let ?k1 = "if \<not> flag_set f (ENQUEUE_NOCLOCK e) then update_rq_clock e x c k else k"
  obtain rq t where inc: "uclamp_rq_inc e ?k1 (rqs ?k1 c) (tasks ?k1 p) = (rq, t)" by force
  let ?k2 = "upd_task p (\<lambda>_. t) (upd_rq c (\<lambda>_. rq) ?k1)"
  let ?k3 = "op_enqueue_task x (t_sched_class t) c p f ?k2"
  have "acc_same c k ?k1" by (simp add: sched_frame_acc)
  then have "acc e c Q ?k1" "acc_off p ?k1" using inv p by (auto intro: acc_same_inv simp: acc_off_def acc_same_def)
  then have k2: "acc e c (insert p Q) ?k2" using p(1) inc by (intro acc_inc)
  have "acc_same c ?k2 ?k3" using frame by (intro sched_frame_acc) (simp add: kops_frame_def)
  then have "acc e c (insert p Q) ?k3" using k2 by (rule acc_same_inv [rotated])
  then show "acc e c (insert p Q) (enqueue_task e x c p f k)"
    using acc_same_inv [OF _ acc_same_core_enqueue]
    by (simp add: enqueue_task_def Let_def inc split del: if_split) (simp split: if_split)
next
  fix Q k p f
  assume inv: "acc e c Q k" and p: "p \<in> Q"
  let ?k0 = "if sched_core_enabled k c then sched_core_dequeue e x c p f k else k"
  let ?k1 = "if \<not> flag_set f (DEQUEUE_NOCLOCK e) then update_rq_clock e x c ?k0 else ?k0"
  obtain rq t where dec: "uclamp_rq_dec e ?k1 (rqs ?k1 c) (tasks ?k1 p) = (rq, t)" by force
  let ?k2 = "upd_task p (\<lambda>_. t) (upd_rq c (\<lambda>_. rq) ?k1)"
  let ?k3 = "op_dequeue_task x (t_sched_class t) c p f ?k2"
  have "acc_same c k ?k0" by simp
  moreover have "acc_same c ?k0 ?k1" by (simp add: sched_frame_acc del: if_split)
  ultimately have k1: "acc e c Q ?k1" using inv acc_same_trans acc_same_inv by blast
  have fr: "acc_same c ?k2 ?k3" using frame by (intro sched_frame_acc) (simp add: kops_frame_def)
  have eq: "dequeue_task e x c p f k = ?k3"
    by (simp add: dequeue_task_def Let_def dec split del: if_split)
  show "acc e c (Q - {p}) (dequeue_task e x c p f k)"
    unfolding eq using acc_dec(1) [OF k1 p dec] fr by (rule acc_same_inv)
  show "acc_off p (dequeue_task e x c p f k)"
    unfolding eq using acc_dec(2) [OF k1 p dec] fr by (simp add: acc_off_def acc_same_def)
next
  show "acc_off p k'" if "acc_off p k" "acc_change e c p k k'" for p k k' using that by (rule acc_change_off)
qed (auto intro: acc_same_inv acc_change_inv simp: acc_off_def acc_same_def)

interpretation v5_17_sched: sched_conf kenv_v5_17 plain_kops c for c
  by unfold_locales (rule plain_kops_frame)

end
