(* ===== verification/Set_Prio.thy ===== *)
theory Set_Prio
  imports Requeue
begin

text \<open>
  Changing priorities, \<^verbatim>\<open>Project 2/core.c\<close> lines 6756 to 7038: priority inheritance (\<^verbatim>\<open>rt_mutex_setprio\<close>),
  nice values (\<^verbatim>\<open>set_user_nice\<close>, \<^verbatim>\<open>can_nice\<close> and the system call \<^verbatim>\<open>nice\<close>).  Balance callbacks that the classes
  queue are left out.
\<close>

subsection \<open>Credentials, limits and security hooks\<close>

record secops =
  capable_nice :: bool \<comment> \<open>\<^verbatim>\<open>capable(CAP_SYS_NICE)\<close> for the current task\<close>
  rlim_nice :: "tid \<Rightarrow> nat"
  rlim_rtprio :: "tid \<Rightarrow> nat"
  cred_uid :: "tid \<Rightarrow> nat"
  cred_euid :: "tid \<Rightarrow> nat"
  security_task_setnice :: "tid \<Rightarrow> int \<Rightarrow> errno option"
  security_task_setscheduler :: "tid \<Rightarrow> errno option"
  security_task_getscheduler :: "tid \<Rightarrow> errno option"

subsection \<open>Taking a task off its run queue and putting it back\<close>

definition take_off :: "kenv \<Rightarrow> kops \<Rightarrow> cpu \<Rightarrow> tid \<Rightarrow> u32 \<Rightarrow> bool \<Rightarrow> bool \<Rightarrow> kernel \<Rightarrow> kernel" where
  "take_off e x c p flags queued running k =
     (let k = (if queued then dequeue_task e x c p flags k else k)
      in if running then put_prev_task x c p k else k)"

definition put_back :: "kenv \<Rightarrow> kops \<Rightarrow> cpu \<Rightarrow> tid \<Rightarrow> u32 \<Rightarrow> bool \<Rightarrow> bool \<Rightarrow> kernel \<Rightarrow> kernel" where
  "put_back e x c p flags queued running k =
     (let k = (if queued then enqueue_task e x c p flags k else k)
      in if running then set_next_task x c p k else k)"

subsection \<open>Priority inheritance\<close>

definition rt_effective_prio :: "kernel \<Rightarrow> tid \<Rightarrow> int \<Rightarrow> int" where
  "rt_effective_prio k p prio = k__rt_effective_prio (map_option (tasks k) (t_pi_top_task (tasks k p))) prio"

definition set_pi_se :: "tid \<Rightarrow> task_struct \<Rightarrow> task_struct" where
  "set_pi_se q t = t\<lparr>t_dl := (t_dl t)\<lparr>dl_pi_se := q\<rparr>\<rparr>"

text \<open>
  The boosting conditions of \<^verbatim>\<open>rt_mutex_setprio\<close>: the new state and the flags for the enqueue.  A priority
  in the deadline range that is not the task's own comes from \<open>pi_task\<close>, which is then not null.
\<close>

definition rt_mutex_boost ::
  "kenv \<Rightarrow> kops \<Rightarrow> tid \<Rightarrow> tid option \<Rightarrow> int \<Rightarrow> int \<Rightarrow> u32 \<Rightarrow> kernel \<Rightarrow> u32 \<times> kernel" where
  "rt_mutex_boost e x p pi_task prio oldprio queue_flag k =
     (if dl_prio e prio then
        (case pi_task of
           Some q \<Rightarrow>
             if \<not> dl_prio e (t_normal_prio (tasks k p)) \<or>
                dl_prio e (t_prio (tasks k q)) \<and> dl_entity_preempt x (t_dl (tasks k q)) (t_dl (tasks k p))
             then (queue_flag OR ENQUEUE_REPLENISH e, upd_task p (set_pi_se (dl_pi_se (t_dl (tasks k q)))) k)
             else (queue_flag, upd_task p (set_pi_se p) k)
         | None \<Rightarrow> (queue_flag, upd_task p (set_pi_se p) k))
      else if rt_prio e prio then
        (if oldprio < prio then queue_flag OR ENQUEUE_HEAD e else queue_flag,
         if dl_prio e oldprio then upd_task p (set_pi_se p) k else k)
      else
        (queue_flag,
         let k = (if dl_prio e oldprio then upd_task p (set_pi_se p) k else k)
         in if rt_prio e oldprio then upd_task p (\<lambda>t. t\<lparr>t_rt := (t_rt t)\<lparr>rt_timeout := 0\<rparr>\<rparr>) k else k))"

definition rt_mutex_setprio :: "kenv \<Rightarrow> kops \<Rightarrow> tid \<Rightarrow> tid option \<Rightarrow> kernel \<Rightarrow> kernel" where
  "rt_mutex_setprio e x p pi_task k =
     (let prio = k__rt_effective_prio (map_option (tasks k) pi_task) (t_normal_prio (tasks k p))
      in if t_pi_top_task (tasks k p) = pi_task \<and> prio = t_prio (tasks k p) \<and> \<not> dl_prio e prio then k
         else
           let c = task_rq k p;
               k = update_rq_clock e x c k;
               k = upd_task p (\<lambda>t. t\<lparr>t_pi_top_task := pi_task\<rparr>) k
           in if prio = t_prio (tasks k p) \<and> \<not> dl_prio e prio then k
              else if p = rq_idle (rqs k c) then k
              else
                let oldprio = t_prio (tasks k p);
                    queue_flag = DEQUEUE_SAVE e OR DEQUEUE_MOVE e OR DEQUEUE_NOCLOCK e;
                    queue_flag = (if oldprio = prio then queue_flag AND NOT (DEQUEUE_MOVE e) else queue_flag);
                    prev_class = t_sched_class (tasks k p);
                    queued = task_on_rq_queued (tasks k p);
                    running = (rq_curr (rqs k c) = p);
                    k = take_off e x c p queue_flag queued running k;
                    (queue_flag, k) = rt_mutex_boost e x p pi_task prio oldprio queue_flag k;
                    k = upd_task p (k__setscheduler_prio e prio) k;
                    k = put_back e x c p queue_flag queued running k
                in check_class_changed e x c p prev_class oldprio k)"

subsection \<open>Nice values\<close>

text \<open>The assignments in the middle of \<^verbatim>\<open>set_user_nice\<close>.\<close>

definition nice_update :: "kenv \<Rightarrow> kops \<Rightarrow> int \<Rightarrow> task_struct \<Rightarrow> task_struct" where
  "nice_update e x nice t =
     (let t = set_load_weight e (reweight_task x) True (t\<lparr>t_static_prio := NICE_TO_PRIO e nice\<rparr>);
          (prio, t) = effective_prio e t
      in t\<lparr>t_prio := prio\<rparr>)"

definition set_user_nice :: "kenv \<Rightarrow> kops \<Rightarrow> tid \<Rightarrow> int \<Rightarrow> kernel \<Rightarrow> kernel" where
  "set_user_nice e x p nice k =
     (if task_nice e (tasks k p) = nice \<or> nice < MIN_NICE e \<or> nice > MAX_NICE e then k
      else
        let c = task_rq k p;
            k = update_rq_clock e x c k
        in if dl_policy e (t_policy (tasks k p)) \<or> rt_policy e (t_policy (tasks k p))
           then upd_task p (\<lambda>t. t\<lparr>t_static_prio := NICE_TO_PRIO e nice\<rparr>) k
           else
             let queued = task_on_rq_queued (tasks k p);
                 running = (rq_curr (rqs k c) = p);
                 k = take_off e x c p (DEQUEUE_SAVE e OR DEQUEUE_NOCLOCK e) queued running k;
                 old_prio = t_prio (tasks k p);
                 k = upd_task p (nice_update e x nice) k;
                 k = put_back e x c p (ENQUEUE_RESTORE e OR ENQUEUE_NOCLOCK e) queued running k
             in op_prio_changed x (t_sched_class (tasks k p)) c p old_prio k)"

text \<open>The comparison with the limit converts \<^verbatim>\<open>nice_rlim\<close> to \<^verbatim>\<open>unsigned long\<close>.\<close>

definition can_nice :: "kenv \<Rightarrow> secops \<Rightarrow> tid \<Rightarrow> int \<Rightarrow> bool" where
  "can_nice e s p nice \<longleftrightarrow>
     unat (of_int (nice_to_rlimit e nice) :: u64) \<le> rlim_nice s p \<or> capable_nice s"

definition sys_nice :: "kenv \<Rightarrow> kops \<Rightarrow> secops \<Rightarrow> int \<Rightarrow> kernel \<Rightarrow> errno option \<times> kernel" where
  "sys_nice e x s increment k =
     (let increment = clamp increment (- NICE_WIDTH e) (NICE_WIDTH e);
          nice = task_nice e (tasks k (current k)) + increment;
          nice = clamp nice (MIN_NICE e) (MAX_NICE e)
      in if increment < 0 \<and> \<not> can_nice e s (current k) nice then (Some EPERM, k)
         else case security_task_setnice s (current k) nice of
             Some err \<Rightarrow> (Some err, k)
           | None \<Rightarrow> (None, set_user_nice e x (current k) nice k))"

subsection \<open>What the queue operations leave alone\<close>

text \<open>A task without the state that the classes and the accounting of clamps own.\<close>

definition task_params :: "task_struct \<Rightarrow> task_struct" where
  "task_params t = (task_core t)\<lparr>t_uclamp := (\<lambda>_. zero_uclamp_se)\<rparr>"

definition params_same :: "kernel \<Rightarrow> kernel \<Rightarrow> bool" where
  "params_same k k' \<longleftrightarrow> (\<forall>p. task_params (tasks k' p) = task_params (tasks k p)) \<and>
     (\<forall>c. rq_curr (rqs k' c) = rq_curr (rqs k c) \<and> rq_idle (rqs k' c) = rq_idle (rqs k c) \<and>
       rq_prev_mm (rqs k' c) = rq_prev_mm (rqs k c)) \<and> this_cpu k' = this_cpu k \<and>
     task_groups k' = task_groups k \<and> uclamp_default k' = uclamp_default k \<and> kfix k' = kfix k"

lemma params_same_refl [simp]: "params_same k k"
  by (simp add: params_same_def)

lemma params_same_trans: "params_same k k' \<Longrightarrow> params_same k' k'' \<Longrightarrow> params_same k k''"
  by (simp add: params_same_def)

lemma sched_frame_params: "sched_frame k k' \<Longrightarrow> params_same k k'"
  using sched_frame_task [of k k'] sched_frame_rq [of k k'] sched_frame_kernel [of k k']
  by (simp add: params_same_def task_params_def)

lemma task_params_sel:
  assumes "task_params t = task_params t'"
  shows "t_prio t = t_prio t'" "t_static_prio t = t_static_prio t'" "t_normal_prio t = t_normal_prio t'"
    "t_rt_priority t = t_rt_priority t'" "t_policy t = t_policy t'" "t_sched_class t = t_sched_class t'"
    "t_uclamp_req t = t_uclamp_req t'" "t_on_rq t = t_on_rq t'" "t_cpu t = t_cpu t'"
    "t_sched_task_group t = t_sched_task_group t'" "t_my_fixed_priority t = t_my_fixed_priority t'"
    "t_pi_top_task t = t_pi_top_task t'" "se_load (t_se t) = se_load (t_se t')"
    "t_sched_reset_on_fork t = t_sched_reset_on_fork t'"
  using arg_cong [OF assms, of t_prio] arg_cong [OF assms, of t_static_prio] arg_cong [OF assms, of t_normal_prio]
    arg_cong [OF assms, of t_rt_priority] arg_cong [OF assms, of t_policy] arg_cong [OF assms, of t_sched_class]
    arg_cong [OF assms, of t_uclamp_req] arg_cong [OF assms, of t_on_rq] arg_cong [OF assms, of t_cpu]
    arg_cong [OF assms, of t_sched_task_group] arg_cong [OF assms, of t_my_fixed_priority]
    arg_cong [OF assms, of t_pi_top_task] arg_cong [OF assms, of "\<lambda>t. se_load (t_se t)"]
    arg_cong [OF assms, of t_sched_reset_on_fork]
  by (simp_all add: task_params_def task_core_def)

lemma task_params_sel2:
  assumes "task_params t = task_params t'"
  shows "t_cpus_mask t = t_cpus_mask t'"
    "t_cpus_ptr t = t_cpus_ptr t'"
    "t_migration_disabled t = t_migration_disabled t'"
    "t_migration_pending t = t_migration_pending t'"
    "t_state t = t_state t'"
    "t_on_cpu t = t_on_cpu t'"
    "t_flags t = t_flags t'"
    "t_wake_cpu t = t_wake_cpu t'"
    "t_nr_cpus_allowed t = t_nr_cpus_allowed t'"
    "t_migration_flags t = t_migration_flags t'"
    "t_core_cookie t = t_core_cookie t'"
    "t_mm t = t_mm t'"
    "t_active_mm t = t_active_mm t'"
    "t_wake_q t = t_wake_q t'"
    "t_usage t = t_usage t'"
  using arg_cong [OF assms, of t_cpus_mask]
    arg_cong [OF assms, of t_cpus_ptr]
    arg_cong [OF assms, of t_migration_disabled]
    arg_cong [OF assms, of t_migration_pending]
    arg_cong [OF assms, of t_state]
    arg_cong [OF assms, of t_on_cpu]
    arg_cong [OF assms, of t_flags]
    arg_cong [OF assms, of t_wake_cpu]
    arg_cong [OF assms, of t_nr_cpus_allowed]
    arg_cong [OF assms, of t_migration_flags]
    arg_cong [OF assms, of t_core_cookie]
    arg_cong [OF assms, of t_mm]
    arg_cong [OF assms, of t_active_mm]
    arg_cong [OF assms, of t_wake_q]
    arg_cong [OF assms, of t_usage]
  by (simp_all add: task_params_def task_core_def)

lemma task_params_upd:
  "task_params (t\<lparr>t_pi_top_task := v\<rparr>) = (task_params t)\<lparr>t_pi_top_task := v\<rparr>"
  "task_params (k__setscheduler_prio e prio t) = k__setscheduler_prio e prio (task_params t)"
  by (simp_all add: task_params_def task_core_def k__setscheduler_prio_def)

lemma task_params_pi: "(task_params t)\<lparr>t_pi_top_task := t_pi_top_task t\<rparr> = task_params t"
  by (simp add: task_params_def task_core_def)

lemma params_same_upd_rq:
  "(\<And>rq. rq_curr (f rq) = rq_curr rq \<and> rq_idle (f rq) = rq_idle rq \<and> rq_prev_mm (f rq) = rq_prev_mm rq) \<Longrightarrow> params_same k (upd_rq d f k)"
  by (simp add: params_same_def upd_rq_def kfix_def)

lemma params_same_seq_inc: "params_same k (core_task_seq_inc d k)"
  unfolding core_task_seq_inc_def by (rule params_same_upd_rq) simp

lemma params_same_tree: "params_same k (upd_rq d (\<lambda>rq. rq\<lparr>rq_core_tree := f rq\<rparr>) k)"
  by (rule params_same_upd_rq) simp

lemma params_same_core_enqueue: "params_same k (sched_core_enqueue e x d p k)"
  using params_same_seq_inc params_same_trans [OF params_same_seq_inc params_same_tree]
  by (simp add: sched_core_enqueue_def Let_def)

lemma params_same_core_dequeue: "params_same k (sched_core_dequeue e x d p f k)"
proof -
  let ?k1 = "core_task_seq_inc d k"
  let ?k2 = "if p \<in> set (rq_core_tree (rqs ?k1 d))
    then upd_rq d (\<lambda>rq. rq\<lparr>rq_core_tree := rb_erase x p (rq_core_tree rq)\<rparr>) ?k1 else ?k1"
  have "params_same k ?k2"
    using params_same_seq_inc params_same_trans [OF params_same_seq_inc params_same_tree] by simp
  moreover have "params_same ?k2 (resched_curr d ?k2)" by (rule sched_frame_params) simp
  ultimately have "params_same k (resched_curr d ?k2)" by (rule params_same_trans)
  with \<open>params_same k ?k2\<close> show ?thesis unfolding sched_core_dequeue_def Let_def by (simp only: if_split) blast
qed

text \<open>The write-back of the accounting of clamps.\<close>

lemma params_same_write:
  assumes "t = (tasks k p)\<lparr>t_uclamp := f\<rparr>" and "rq_curr rq = rq_curr (rqs k c)" and "rq_idle rq = rq_idle (rqs k c)"
    and "rq_prev_mm rq = rq_prev_mm (rqs k c)"
  shows "params_same k (upd_task p (\<lambda>_. t) (upd_rq c (\<lambda>_. rq) k))"
  using assms by (simp add: params_same_def upd_task_def upd_rq_def task_params_def task_core_def kfix_def)

lemma uclamp_rq_inc_rq:
  assumes "uclamp_rq_inc e k rq t = (rq', t')"
  shows "rq_curr rq' = rq_curr rq" "rq_idle rq' = rq_idle rq" "rq_prev_mm rq' = rq_prev_mm rq"
proof -
  let ?i = "uclamp_rq_inc_id e k"
  have eq: "rq' = fst (uclamp_rq_inc e k rq t)" using assms by simp
  have "rq_curr (fst (?i rq t i)) = rq_curr rq \<and> rq_idle (fst (?i rq t i)) = rq_idle rq \<and> rq_prev_mm (fst (?i rq t i)) = rq_prev_mm rq" for rq t i
    by (simp add: uclamp_rq_inc_id_def Let_def upd_bucket_def set_rq_clamp_def uclamp_idle_reset_def)
  then show "rq_curr rq' = rq_curr rq" "rq_idle rq' = rq_idle rq" "rq_prev_mm rq' = rq_prev_mm rq"
    by (simp_all add: eq uclamp_rq_inc_def fold_clamp_ids case_prod_unfold Let_def)
qed

lemma uclamp_rq_dec_rq:
  assumes "uclamp_rq_dec e k rq t = (rq', t')"
  shows "rq_curr rq' = rq_curr rq" "rq_idle rq' = rq_idle rq" "rq_prev_mm rq' = rq_prev_mm rq"
proof -
  let ?d = "uclamp_rq_dec_id e"
  have "rq_curr (snd (uclamp_rq_max_value e rq i v)) = rq_curr rq \<and>
      rq_idle (snd (uclamp_rq_max_value e rq i v)) = rq_idle rq \<and>
      rq_prev_mm (snd (uclamp_rq_max_value e rq i v)) = rq_prev_mm rq" for rq i v
    by (simp add: uclamp_rq_max_value_def uclamp_idle_value_def split: option.split)
  moreover have eq: "rq' = fst (uclamp_rq_dec e k rq t)" using assms by simp
  ultimately have "rq_curr (fst (?d rq t i)) = rq_curr rq \<and> rq_idle (fst (?d rq t i)) = rq_idle rq \<and> rq_prev_mm (fst (?d rq t i)) = rq_prev_mm rq" for rq t i
    by (simp add: uclamp_rq_dec_id_def Let_def upd_bucket_def set_rq_clamp_def case_prod_unfold)
  then show "rq_curr rq' = rq_curr rq" "rq_idle rq' = rq_idle rq" "rq_prev_mm rq' = rq_prev_mm rq"
    by (simp_all add: eq uclamp_rq_dec_def fold_clamp_ids case_prod_unfold)
qed

lemma params_same_enqueue:
  assumes "kops_frame x"
  shows "params_same k (enqueue_task e x c p f k)"
proof -
  let ?k1 = "if \<not> flag_set f (ENQUEUE_NOCLOCK e) then update_rq_clock e x c k else k"
  obtain rq t where inc: "uclamp_rq_inc e ?k1 (rqs ?k1 c) (tasks ?k1 p) = (rq, t)" by force
  let ?k2 = "upd_task p (\<lambda>_. t) (upd_rq c (\<lambda>_. rq) ?k1)"
  let ?k3 = "op_enqueue_task x (t_sched_class t) c p f ?k2"
  have a: "params_same k ?k1" by (simp add: sched_frame_params)
  have b: "params_same ?k1 ?k2"
    by (rule params_same_write [OF uclamp_rq_inc_task [OF inc] uclamp_rq_inc_rq [OF inc]])
  have c: "params_same ?k2 ?k3" using assms by (intro sched_frame_params) (simp add: kops_frame_def)
  have "params_same k ?k3" by (rule params_same_trans [OF params_same_trans [OF a b] c])
  moreover have "enqueue_task e x c p f k = (if sched_core_enabled ?k3 c then sched_core_enqueue e x c p ?k3 else ?k3)"
    by (simp add: enqueue_task_def Let_def inc cong: if_cong split del: if_split)
  ultimately show ?thesis
    using params_same_trans [OF _ params_same_core_enqueue, of k ?k3] by (cases "sched_core_enabled ?k3 c") simp_all
qed

lemma params_same_dequeue:
  assumes "kops_frame x"
  shows "params_same k (dequeue_task e x c p f k)"
proof -
  let ?k0 = "if sched_core_enabled k c then sched_core_dequeue e x c p f k else k"
  let ?k1 = "if \<not> flag_set f (DEQUEUE_NOCLOCK e) then update_rq_clock e x c ?k0 else ?k0"
  obtain rq t where dec: "uclamp_rq_dec e ?k1 (rqs ?k1 c) (tasks ?k1 p) = (rq, t)" by force
  let ?k2 = "upd_task p (\<lambda>_. t) (upd_rq c (\<lambda>_. rq) ?k1)"
  let ?k3 = "op_dequeue_task x (t_sched_class t) c p f ?k2"
  have o: "params_same k ?k0" by (simp add: params_same_core_dequeue)
  have a: "params_same ?k0 ?k1" by (rule sched_frame_params) simp
  have b: "params_same ?k1 ?k2"
    by (rule params_same_write [OF uclamp_rq_dec_task(1) [OF dec] uclamp_rq_dec_rq [OF dec]])
  have c: "params_same ?k2 ?k3" using assms by (intro sched_frame_params) (simp add: kops_frame_def)
  have "params_same k ?k3"
    by (rule params_same_trans [OF params_same_trans [OF params_same_trans [OF o a] b] c])
  moreover have "dequeue_task e x c p f k = ?k3"
    by (simp add: dequeue_task_def Let_def dec split del: if_split)
  ultimately show ?thesis by simp
qed

lemma sched_frame_callbacks:
  assumes "kops_frame x"
  shows "sched_frame k (put_prev_task x c p k)" "sched_frame k (set_next_task x c p k)"
    "sched_frame k (op_prio_changed x s c p i k)" "sched_frame k (check_class_changed e x c p prev oldprio k)"
proof -
  show "sched_frame k (put_prev_task x c p k)" "sched_frame k (set_next_task x c p k)"
    "sched_frame k (op_prio_changed x s c p i k)"
    using assms by (simp_all add: kops_frame_def put_prev_task_def set_next_task_def)
  have to: "sched_frame k (op_switched_to x s c p k)" "sched_frame k (op_prio_changed x s c p i k)" for s k i
    using assms by (simp_all add: kops_frame_def)
  have fr: "sched_frame k (case op_switched_from x prev of None \<Rightarrow> k | Some f \<Rightarrow> f c p k)" (is "sched_frame k ?k'")
    using assms by (simp add: kops_frame_def split: option.split)
  have "sched_frame k (op_switched_to x s c p ?k')" for s using fr to(1) by (rule sched_frame_trans)
  then show "sched_frame k (check_class_changed e x c p prev oldprio k)"
    by (simp add: check_class_changed_def Let_def to)
qed

lemma params_same_take_off: "kops_frame x \<Longrightarrow> params_same k (take_off e x c p f queued running k)"
  using params_same_dequeue [of x k e c p f] params_same_trans [OF _ sched_frame_params [OF sched_frame_callbacks(1)]]
  by (simp add: take_off_def Let_def)

lemma params_same_put_back: "kops_frame x \<Longrightarrow> params_same k (put_back e x c p f queued running k)"
  using params_same_enqueue [of x k e c p f] params_same_trans [OF _ sched_frame_params [OF sched_frame_callbacks(2)]]
  by (simp add: put_back_def Let_def)

lemma acc_same_take_off:
  "kops_frame x \<Longrightarrow> acc_same c (if queued then dequeue_task e x c p f k else k) (take_off e x c p f queued running k)"
  by (simp add: take_off_def Let_def sched_frame_acc [OF sched_frame_callbacks(1)])

lemma acc_same_put_back:
  "kops_frame x \<Longrightarrow> acc_same c (if queued then enqueue_task e x c p f k else k) (put_back e x c p f queued running k)"
  by (simp add: put_back_def Let_def sched_frame_acc [OF sched_frame_callbacks(2)])

text \<open>The accounting of clamps over a whole change.\<close>

context sched_conf
begin

lemmas requeue_cycle = rc.cycle

end

lemma acc_requeue:
  assumes "uclamp_conf e" and "kops_frame x" and "acc e c Q k" and "queued \<longleftrightarrow> p \<in> Q"
    and "acc_change e c p (take_off e x c p f queued running k) k3"
    and "acc_same c (put_back e x c p f' queued running k3) k5"
  shows "acc e c Q k5"
proof -
  have conf: "sched_conf e x" using assms(1,2) by (simp add: sched_conf_def sched_conf_axioms_def)
  show ?thesis
    using sched_conf.requeue_cycle [OF conf assms(3,4) acc_same_take_off [OF assms(2)] assms(5)]
      acc_same_trans [OF acc_same_put_back [OF assms(2)] assms(6)] by blast
qed

subsection \<open>The effect on the task\<close>

text \<open>The load weight of a fair or idle task is the one of its static priority.\<close>

definition weight_wf :: "kenv \<Rightarrow> task_struct \<Rightarrow> bool" where
  "weight_wf e t \<longleftrightarrow>
     (idle_policy e (t_policy t) \<longrightarrow> se_load (t_se t) = \<lparr>lw_weight = scale_load e (WEIGHT_IDLEPRIO e), lw_inv_weight = WMULT_IDLEPRIO e\<rparr>) \<and>
     (fair_policy e (t_policy t) \<longrightarrow> se_load (t_se t) = prio_load e (t_static_prio t - MAX_RT_PRIO e))"

lemma params_cong:
  assumes "task_params t = task_params t'"
  shows "prio_wf e t = prio_wf e t'" "weight_wf e t = weight_wf e t'" "task_nice e t = task_nice e t'"
  by (simp_all add: prio_wf_def normal_prio_def weight_wf_def task_nice_def task_params_sel [OF assms])

text \<open>
  One change between taking a task off its run queue and putting it back: the other tasks keep their
  parameters, and the task ends with those that the change gives it.
\<close>

lemma cycle_params:
  assumes "kops_frame x"
    and "params_same k k1" and "params_same (upd_task p f k1) k2"
  shows "\<exists>t. task_params t = task_params (tasks k p) \<and> task_params (tasks k2 p) = task_params (f t)"
    and "q \<noteq> p \<Longrightarrow> task_params (tasks k2 q) = task_params (tasks k q)"
proof -
  show "\<exists>t. task_params t = task_params (tasks k p) \<and> task_params (tasks k2 p) = task_params (f t)"
    using assms(2,3) by (intro exI [of _ "tasks k1 p"]) (simp add: params_same_def)
  show "q \<noteq> p \<Longrightarrow> task_params (tasks k2 q) = task_params (tasks k q)"
    using assms(2,3) by (simp add: params_same_def)
qed

lemma set_load_weight_params:
  assumes "kops_frame x"
  shows "\<exists>s. set_load_weight e (reweight_task x) b t = t\<lparr>t_se := s\<rparr>"
proof -
  have "\<exists>s. reweight_task x i t = t\<lparr>t_se := s\<rparr>" for i using assms by (simp add: kops_frame_def)
  then show ?thesis by (auto simp: set_load_weight_def Let_def)
qed

lemma set_load_weight_load:
  assumes "policy_h e" and "reweight_law e x"
  shows "se_load (t_se (set_load_weight e (reweight_task x) b t)) =
    (if idle_policy e (t_policy t) then \<lparr>lw_weight = scale_load e (WEIGHT_IDLEPRIO e), lw_inv_weight = WMULT_IDLEPRIO e\<rparr>
     else prio_load e (t_static_prio t - MAX_RT_PRIO e))"
  using assms(2) by (simp add: set_load_weight_def Let_def reweight_law_def)

lemma nice_update_eq:
  fixes e x nice t
  defines "u \<equiv> set_load_weight e (reweight_task x) True (t\<lparr>t_static_prio := NICE_TO_PRIO e nice\<rparr>)"
  assumes "kops_frame x"
  shows "nice_update e x nice t = u\<lparr>t_normal_prio := normal_prio e u,
      t_prio := (if rt_prio e (t_prio t) then t_prio t else normal_prio e u)\<rparr>"
    and "\<exists>s. u = t\<lparr>t_static_prio := NICE_TO_PRIO e nice, t_se := s\<rparr>"
proof -
  show u: "\<exists>s. u = t\<lparr>t_static_prio := NICE_TO_PRIO e nice, t_se := s\<rparr>"
    unfolding u_def using set_load_weight_params [OF assms(2)] by blast
  then have "t_prio u = t_prio t" by auto
  then show "nice_update e x nice t = u\<lparr>t_normal_prio := normal_prio e u,
      t_prio := (if rt_prio e (t_prio t) then t_prio t else normal_prio e u)\<rparr>"
    by (simp add: nice_update_def effective_prio_def u_def [symmetric] Let_def)
qed

lemma nice_update_wf:
  assumes "prio_h e" "policy_h e" "kops_frame x" "reweight_law e x" "prio_wf e t"
    and "MIN_NICE e \<le> nice" "nice \<le> MAX_NICE e" "\<not> dl_policy e (t_policy t)" "\<not> rt_policy e (t_policy t)"
  shows "prio_wf e (nice_update e x nice t)" and "weight_wf e (nice_update e x nice t)"
    and "task_nice e (nice_update e x nice t) = nice"
    and "t_prio (nice_update e x nice t) = (if t_prio t < 100 then t_prio t else nice + 120)"
    and "t_policy (nice_update e x nice t) = t_policy t"
proof -
  note h = prio_h.prio_h_simps [OF assms(1)]
  let ?u = "set_load_weight e (reweight_task x) True (t\<lparr>t_static_prio := NICE_TO_PRIO e nice\<rparr>)"
  note eq = nice_update_eq(1) [OF assms(3), of e nice t]
  obtain s where u: "?u = t\<lparr>t_static_prio := NICE_TO_PRIO e nice, t_se := s\<rparr>"
    using nice_update_eq(2) [OF assms(3)] by blast
  have n: "normal_prio e ?u = nice + 120"
    unfolding u using assms(8,9) by (simp add: normal_prio_def k__normal_prio_def h)
  show "t_policy (nice_update e x nice t) = t_policy t"
    "t_prio (nice_update e x nice t) = (if t_prio t < 100 then t_prio t else nice + 120)"
    "task_nice e (nice_update e x nice t) = nice"
    unfolding eq n by (simp_all only: u) (simp_all add: task_nice_def h)
  show "weight_wf e (nice_update e x nice t)"
    using set_load_weight_load [OF assms(2,4), of True "t\<lparr>t_static_prio := NICE_TO_PRIO e nice\<rparr>"]
    unfolding eq u by (auto simp: weight_wf_def policy_h.policy_h_simps [OF assms(2)])
  show "prio_wf e (nice_update e x nice t)"
    using assms(5-9) unfolding eq n u
    by (auto simp: prio_wf_def h normal_prio_def k__normal_prio_def split: if_splits)
qed

text \<open>The general case of \<^verbatim>\<open>set_user_nice\<close>, as a cycle around \<open>nice_update\<close>.\<close>

lemma set_user_nice_cycle:
  fixes e x p nice k
  defines "c \<equiv> task_rq k p" and "queued \<equiv> task_on_rq_queued (tasks k p)" and "running \<equiv> rq_curr (rqs k (task_rq k p)) = p"
  defines "k1 \<equiv> take_off e x c p (DEQUEUE_SAVE e OR DEQUEUE_NOCLOCK e) queued running (update_rq_clock e x c k)"
  defines "k2 \<equiv> put_back e x c p (ENQUEUE_RESTORE e OR ENQUEUE_NOCLOCK e) queued running (upd_task p (nice_update e x nice) k1)"
  assumes "task_nice e (tasks k p) \<noteq> nice" "MIN_NICE e \<le> nice" "nice \<le> MAX_NICE e"
    and "\<not> dl_policy e (t_policy (tasks k p))" "\<not> rt_policy e (t_policy (tasks k p))"
  shows "set_user_nice e x p nice k = op_prio_changed x (t_sched_class (tasks k2 p)) c p (t_prio (tasks k1 p)) k2"
proof -
  let ?k0 = "update_rq_clock e x c k"
  have "sched_frame k ?k0" by simp
  note sel = task_core_sel [OF sched_frame_task [OF this]] and rq = sched_frame_rq [OF this]
  show ?thesis
    using assms(6-10)
    by (simp add: set_user_nice_def Let_def c_def [symmetric] sel rq task_on_rq_queued_def
        k1_def k2_def queued_def running_def)
qed

lemma set_user_nice_cases:
  fixes e x p nice k
  defines "k' \<equiv> set_user_nice e x p nice k"
  assumes "prio_h e" and "policy_h e" and "kops_frame x" and "reweight_law e x"
    and "prio_wf e (tasks k p)" and "weight_wf e (tasks k p)"
  shows "(if MIN_NICE e \<le> nice \<and> nice \<le> MAX_NICE e
      then task_nice e (tasks k' p) = nice \<and> prio_wf e (tasks k' p) \<and> weight_wf e (tasks k' p) \<and>
        t_prio (tasks k' p) = (if t_prio (tasks k p) < 100 \<or> task_nice e (tasks k p) = nice
          then t_prio (tasks k p) else nice + 120)
      else k' = k) \<and>
    (\<forall>q. q \<noteq> p \<longrightarrow> task_params (tasks k' q) = task_params (tasks k q))"
proof -
  note h = prio_h.prio_h_simps [OF assms(2)]
  let ?t = "tasks k p"
  consider (range) "\<not> (MIN_NICE e \<le> nice \<and> nice \<le> MAX_NICE e)"
    | (same) "task_nice e ?t = nice" "MIN_NICE e \<le> nice" "nice \<le> MAX_NICE e"
    | (rt) "task_nice e ?t \<noteq> nice" "MIN_NICE e \<le> nice" "nice \<le> MAX_NICE e"
       "dl_policy e (t_policy ?t) \<or> rt_policy e (t_policy ?t)"
    | (cycle) "task_nice e ?t \<noteq> nice" "MIN_NICE e \<le> nice" "nice \<le> MAX_NICE e"
       "\<not> dl_policy e (t_policy ?t)" "\<not> rt_policy e (t_policy ?t)" by blast
  then show ?thesis
  proof cases
    case range
    then show ?thesis by (auto simp: k'_def set_user_nice_def)
  next
    case same
    then show ?thesis using assms(6,7) by (auto simp: k'_def set_user_nice_def task_nice_def h)
  next
    case rt
    let ?k0 = "update_rq_clock e x (task_rq k p) k"
    have fr: "sched_frame k ?k0" by simp
    note sel = task_core_sel [OF sched_frame_task [OF fr]]
    have k': "k' = upd_task p (\<lambda>t. t\<lparr>t_static_prio := NICE_TO_PRIO e nice\<rparr>) ?k0"
      using rt by (auto simp: k'_def set_user_nice_def Let_def sel)
    have "normal_prio e ((tasks ?k0 p)\<lparr>t_static_prio := NICE_TO_PRIO e nice\<rparr>) = normal_prio e ?t"
      using rt(4) by (auto simp: normal_prio_def k__normal_prio_def sel)
    moreover have "t_prio ?t < 100"
      using rt(4) normal_prio_range [OF assms(2,3,6)] assms(6) by (auto simp: prio_wf_def split: if_splits)
    moreover have "\<not> idle_policy e (t_policy ?t)" "\<not> fair_policy e (t_policy ?t)"
      using rt(4) by (auto simp: policy_h.policy_h_simps [OF assms(3)])
    moreover have "task_params (tasks k' q) = task_params (tasks k q)" if "q \<noteq> p" for q
      using that sched_frame_params [OF fr] by (simp add: k' params_same_def)
    ultimately show ?thesis
      using rt(2,3) assms(6) by (simp add: k' prio_wf_def weight_wf_def task_nice_def sel h)
  next
    case cycle
    let ?c = "task_rq k p" and ?q = "task_on_rq_queued ?t" and ?r = "rq_curr (rqs k (task_rq k p)) = p"
    let ?k1 = "take_off e x ?c p (DEQUEUE_SAVE e OR DEQUEUE_NOCLOCK e) ?q ?r (update_rq_clock e x ?c k)"
    let ?k2 = "put_back e x ?c p (ENQUEUE_RESTORE e OR ENQUEUE_NOCLOCK e) ?q ?r (upd_task p (nice_update e x nice) ?k1)"
    have 1: "params_same k ?k1"
      using params_same_trans [OF sched_frame_params params_same_take_off] assms(4) by simp
    have 2: "params_same (upd_task p (nice_update e x nice) ?k1) k'"
      unfolding k'_def set_user_nice_cycle [OF cycle]
      using params_same_trans [OF params_same_put_back sched_frame_params] sched_frame_callbacks(3) assms(4) by blast
    obtain t where t: "task_params t = task_params ?t" "task_params (tasks k' p) = task_params (nice_update e x nice t)"
      using cycle_params(1) [OF assms(4) 1 2] by blast
    have wf: "prio_wf e t" and pol: "\<not> dl_policy e (t_policy t)" "\<not> rt_policy e (t_policy t)"
      using params_cong(1) [OF t(1)] assms(6) cycle(4,5) by (simp_all add: task_params_sel [OF t(1)])
    note upd = nice_update_wf [OF assms(2-5) wf cycle(2,3) pol]
    show ?thesis
      using cycle(1-3) upd params_cong [OF t(2)] cycle_params(2) [OF assms(4) 1 2]
      by (simp add: task_params_sel(1) [OF t(2)] task_params_sel(1) [OF t(1)])
  qed
qed

lemma set_user_nice_range:
  assumes "prio_h e" and "policy_h e" and "kops_frame x" and "reweight_law e x"
    and "prio_wf e (tasks k p)" and "weight_wf e (tasks k p)" and "-20 \<le> nice" and "nice \<le> 19"
  shows "task_nice e (tasks (set_user_nice e x p nice k) p) = nice"
  using set_user_nice_cases [OF assms(1-6), of nice] assms(7,8) prio_h.prio_h_simps [OF assms(1)] by simp


definition sample_prio_kernel :: kernel where
  "sample_prio_kernel = zero_kernel\<lparr>tasks := (\<lambda>p. if p = 2 then sample_rt else
     sample_fair\<lparr>t_se := (t_se sample_fair)\<lparr>se_load := prio_load kenv_v5_17 20\<rparr>\<rparr>)\<rparr>"

lemma sample_prio_kernel_wf:
  "prio_wf kenv_v5_17 (tasks sample_prio_kernel p)" "weight_wf kenv_v5_17 (tasks sample_prio_kernel p)"
  using sample_prio_wf
  by (simp_all add: sample_prio_kernel_def zero_kernel_def weight_wf_def prio_wf_def normal_prio_def sample_fair_def
      sample_rt_def zero_task_def v5_17_policy.policy_h_simps v5_17_prio.prio_h_simps)


subsection \<open>The effect of priority inheritance\<close>

lemma sched_frame_boost: "sched_frame k (snd (rt_mutex_boost e x p pi prio oldprio f k))"
proof -
  have a: "sched_frame k (upd_task p (set_pi_se q) k)" for q k
    by (rule sched_frame_upd_task) (simp add: task_core_def set_pi_se_def)
  have b: "sched_frame k (upd_task p (\<lambda>t. t\<lparr>t_rt := (t_rt t)\<lparr>rt_timeout := 0\<rparr>\<rparr>) k)" for k
    by (rule sched_frame_upd_task) (simp add: task_core_def)
  show ?thesis
    using sched_frame_trans [OF a b] by (simp add: rt_mutex_boost_def a b Let_def split: option.split)
qed

lemma setprio_wf:
  assumes "prio_h e" and "prio_wf e t" and "-1 \<le> prio" and "prio \<le> t_normal_prio t"
  shows "prio_wf e (k__setscheduler_prio e prio t)"
  using assms by (simp add: prio_wf_def k__setscheduler_prio_def normal_prio_def)

lemma rt_mutex_setprio_cycle:
  fixes e x p pi_task k
  defines "prio \<equiv> k__rt_effective_prio (map_option (tasks k) pi_task) (t_normal_prio (tasks k p))" and "c \<equiv> task_rq k p"
  assumes "kops_frame x" and "\<not> (prio = t_prio (tasks k p) \<and> \<not> dl_prio e prio)" and "p \<noteq> rq_idle (rqs k c)"
  shows "\<exists>k0 f f' queued running k2 k3. k0 = upd_task p (\<lambda>t. t\<lparr>t_pi_top_task := pi_task\<rparr>) (update_rq_clock e x c k) \<and>
     (queued \<longleftrightarrow> task_on_rq_queued (tasks k p)) \<and>
     sched_frame (take_off e x c p f queued running k0) k2 \<and>
     k3 = upd_task p (k__setscheduler_prio e prio) k2 \<and>
     sched_frame (put_back e x c p f' queued running k3) (rt_mutex_setprio e x p pi_task k)"
proof -
  let ?k1 = "update_rq_clock e x c k"
  let ?k0 = "upd_task p (\<lambda>t. t\<lparr>t_pi_top_task := pi_task\<rparr>) ?k1"
  have fr: "sched_frame k ?k1" by simp
  note sel = task_core_sel [OF sched_frame_task [OF fr]] and rq = sched_frame_rq [OF fr]
  let ?old = "t_prio (tasks k p)" and ?q = "task_on_rq_queued (tasks k p)" and ?r = "rq_curr (rqs k c) = p"
  let ?f0 = "DEQUEUE_SAVE e OR DEQUEUE_MOVE e OR DEQUEUE_NOCLOCK e"
  let ?f = "if ?old = prio then ?f0 AND NOT (DEQUEUE_MOVE e) else ?f0"
  let ?ka = "take_off e x c p ?f ?q ?r ?k0"
  let ?b = "rt_mutex_boost e x p pi_task prio ?old ?f ?ka"
  let ?kd = "put_back e x c p (fst ?b) ?q ?r (upd_task p (k__setscheduler_prio e prio) (snd ?b))"
  have "rt_mutex_setprio e x p pi_task k = check_class_changed e x c p (t_sched_class (tasks k p)) ?old ?kd"
    using assms(4,5)
    by (cases "prio = ?old")
      (simp_all add: rt_mutex_setprio_def prio_def [symmetric] c_def [symmetric] Let_def sel rq task_on_rq_queued_def
        case_prod_unfold)
  then have "sched_frame ?kd (rt_mutex_setprio e x p pi_task k)" by (simp add: sched_frame_callbacks [OF assms(3)])
  then show ?thesis
    by (intro exI conjI) (rule refl, rule refl, rule sched_frame_boost, rule refl)
qed

text \<open>
  C35.  Priority inheritance gives a task the higher of its normal priority and its donor's priority, and the
  scheduling class of that priority; the normal priority stays, so that removing the donor restores it.
  The other tasks keep their parameters.
\<close>

theorem rt_mutex_setprio_effect:
  fixes e x p pi_task k
  defines "k' \<equiv> rt_mutex_setprio e x p pi_task k"
  assumes "prio_h e" and "kops_frame x" and "prio_wf e (tasks k p)" and "p \<noteq> rq_idle (rqs k (task_rq k p))"
    and "\<forall>q. pi_task = Some q \<longrightarrow> -1 \<le> t_prio (tasks k q)"
  shows "t_prio (tasks k' p) = (case pi_task of None \<Rightarrow> t_normal_prio (tasks k p)
       | Some q \<Rightarrow> min (t_normal_prio (tasks k p)) (t_prio (tasks k q))) \<and>
    t_normal_prio (tasks k' p) = t_normal_prio (tasks k p) \<and> prio_wf e (tasks k' p) \<and>
    t_pi_top_task (tasks k' p) = pi_task \<and>
    (\<forall>q. q \<noteq> p \<longrightarrow> task_params (tasks k' q) = task_params (tasks k q))"
proof -
  let ?t = "tasks k p" and ?c = "task_rq k p"
  define prio where "prio = k__rt_effective_prio (map_option (tasks k) pi_task) (t_normal_prio ?t)"
  have le: "-1 \<le> prio" "prio \<le> t_normal_prio ?t"
    using assms(4,6) by (auto simp: prio_def k__rt_effective_prio_def prio_wf_def split: option.split)
  have val: "prio = (case pi_task of None \<Rightarrow> t_normal_prio ?t | Some q \<Rightarrow> min (t_normal_prio ?t) (t_prio (tasks k q)))"
    by (simp add: prio_def k__rt_effective_prio_def split: option.split)
  let ?k1 = "update_rq_clock e x ?c k" and ?pi = "\<lambda>t. t\<lparr>t_pi_top_task := pi_task\<rparr>"
  have fr: "params_same k ?k1" by (simp add: sched_frame_params)
  show ?thesis
  proof (cases "prio = t_prio ?t \<and> \<not> dl_prio e prio")
    case True
    have "k' = k \<and> t_pi_top_task ?t = pi_task \<or> k' = upd_task p ?pi ?k1"
      using True task_core_sel(1) [OF sched_frame_task [OF sched_frame_update_rq_clock], of e x ?c k p]
      by (auto simp: k'_def rt_mutex_setprio_def prio_def [symmetric] Let_def)
    then have par: "task_params (tasks k' p) = task_params (?pi ?t)"
      "\<And>q. q \<noteq> p \<Longrightarrow> task_params (tasks k' q) = task_params (tasks k q)"
      using fr by (auto simp: params_same_def task_params_upd task_params_pi)
    then show ?thesis
      using True assms(4) by (auto simp: val task_params_sel [OF par(1)] params_cong(1) [OF par(1)] prio_wf_def normal_prio_def)
  next
    case False
    obtain k0 f f' queued running k2 k3 where k0: "k0 = upd_task p ?pi ?k1"
      and k2: "sched_frame (take_off e x ?c p f queued running k0) k2"
      and k3: "k3 = upd_task p (k__setscheduler_prio e prio) k2"
      and k': "sched_frame (put_back e x ?c p f' queued running k3) k'"
      unfolding k'_def using rt_mutex_setprio_cycle [OF assms(3), where k = k and p = p and pi_task = pi_task and e = e] False assms(5)
      by (auto simp: prio_def)
    have p2: "params_same k0 k2"
      by (rule params_same_trans [OF params_same_take_off [OF assms(3)] sched_frame_params [OF k2]])
    have p3: "params_same k3 k'"
      by (rule params_same_trans [OF params_same_put_back [OF assms(3)] sched_frame_params [OF k']])
    have par: "task_params (tasks k' p) = task_params (k__setscheduler_prio e prio (?pi ?t))"
      "\<And>q. q \<noteq> p \<Longrightarrow> task_params (tasks k' q) = task_params (tasks k q)"
      using fr p2 p3 by (simp_all add: params_same_def task_params_upd k0 k3)
    have wf: "prio_wf e (?pi ?t)" using assms(4) by (simp add: prio_wf_def normal_prio_def)
    show ?thesis
      using setprio_wf [OF assms(2) wf le(1)] le(2) par
      by (simp add: task_params_sel [OF par(1)] params_cong(1) [OF par(1)] k__setscheduler_prio_def val)
  qed
qed

theorem rt_mutex_setprio_effect_witness:
  "t_prio (tasks (rt_mutex_setprio kenv_v5_17 plain_kops 1 (Some 2) sample_prio_kernel) 1) = 49"
proof -
  have "1 \<noteq> rq_idle (rqs sample_prio_kernel (task_rq sample_prio_kernel 1))"
    by (simp add: sample_prio_kernel_def zero_defs)
  from rt_mutex_setprio_effect [OF v5_17_prio.prio_h_axioms plain_kops_frame sample_prio_kernel_wf(1) this, of "Some 2"]
  show ?thesis by (simp add: sample_prio_kernel_def sample_fair_def sample_rt_def)
qed

subsection \<open>The accounting of clamps\<close>

lemma params_same_sys:
  assumes "params_same k k'"
  shows "uclamp_sys_ok e k' (tasks k' p) = uclamp_sys_ok e k (tasks k p)"
proof -
  have "task_params (tasks k' p) = task_params (tasks k p)" using assms by (simp add: params_same_def)
  note sel = task_params_sel [OF this]
  show ?thesis using assms by (simp add: uclamp_sys_ok_def sel params_same_def)
qed

lemma acc_change_upd:
  assumes "t_uclamp (f (tasks k p)) = t_uclamp (tasks k p)" "t_uclamp_req (f (tasks k p)) = t_uclamp_req (tasks k p)"
    and "t_sched_task_group (f (tasks k p)) = t_sched_task_group (tasks k p)"
    and "uclamp_sys_ok e k (tasks k p)"
  shows "acc_change e c p k (upd_task p f k)"
  unfolding acc_change_def using assms by (intro exI [of _ f]) (simp add: uclamp_sys_ok_def)

text \<open>
  C36.  \<^verbatim>\<open>set_user_nice\<close> and \<^verbatim>\<open>rt_mutex_setprio\<close> keep the accounting of utilization clamps: if the buckets of the
  task's run queue account for exactly the counted tasks on it, they do so afterwards, although the task may
  have changed its scheduling class in between.
\<close>

theorem set_prio_accounting:
  fixes k p
  defines "c \<equiv> task_rq k p"
  assumes "uclamp_conf e" and "kops_frame x" and "acc e c Q k" and "task_on_rq_queued (tasks k p) \<longleftrightarrow> p \<in> Q"
  shows "acc e c Q (set_user_nice e x p nice k) \<and> acc e c Q (rt_mutex_setprio e x p pi_task k)"
proof
  let ?k1 = "update_rq_clock e x c k"
  have k1: "acc e c Q ?k1" using assms(4) by (rule acc_same_inv) (simp add: sched_frame_acc)
  have sys: "uclamp_sys_ok e k (tasks k p)" using assms(4) by (simp add: acc_def)
  have ps1: "params_same k ?k1" by (simp add: sched_frame_params)
  let ?q = "task_on_rq_queued (tasks k p)"
  show "acc e c Q (set_user_nice e x p nice k)"
  proof (cases "task_nice e (tasks k p) \<noteq> nice \<and> MIN_NICE e \<le> nice \<and> nice \<le> MAX_NICE e \<and>
      \<not> dl_policy e (t_policy (tasks k p)) \<and> \<not> rt_policy e (t_policy (tasks k p))")
    case True
    then have cyc: "task_nice e (tasks k p) \<noteq> nice" "MIN_NICE e \<le> nice" "nice \<le> MAX_NICE e"
      "\<not> dl_policy e (t_policy (tasks k p))" "\<not> rt_policy e (t_policy (tasks k p))" by simp_all
    let ?r = "rq_curr (rqs k c) = p"
    let ?k2 = "take_off e x c p (DEQUEUE_SAVE e OR DEQUEUE_NOCLOCK e) ?q ?r ?k1"
    let ?k4 = "put_back e x c p (ENQUEUE_RESTORE e OR ENQUEUE_NOCLOCK e) ?q ?r (upd_task p (nice_update e x nice) ?k2)"
    have "params_same k ?k2" by (rule params_same_trans [OF ps1 params_same_take_off [OF assms(3)]])
    then have "uclamp_sys_ok e ?k2 (tasks ?k2 p)" using sys by (simp add: params_same_sys)
    moreover obtain s where "nice_update e x nice (tasks ?k2 p) = s" "t_uclamp s = t_uclamp (tasks ?k2 p)"
      "t_uclamp_req s = t_uclamp_req (tasks ?k2 p)" "t_sched_task_group s = t_sched_task_group (tasks ?k2 p)"
      using nice_update_eq [OF assms(3), of e nice "tasks ?k2 p"] by auto
    ultimately have ch: "acc_change e c p ?k2 (upd_task p (nice_update e x nice) ?k2)"
      by (intro acc_change_upd) simp_all
    have "acc_same c ?k4 (set_user_nice e x p nice k)"
      using set_user_nice_cycle [OF cyc] sched_frame_callbacks(3) [OF assms(3)]
      by (simp add: sched_frame_acc c_def)
    from acc_requeue [OF assms(2,3) k1 assms(5) ch this] show ?thesis .
  next
    case False
    then have "set_user_nice e x p nice k = k \<or>
        set_user_nice e x p nice k = upd_task p (\<lambda>t. t\<lparr>t_static_prio := NICE_TO_PRIO e nice\<rparr>) ?k1"
      using task_core_sel(5) [OF sched_frame_task [OF sched_frame_update_rq_clock], of e x c k p]
      by (auto simp: set_user_nice_def Let_def c_def)
    moreover have "acc_same c ?k1 (upd_task p (\<lambda>t. t\<lparr>t_static_prio := NICE_TO_PRIO e nice\<rparr>) ?k1)"
      by (simp add: acc_same_def upd_task_def)
    ultimately show ?thesis using assms(4) acc_same_inv [OF k1] by metis
  qed
next
  let ?k1 = "update_rq_clock e x c k"
  let ?k0 = "upd_task p (\<lambda>t. t\<lparr>t_pi_top_task := pi_task\<rparr>) ?k1"
  have "acc_same c ?k1 ?k0" by (simp add: acc_same_def upd_task_def)
  then have same: "acc_same c k ?k0"
    by (rule acc_same_trans [OF sched_frame_acc [OF sched_frame_update_rq_clock]])
  have k0: "acc e c Q ?k0" using assms(4) same by (rule acc_same_inv)
  define prio where "prio = k__rt_effective_prio (map_option (tasks k) pi_task) (t_normal_prio (tasks k p))"
  show "acc e c Q (rt_mutex_setprio e x p pi_task k)"
  proof (cases "(prio = t_prio (tasks k p) \<and> \<not> dl_prio e prio) \<or> p = rq_idle (rqs k c)")
    case True
    have fr: "sched_frame k ?k1" by simp
    have "rt_mutex_setprio e x p pi_task k = k \<or> rt_mutex_setprio e x p pi_task k = ?k0"
      using True by (auto simp: rt_mutex_setprio_def prio_def [symmetric] Let_def c_def [symmetric]
          task_core_sel(1) [OF sched_frame_task [OF fr]] sched_frame_rq(4) [OF fr])
    then show ?thesis using assms(4) k0 by metis
  next
    case False
    obtain f f' queued running k2 where q: "queued \<longleftrightarrow> task_on_rq_queued (tasks k p)"
      and k2: "sched_frame (take_off e x c p f queued running ?k0) k2"
      and k': "sched_frame (put_back e x c p f' queued running (upd_task p (k__setscheduler_prio e prio) k2))
         (rt_mutex_setprio e x p pi_task k)"
      using rt_mutex_setprio_cycle [OF assms(3), where k = k and p = p and pi_task = pi_task and e = e] False by (auto simp: prio_def c_def)
    let ?ka = "take_off e x c p f queued running ?k0"
    have sys: "uclamp_sys_ok e ?ka (tasks ?ka p)"
      unfolding params_same_sys [OF params_same_take_off [OF assms(3)]] using k0 unfolding acc_def by blast
    let ?g = "\<lambda>t. k__setscheduler_prio e prio (tasks k2 p)"
    have "t_uclamp (tasks k2 p) = t_uclamp (tasks ?ka p)" "t_uclamp_req (tasks k2 p) = t_uclamp_req (tasks ?ka p)"
      "t_sched_task_group (tasks k2 p) = t_sched_task_group (tasks ?ka p)"
      using task_core_sel [OF sched_frame_task [OF k2]] by simp_all
    moreover have "acc_same c (upd_task p ?g ?ka) (upd_task p (k__setscheduler_prio e prio) k2)"
      using sched_frame_acc [OF k2, of c] by (simp add: acc_same_def upd_task_def)
    ultimately have ch: "acc_change e c p ?ka (upd_task p (k__setscheduler_prio e prio) k2)"
      unfolding acc_change_def using sys
      by (intro exI [of _ ?g]) (simp add: k__setscheduler_prio_def uclamp_sys_ok_def)
    show ?thesis
      by (rule acc_requeue [OF assms(2,3) k0 _ ch sched_frame_acc [OF k']]) (use q assms(5) in simp)
  qed
qed

lemma zero_sys_ok: "uclamp_sys_ok kenv_v5_17 zero_kernel zero_task"
  by (simp add: uclamp_sys_ok_def uc_ok_def zero_defs uclamp_bucket_id_def)

theorem set_prio_accounting_witness:
  "acc kenv_v5_17 0 {} (set_user_nice kenv_v5_17 plain_kops 1 5
     (sample_prio_kernel\<lparr>rqs := (\<lambda>_. init_uclamp_rq zero_rq)\<rparr>))"
proof -
  let ?k = "sample_prio_kernel\<lparr>rqs := (\<lambda>_. init_uclamp_rq zero_rq)\<rparr>"
  have "uclamp_sys_ok kenv_v5_17 ?k (tasks ?k p)" for p
    using zero_sys_ok
    by (simp add: uclamp_sys_ok_def sample_prio_kernel_def sample_fair_def sample_rt_def zero_kernel_def zero_task_def)
  then have "acc kenv_v5_17 0 {} ?k"
    using uclamp_inv_boot [of kenv_v5_17 zero_rq] by (simp add: acc_def clamps_counted_def)
  moreover have "task_rq ?k 1 = 0" "\<not> task_on_rq_queued (tasks ?k 1)"
    by (simp_all add: task_rq_def task_on_rq_queued_def sample_prio_kernel_def sample_fair_def zero_task_def)
  ultimately show ?thesis
    using set_prio_accounting [OF v5_17_uclamp.uclamp_conf_axioms plain_kops_frame, where k = ?k and p = 1 and Q = "{}"]
    by simp
qed

subsection \<open>The system call\<close>

lemma nice_rlimit_word:
  assumes "prio_h e" "-20 \<le> n" "n \<le> 19"
  shows "unat (of_int (nice_to_rlimit e n) :: u64) = nat (20 - n)"
proof -
  have "of_int (nice_to_rlimit e n) = (of_nat (nat (20 - n)) :: u64)"
    using assms by (simp add: prio_h.nice_to_rlimit)
  moreover have "nat (20 - n) \<le> 40" using assms by simp
  ultimately show ?thesis by (simp add: unat_of_nat)
qed

text \<open>
  The system call \<^verbatim>\<open>nice\<close> moves the nice value by the increment and stops at the ends of the range; the
  intermediate clamp of the increment has no effect on the result.  Raising the priority beyond the resource
  limit without the capability is refused with \<^verbatim>\<open>EPERM\<close>, and an error changes nothing.
\<close>

theorem sys_nice_effect:
  fixes e x s increment k
  defines "p \<equiv> current k" and "r \<equiv> fst (sys_nice e x s increment k)" and "k' \<equiv> snd (sys_nice e x s increment k)"
  defines "nice \<equiv> clamp (task_nice e (tasks k (current k)) + increment) (-20) 19"
  assumes "prio_h e" and "policy_h e" and "kops_frame x" and "reweight_law e x"
    and "prio_wf e (tasks k p)" and "weight_wf e (tasks k p)"
  shows "(r = None \<longrightarrow> task_nice e (tasks k' p) = nice) \<and> (r \<noteq> None \<longrightarrow> k' = k) \<and>
    (increment < 0 \<and> \<not> capable_nice s \<and> int (rlim_nice s p) < 20 - nice \<longrightarrow> r = Some EPERM)"
proof -
  note h = prio_h.prio_h_simps [OF assms(5)]
  have old: "-20 \<le> task_nice e (tasks k p)" "task_nice e (tasks k p) \<le> 19"
    using assms(9) by (simp_all add: prio_wf_def task_nice_def h)
  have n: "clamp (task_nice e (tasks k p) + clamp increment (-40) 40) (-20) 19 = nice"
    using old by (simp add: nice_def p_def clamp_def)
  have neg: "clamp increment (-40) 40 < 0 \<longleftrightarrow> increment < 0" by (auto simp: clamp_def)
  have range: "-20 \<le> nice" "nice \<le> 19" by (simp_all add: nice_def clamp_def)
  have can: "can_nice e s p nice \<longleftrightarrow> 20 - nice \<le> int (rlim_nice s p) \<or> capable_nice s"
    using nice_rlimit_word [OF assms(5) range] range by (auto simp: can_nice_def)
  have eff: "task_nice e (tasks (set_user_nice e x p nice k) p) = nice"
    using set_user_nice_range [OF assms(5-10) range] by simp
  have "sys_nice e x s increment k =
      (if increment < 0 \<and> \<not> can_nice e s p nice then (Some EPERM, k)
       else case security_task_setnice s p nice of Some err \<Rightarrow> (Some err, k) | None \<Rightarrow> (None, set_user_nice e x p nice k))"
    unfolding sys_nice_def Let_def p_def [symmetric] h n neg by simp
  then show ?thesis using eff by (auto simp: r_def k'_def can split: option.split)
qed

definition sample_secops :: secops where
  "sample_secops = \<lparr>capable_nice = False, rlim_nice = (\<lambda>_. 15), rlim_rtprio = (\<lambda>_. 10), cred_uid = (\<lambda>_. 1000),
     cred_euid = (\<lambda>_. 1000), security_task_setnice = (\<lambda>_ _. None), security_task_setscheduler = (\<lambda>_. None),
     security_task_getscheduler = (\<lambda>_. None)\<rparr>"

theorem sys_nice_effect_witness:
  "fst (sys_nice kenv_v5_17 plain_kops sample_secops (-3) sample_prio_kernel) = Some EPERM"
proof -
  have "task_nice kenv_v5_17 (tasks sample_prio_kernel (current sample_prio_kernel)) = 0"
    by (simp add: sample_prio_kernel_def sample_fair_def task_nice_def current_def zero_defs v5_17_prio.prio_h_simps)
  then show ?thesis
    using sys_nice_effect [OF v5_17_prio.prio_h_axioms v5_17_policy.policy_h_axioms plain_kops_frame
        plain_kops_reweight sample_prio_kernel_wf, where s = sample_secops and increment = "-3"]
    by (simp add: sample_secops_def clamp_def)
qed

end
