(* ===== verification/Setscheduler.thy ===== *)
theory Setscheduler
  imports Set_Prio
begin

text \<open>
  Changing the scheduling policy, \<^verbatim>\<open>Project 2/core.c\<close> lines 7212 to 7958: \<^verbatim>\<open>__sched_setscheduler\<close> with its
  validation and permission checks, its callers inside the kernel, and the system calls that set and read
  policy, parameters and attributes.  The deadline class, root domains, real-time group bandwidth, the
  process table and the copies from and to user space are the fields of \<open>sysops\<close>.
\<close>

subsection \<open>Operations outside the repository\<close>

record sysops =
  find_task_by_vpid :: "nat \<Rightarrow> tid option"
  checkparam_dl :: "sched_attr \<Rightarrow> bool" \<comment> \<open>\<^verbatim>\<open>__checkparam_dl\<close>\<close>
  dl_param_changed :: "task_struct \<Rightarrow> sched_attr \<Rightarrow> bool"
  setparam_dl :: "sched_attr \<Rightarrow> task_struct \<Rightarrow> task_struct" \<comment> \<open>\<^verbatim>\<open>__setparam_dl\<close>\<close>
  getparam_dl :: "task_struct \<Rightarrow> sched_attr \<Rightarrow> sched_attr" \<comment> \<open>\<^verbatim>\<open>__getparam_dl\<close>\<close>
  sched_dl_overflow :: "tid \<Rightarrow> int \<Rightarrow> sched_attr \<Rightarrow> kernel \<Rightarrow> bool \<times> kernel"
  rt_bandwidth_enabled :: bool
  tg_rt_runtime :: "nat \<Rightarrow> nat"
  dl_bandwidth_enabled :: bool
  rd_span :: "cpu \<Rightarrow> cpu set"
  rd_dl_bw :: "cpu \<Rightarrow> nat"
  rt_mutex_adjust_pi :: "tid \<Rightarrow> kernel \<Rightarrow> kernel"

definition find_process_by_pid :: "sysops \<Rightarrow> kernel \<Rightarrow> nat \<Rightarrow> tid option" where
  "find_process_by_pid d k pid = (if pid \<noteq> 0 then find_task_by_vpid d pid else Some (current k))"

subsection \<open>Parameters\<close>

definition SETPARAM_POLICY :: int where "SETPARAM_POLICY = -1"

definition k__setscheduler_params :: "kenv \<Rightarrow> kops \<Rightarrow> sysops \<Rightarrow> sched_attr \<Rightarrow> task_struct \<Rightarrow> task_struct" where
  "k__setscheduler_params e x d attr p =
     (let policy = (if sa_policy attr = SETPARAM_POLICY then t_policy p else sa_policy attr);
          p = p\<lparr>t_policy := policy\<rparr>;
          p = (if dl_policy e policy then setparam_dl d attr p
               else if fair_policy e policy then p\<lparr>t_static_prio := NICE_TO_PRIO e (sa_nice attr)\<rparr>
               else p);
          p = p\<lparr>t_rt_priority := sa_priority attr\<rparr>;
          p = p\<lparr>t_normal_prio := normal_prio e p\<rparr>
      in set_load_weight e (reweight_task x) True p)"

definition check_same_owner :: "secops \<Rightarrow> kernel \<Rightarrow> tid \<Rightarrow> bool" where
  "check_same_owner s k p \<longleftrightarrow>
     cred_euid s (current k) = cred_euid s p \<or> cred_euid s (current k) = cred_uid s p"

definition get_params :: "kenv \<Rightarrow> sysops \<Rightarrow> task_struct \<Rightarrow> sched_attr \<Rightarrow> sched_attr" where
  "get_params e d p attr =
     (if dl_policy e (t_policy p) then getparam_dl d p attr
      else if rt_policy e (t_policy p) then attr\<lparr>sa_priority := t_rt_priority p\<rparr>
      else attr\<lparr>sa_nice := task_nice e p\<rparr>)"

subsection \<open>Validation and permission\<close>

definition setscheduler_valid :: "kenv \<Rightarrow> sysops \<Rightarrow> sched_attr \<Rightarrow> int \<Rightarrow> errno option" where
  "setscheduler_valid e d attr policy =
     (if sa_flags attr AND NOT (SCHED_FLAG_ALL e OR SCHED_FLAG_SUGOV e) \<noteq> 0 then Some EINVAL
      else if int (sa_priority attr) > MAX_RT_PRIO e - 1 then Some EINVAL
      else if (dl_policy e policy \<and> \<not> checkparam_dl d attr) \<or> (rt_policy e policy \<noteq> (sa_priority attr \<noteq> 0))
      then Some EINVAL
      else None)"

text \<open>What an unprivileged caller may not do.\<close>

definition setscheduler_denied ::
  "kenv \<Rightarrow> secops \<Rightarrow> kernel \<Rightarrow> tid \<Rightarrow> sched_attr \<Rightarrow> int \<Rightarrow> bool \<Rightarrow> bool" where
  "setscheduler_denied e s k p attr policy reset_on_fork =
     (let t = tasks k p
      in if fair_policy e policy \<and> sa_nice attr < task_nice e t \<and> \<not> can_nice e s p (sa_nice attr) then True
         else if rt_policy e policy \<and> policy \<noteq> t_policy t \<and> rlim_rtprio s p = 0 then True
         else if rt_policy e policy \<and> sa_priority attr > t_rt_priority t \<and> sa_priority attr > rlim_rtprio s p then True
         else if dl_policy e policy then True
         else if idle_policy e (t_policy t) \<and> \<not> idle_policy e policy \<and> \<not> can_nice e s p (task_nice e t) then True
         else if \<not> check_same_owner s k p then True
         else if t_sched_reset_on_fork t \<and> \<not> reset_on_fork then True
         else False)"

definition setscheduler_user_check ::
  "kenv \<Rightarrow> secops \<Rightarrow> kernel \<Rightarrow> tid \<Rightarrow> sched_attr \<Rightarrow> int \<Rightarrow> bool \<Rightarrow> errno option" where
  "setscheduler_user_check e s k p attr policy reset_on_fork =
     (if \<not> capable_nice s \<and> setscheduler_denied e s k p attr policy reset_on_fork then Some EPERM
      else if flag_set (sa_flags attr) (SCHED_FLAG_SUGOV e) then Some EINVAL
      else security_task_setscheduler s p)"

text \<open>The request changes nothing but possibly the flag \<^verbatim>\<open>sched_reset_on_fork\<close>.\<close>

definition setscheduler_unchanged :: "kenv \<Rightarrow> sysops \<Rightarrow> task_struct \<Rightarrow> sched_attr \<Rightarrow> int \<Rightarrow> bool" where
  "setscheduler_unchanged e d t attr policy \<longleftrightarrow>
     policy = t_policy t \<and>
     \<not> (fair_policy e policy \<and> sa_nice attr \<noteq> task_nice e t) \<and>
     \<not> (rt_policy e policy \<and> sa_priority attr \<noteq> t_rt_priority t) \<and>
     \<not> (dl_policy e policy \<and> dl_param_changed d t attr) \<and>
     \<not> flag_set (sa_flags attr) (SCHED_FLAG_UTIL_CLAMP e)"

text \<open>Admission by group bandwidth and by the root domain.\<close>

definition setscheduler_admit ::
  "kenv \<Rightarrow> sysops \<Rightarrow> kernel \<Rightarrow> cpu \<Rightarrow> tid \<Rightarrow> sched_attr \<Rightarrow> int \<Rightarrow> errno option" where
  "setscheduler_admit e d k c p attr policy =
     (let t = tasks k p; tg = t_sched_task_group t
      in if rt_bandwidth_enabled d \<and> rt_policy e policy \<and> tg_rt_runtime d tg = 0 \<and>
            \<not> tg_autogroup (task_groups k tg)
         then Some EPERM
         else if dl_bandwidth_enabled d \<and> dl_policy e policy \<and> \<not> flag_set (sa_flags attr) (SCHED_FLAG_SUGOV e) \<and>
            (\<not> rd_span d c \<subseteq> task_cpus_ptr t \<or> rd_dl_bw d c = 0)
         then Some EPERM
         else None)"

subsection \<open>The change itself\<close>

text \<open>The assignments between taking the task off the run queue and putting it back.\<close>

definition setscheduler_update ::
  "kenv \<Rightarrow> kops \<Rightarrow> sysops \<Rightarrow> kernel \<Rightarrow> sched_attr \<Rightarrow> int \<Rightarrow> task_struct \<Rightarrow> task_struct" where
  "setscheduler_update e x d k attr newprio t =
     (let t = (if \<not> flag_set (sa_flags attr) (SCHED_FLAG_KEEP_PARAMS e)
               then k__setscheduler_prio e newprio (k__setscheduler_params e x d attr t) else t)
      in k__setscheduler_uclamp e k t attr)"

definition setscheduler_change ::
  "kenv \<Rightarrow> kops \<Rightarrow> sysops \<Rightarrow> cpu \<Rightarrow> tid \<Rightarrow> sched_attr \<Rightarrow> int \<Rightarrow> bool \<Rightarrow> bool \<Rightarrow> kernel \<Rightarrow> kernel" where
  "setscheduler_change e x d c p attr policy reset_on_fork pi k =
     (let k = upd_task p (\<lambda>t. t\<lparr>t_sched_reset_on_fork := reset_on_fork\<rparr>) k;
          oldprio = t_prio (tasks k p);
          newprio = k__normal_prio e policy (int (sa_priority attr)) (sa_nice attr);
          newprio = (if pi then rt_effective_prio k p newprio else newprio);
          queue_flags = DEQUEUE_SAVE e OR DEQUEUE_MOVE e OR DEQUEUE_NOCLOCK e;
          queue_flags = (if pi \<and> newprio = oldprio then queue_flags AND NOT (DEQUEUE_MOVE e) else queue_flags);
          queued = task_on_rq_queued (tasks k p);
          running = (rq_curr (rqs k c) = p);
          k = take_off e x c p queue_flags queued running k;
          prev_class = t_sched_class (tasks k p);
          k = upd_task p (setscheduler_update e x d k attr newprio) k;
          queue_flags = (if oldprio < t_prio (tasks k p) then queue_flags OR ENQUEUE_HEAD e else queue_flags);
          k = put_back e x c p queue_flags queued running k;
          k = check_class_changed e x c p prev_class oldprio k
      in if pi then rt_mutex_adjust_pi d p k else k)"

text \<open>
  \<^verbatim>\<open>__sched_setscheduler\<close>.  The policy is read again after the run queue lock is taken; without concurrency
  it is still the same, so the jump back to \<^verbatim>\<open>recheck\<close> is never taken.
\<close>

definition k__sched_setscheduler ::
  "kenv \<Rightarrow> kops \<Rightarrow> secops \<Rightarrow> sysops \<Rightarrow> tid \<Rightarrow> sched_attr \<Rightarrow> bool \<Rightarrow> bool \<Rightarrow> kernel \<Rightarrow> errno option \<times> kernel" where
  "k__sched_setscheduler e x s d p attr user pi k =
     (let policy = (if sa_policy attr < 0 then t_policy (tasks k p) else sa_policy attr);
          reset_on_fork = (if sa_policy attr < 0 then t_sched_reset_on_fork (tasks k p)
                           else flag_set (sa_flags attr) (SCHED_FLAG_RESET_ON_FORK e))
      in if \<not> sa_policy attr < 0 \<and> \<not> valid_policy e policy then (Some EINVAL, k)
         else if setscheduler_valid e d attr policy \<noteq> None then (setscheduler_valid e d attr policy, k)
         else if user \<and> setscheduler_user_check e s k p attr policy reset_on_fork \<noteq> None
         then (setscheduler_user_check e s k p attr policy reset_on_fork, k)
         else
           let (r, k) = (if flag_set (sa_flags attr) (SCHED_FLAG_UTIL_CLAMP e)
                         then uclamp_validate e (tasks k p) attr k else (None, k))
           in if r \<noteq> None then (r, k)
              else
                let c = task_rq k p;
                    k = update_rq_clock e x c k
                in if Some p = rq_stop (rqs k c) then (Some EINVAL, k)
                   else if setscheduler_unchanged e d (tasks k p) attr policy
                   then (None, upd_task p (\<lambda>t. t\<lparr>t_sched_reset_on_fork := reset_on_fork\<rparr>) k)
                   else if user \<and> setscheduler_admit e d k c p attr policy \<noteq> None
                   then (setscheduler_admit e d k c p attr policy, k)
                   else
                     let (overflow, k) = (if dl_policy e policy \<or> dl_task e (tasks k p)
                                          then sched_dl_overflow d p policy attr k else (False, k))
                     in if overflow then (Some EBUSY, k)
                        else (None, setscheduler_change e x d c p attr policy reset_on_fork pi k))"

subsection \<open>Callers inside the kernel\<close>

text \<open>\<^verbatim>\<open>sched_priority\<close> of \<^verbatim>\<open>struct sched_param\<close> is an \<^verbatim>\<open>int\<close>, that of \<^verbatim>\<open>struct sched_attr\<close> a \<^verbatim>\<open>u32\<close>.\<close>

definition u_sched_setscheduler ::
  "kenv \<Rightarrow> kops \<Rightarrow> secops \<Rightarrow> sysops \<Rightarrow> tid \<Rightarrow> int \<Rightarrow> int \<Rightarrow> bool \<Rightarrow> kernel \<Rightarrow> errno option \<times> kernel" where
  "u_sched_setscheduler e x s d p policy param check k =
     (let attr = zero_attr\<lparr>sa_policy := policy, sa_priority := unat (of_int param :: u32),
            sa_nice := PRIO_TO_NICE e (t_static_prio (tasks k p))\<rparr>;
          attr = (if policy \<noteq> SETPARAM_POLICY \<and> flag_set (of_int policy) (SCHED_RESET_ON_FORK e)
                  then attr\<lparr>sa_flags := sa_flags attr OR SCHED_FLAG_RESET_ON_FORK e,
                            sa_policy := sint (of_int policy AND NOT (SCHED_RESET_ON_FORK e) :: u32)\<rparr>
                  else attr)
      in k__sched_setscheduler e x s d p attr check True k)"

definition sched_setscheduler ::
  "kenv \<Rightarrow> kops \<Rightarrow> secops \<Rightarrow> sysops \<Rightarrow> tid \<Rightarrow> int \<Rightarrow> int \<Rightarrow> kernel \<Rightarrow> errno option \<times> kernel" where
  "sched_setscheduler e x s d p policy param k = u_sched_setscheduler e x s d p policy param True k"

definition sched_setattr ::
  "kenv \<Rightarrow> kops \<Rightarrow> secops \<Rightarrow> sysops \<Rightarrow> tid \<Rightarrow> sched_attr \<Rightarrow> kernel \<Rightarrow> errno option \<times> kernel" where
  "sched_setattr e x s d p attr k = k__sched_setscheduler e x s d p attr True True k"

definition sched_setattr_nocheck ::
  "kenv \<Rightarrow> kops \<Rightarrow> secops \<Rightarrow> sysops \<Rightarrow> tid \<Rightarrow> sched_attr \<Rightarrow> kernel \<Rightarrow> errno option \<times> kernel" where
  "sched_setattr_nocheck e x s d p attr k = k__sched_setscheduler e x s d p attr False True k"

definition sched_setscheduler_nocheck ::
  "kenv \<Rightarrow> kops \<Rightarrow> secops \<Rightarrow> sysops \<Rightarrow> tid \<Rightarrow> int \<Rightarrow> int \<Rightarrow> kernel \<Rightarrow> errno option \<times> kernel" where
  "sched_setscheduler_nocheck e x s d p policy param k = u_sched_setscheduler e x s d p policy param False k"

definition sched_set_fifo :: "kenv \<Rightarrow> kops \<Rightarrow> secops \<Rightarrow> sysops \<Rightarrow> tid \<Rightarrow> kernel \<Rightarrow> kernel" where
  "sched_set_fifo e x s d p k =
     snd (sched_setscheduler_nocheck e x s d p (SCHED_FIFO e) (MAX_RT_PRIO e div 2) k)"

definition sched_set_fifo_low :: "kenv \<Rightarrow> kops \<Rightarrow> secops \<Rightarrow> sysops \<Rightarrow> tid \<Rightarrow> kernel \<Rightarrow> kernel" where
  "sched_set_fifo_low e x s d p k = snd (sched_setscheduler_nocheck e x s d p (SCHED_FIFO e) 1 k)"

definition sched_set_normal :: "kenv \<Rightarrow> kops \<Rightarrow> secops \<Rightarrow> sysops \<Rightarrow> tid \<Rightarrow> int \<Rightarrow> kernel \<Rightarrow> kernel" where
  "sched_set_normal e x s d p nice k =
     snd (sched_setattr_nocheck e x s d p (zero_attr\<lparr>sa_policy := SCHED_NORMAL e, sa_nice := nice\<rparr>) k)"

subsection \<open>System calls\<close>

text \<open>
  A pointer from user space is an option, \<open>None\<close> the null pointer.  What is behind it is again an option,
  \<open>None\<close> when the copy faults.
\<close>

definition do_sched_setscheduler ::
  "kenv \<Rightarrow> kops \<Rightarrow> secops \<Rightarrow> sysops \<Rightarrow> int \<Rightarrow> int \<Rightarrow> int option option \<Rightarrow> kernel \<Rightarrow> errno option \<times> kernel" where
  "do_sched_setscheduler e x s d pid policy param k =
     (case param of
        None \<Rightarrow> (Some EINVAL, k)
      | Some lparam \<Rightarrow>
          if pid < 0 then (Some EINVAL, k)
          else case lparam of
            None \<Rightarrow> (Some EFAULT, k)
          | Some sched_priority \<Rightarrow>
              (case find_process_by_pid d k (nat pid) of
                 None \<Rightarrow> (Some ESRCH, k)
               | Some p \<Rightarrow> sched_setscheduler e x s d p policy sched_priority k))"

definition sys_sched_setscheduler ::
  "kenv \<Rightarrow> kops \<Rightarrow> secops \<Rightarrow> sysops \<Rightarrow> int \<Rightarrow> int \<Rightarrow> int option option \<Rightarrow> kernel \<Rightarrow> errno option \<times> kernel" where
  "sys_sched_setscheduler e x s d pid policy param k =
     (if policy < 0 then (Some EINVAL, k) else do_sched_setscheduler e x s d pid policy param k)"

definition sys_sched_setparam ::
  "kenv \<Rightarrow> kops \<Rightarrow> secops \<Rightarrow> sysops \<Rightarrow> int \<Rightarrow> int option option \<Rightarrow> kernel \<Rightarrow> errno option \<times> kernel" where
  "sys_sched_setparam e x s d pid param k = do_sched_setscheduler e x s d pid SETPARAM_POLICY param k"

text \<open>
  A \<^verbatim>\<open>struct sched_attr\<close> in user space: what \<^verbatim>\<open>get_user\<close> reads as its size, and what \<^verbatim>\<open>copy_struct_from_user\<close>
  gives for a size.
\<close>

record uattr =
  ua_size :: "errno + nat"
  ua_copy :: "nat \<Rightarrow> sched_attr result"

text \<open>The second component is the size that \<^verbatim>\<open>put_user\<close> writes back.\<close>

definition sched_copy_attr :: "kenv \<Rightarrow> uattr \<Rightarrow> sched_attr result \<times> nat option" where
  "sched_copy_attr e uattr =
     (let err_size = (Inl E2BIG, Some (sizeof_sched_attr e))
      in case ua_size uattr of
           Inl ret \<Rightarrow> (Inl ret, None)
         | Inr usize \<Rightarrow>
             let usize = (if usize = 0 then SCHED_ATTR_SIZE_VER0 e else usize)
             in if usize < SCHED_ATTR_SIZE_VER0 e \<or> usize > PAGE_SIZE e then err_size
                else (case ua_copy uattr usize of
                  Inl ret \<Rightarrow> if ret = E2BIG then err_size else (Inl ret, None)
                | Inr attr \<Rightarrow>
                    if flag_set (sa_flags attr) (SCHED_FLAG_UTIL_CLAMP e) \<and> usize < SCHED_ATTR_SIZE_VER1 e
                    then (Inl EINVAL, None)
                    else (Inr (attr\<lparr>sa_nice := clamp (sa_nice attr) (MIN_NICE e) (MAX_NICE e)\<rparr>), None)))"

definition sys_sched_setattr ::
  "kenv \<Rightarrow> kops \<Rightarrow> secops \<Rightarrow> sysops \<Rightarrow> int \<Rightarrow> uattr option \<Rightarrow> u32 \<Rightarrow> kernel \<Rightarrow> errno option \<times> kernel" where
  "sys_sched_setattr e x s d pid uattr flags k =
     (case uattr of
        None \<Rightarrow> (Some EINVAL, k)
      | Some uattr \<Rightarrow>
          if pid < 0 \<or> flags \<noteq> 0 then (Some EINVAL, k)
          else case fst (sched_copy_attr e uattr) of
            Inl retval \<Rightarrow> (Some retval, k)
          | Inr attr \<Rightarrow>
              if sa_policy attr < 0 then (Some EINVAL, k)
              else
                let attr = (if flag_set (sa_flags attr) (SCHED_FLAG_KEEP_POLICY e)
                            then attr\<lparr>sa_policy := SETPARAM_POLICY\<rparr> else attr)
                in case find_process_by_pid d k (nat pid) of
                     None \<Rightarrow> (Some ESRCH, k)
                   | Some p \<Rightarrow>
                       let attr = (if flag_set (sa_flags attr) (SCHED_FLAG_KEEP_PARAMS e)
                                   then get_params e d (tasks k p) attr else attr)
                       in sched_setattr e x s d p attr k)"

definition sys_sched_getscheduler :: "kenv \<Rightarrow> secops \<Rightarrow> sysops \<Rightarrow> int \<Rightarrow> kernel \<Rightarrow> int result" where
  "sys_sched_getscheduler e s d pid k =
     (if pid < 0 then Inl EINVAL
      else case find_process_by_pid d k (nat pid) of
        None \<Rightarrow> Inl ESRCH
      | Some p \<Rightarrow>
          (case security_task_getscheduler s p of
             Some err \<Rightarrow> Inl err
           | None \<Rightarrow> Inr (sint (of_int (t_policy (tasks k p)) OR
               (if t_sched_reset_on_fork (tasks k p) then SCHED_RESET_ON_FORK e else 0) :: u32))))"

text \<open>The result is the priority that is copied to user space; \<open>copy_ok\<close> is whether that copy succeeds.\<close>

definition sys_sched_getparam :: "kenv \<Rightarrow> secops \<Rightarrow> sysops \<Rightarrow> int \<Rightarrow> bool option \<Rightarrow> kernel \<Rightarrow> nat result" where
  "sys_sched_getparam e s d pid param k =
     (case param of
        None \<Rightarrow> Inl EINVAL
      | Some copy_ok \<Rightarrow>
          if pid < 0 then Inl EINVAL
          else case find_process_by_pid d k (nat pid) of
            None \<Rightarrow> Inl ESRCH
          | Some p \<Rightarrow>
              (case security_task_getscheduler s p of
                 Some err \<Rightarrow> Inl err
               | None \<Rightarrow>
                   let lp = (if rt_policy e (t_policy (tasks k p)) then t_rt_priority (tasks k p) else 0)
                   in if copy_ok then Inr lp else Inl EFAULT))"

text \<open>The result is the structure copied to user space, of which user space receives the first \<^verbatim>\<open>size\<close> bytes.\<close>

definition sched_attr_copy_to_user :: "kenv \<Rightarrow> bool \<Rightarrow> bool \<Rightarrow> sched_attr \<Rightarrow> nat \<Rightarrow> sched_attr result" where
  "sched_attr_copy_to_user e access_ok copy_ok kattr usize =
     (if \<not> access_ok then Inl EFAULT
      else
        let kattr = kattr\<lparr>sa_size := min usize (sizeof_sched_attr e)\<rparr>
        in if \<not> copy_ok then Inl EFAULT else Inr kattr)"

definition sys_sched_getattr ::
  "kenv \<Rightarrow> secops \<Rightarrow> sysops \<Rightarrow> int \<Rightarrow> (bool \<times> bool) option \<Rightarrow> nat \<Rightarrow> u32 \<Rightarrow> kernel \<Rightarrow> sched_attr result" where
  "sys_sched_getattr e s d pid uattr usize flags k =
     (case uattr of
        None \<Rightarrow> Inl EINVAL
      | Some (access_ok, copy_ok) \<Rightarrow>
          if pid < 0 \<or> usize > PAGE_SIZE e \<or> usize < SCHED_ATTR_SIZE_VER0 e \<or> flags \<noteq> 0 then Inl EINVAL
          else case find_process_by_pid d k (nat pid) of
            None \<Rightarrow> Inl ESRCH
          | Some p \<Rightarrow>
              (case security_task_getscheduler s p of
                 Some err \<Rightarrow> Inl err
               | None \<Rightarrow>
                   let t = tasks k p;
                       kattr = zero_attr\<lparr>sa_policy := t_policy t\<rparr>;
                       kattr = (if t_sched_reset_on_fork t
                                then kattr\<lparr>sa_flags := sa_flags kattr OR SCHED_FLAG_RESET_ON_FORK e\<rparr> else kattr);
                       kattr = get_params e d t kattr;
                       kattr = kattr\<lparr>sa_flags := sa_flags kattr AND SCHED_FLAG_ALL e\<rparr>;
                       kattr = kattr\<lparr>sa_util_min := of_nat (uc_value (t_uclamp_req t UCLAMP_MIN)),
                                     sa_util_max := of_nat (uc_value (t_uclamp_req t UCLAMP_MAX))\<rparr>
                   in sched_attr_copy_to_user e access_ok copy_ok kattr usize))"

subsection \<open>The outcomes of a request\<close>

text \<open>
  What the development assumes of the deadline class and of the priority inheritance chain: setting deadline
  parameters touches the deadline entity only, the admission test keeps to the frame of the callbacks,
  and readjusting the chain of lock owners that a task waits for does not change that task.
\<close>

definition sysops_law :: "sysops \<Rightarrow> bool" where
  "sysops_law d \<longleftrightarrow> (\<forall>a t. \<exists>v. setparam_dl d a t = t\<lparr>t_dl := v\<rparr>) \<and>
     (\<forall>p i a k. sched_frame k (snd (sched_dl_overflow d p i a k))) \<and>
     (\<forall>p k. task_params (tasks (rt_mutex_adjust_pi d p k) p) = task_params (tasks k p))"

definition req_policy :: "sched_attr \<Rightarrow> task_struct \<Rightarrow> int" where
  "req_policy attr t = (if sa_policy attr < 0 then t_policy t else sa_policy attr)"

definition req_reset :: "kenv \<Rightarrow> sched_attr \<Rightarrow> task_struct \<Rightarrow> bool" where
  "req_reset e attr t = (if sa_policy attr < 0 then t_sched_reset_on_fork t
     else flag_set (sa_flags attr) (SCHED_FLAG_RESET_ON_FORK e))"

abbreviation set_reset :: "bool \<Rightarrow> task_struct \<Rightarrow> task_struct" where
  "set_reset b \<equiv> (\<lambda>t. t\<lparr>t_sched_reset_on_fork := b\<rparr>)"

text \<open>Turning on the static key keeps the accounting.\<close>

lemma acc_used: "acc e c Q k \<Longrightarrow> acc e c Q (k\<lparr>sched_uclamp_used := True\<rparr>)"
  by (simp add: acc_def task_acc_def uclamp_counted_def clamps_counted_def uclamp_sys_ok_def)

lemma setscheduler_cases:
  fixes e x s d p attr user pi k
  defines "policy \<equiv> req_policy attr (tasks k p)" and "reset \<equiv> req_reset e attr (tasks k p)"
    and "res \<equiv> k__sched_setscheduler e x s d p attr user pi k"
  assumes "sysops_law d"
  obtains (err) r where "fst res = Some r" "params_same k (snd res)" "\<And>c Q. acc e c Q k \<Longrightarrow> acc e c Q (snd res)"
  | (same) k1 where "params_same k k1" "\<And>c Q. acc e c Q k \<Longrightarrow> acc e c Q k1"
      "res = (None, upd_task p (set_reset reset) k1)"
      "setscheduler_unchanged e d (tasks k1 p) attr policy" "setscheduler_valid e d attr policy = None"
      "user \<Longrightarrow> setscheduler_user_check e s k p attr policy reset = None"
  | (change) k1 where "params_same k k1" "\<And>c Q. acc e c Q k \<Longrightarrow> acc e c Q k1"
      "res = (None, setscheduler_change e x d (task_rq k p) p attr policy reset pi k1)"
      "sa_policy attr < 0 \<or> valid_policy e policy" "setscheduler_valid e d attr policy = None"
      "user \<Longrightarrow> setscheduler_user_check e s k p attr policy reset = None"
proof -
  let ?v = "if flag_set (sa_flags attr) (SCHED_FLAG_UTIL_CLAMP e) then uclamp_validate e (tasks k p) attr k else (None, k)"
  let ?k1 = "update_rq_clock e x (task_rq k p) (snd ?v)"
  let ?o = "if dl_policy e policy \<or> dl_task e (tasks ?k1 p) then sched_dl_overflow d p policy attr ?k1 else (False, ?k1)"
  have v: "snd ?v = k \<or> snd ?v = k\<lparr>sched_uclamp_used := True\<rparr>"
    by (auto simp: uclamp_validate_def Let_def)
  then have rq: "task_rq (snd ?v) p = task_rq k p" by (auto simp: task_rq_def)
  have pv: "params_same k (snd ?v)" using v by (auto simp: params_same_def kfix_def)
  have av: "acc e c Q (snd ?v)" if "acc e c Q k" for c Q using v that acc_used by metis
  have f1: "sched_frame (snd ?v) ?k1" by simp
  have f2: "sched_frame ?k1 (snd ?o)" using assms(4) by (simp add: sysops_law_def)
  have k1: "params_same k ?k1" by (rule params_same_trans [OF pv sched_frame_params [OF f1]])
  have o: "params_same k (snd ?o)" by (rule params_same_trans [OF k1 sched_frame_params [OF f2]])
  have a1: "acc e c Q ?k1" if "acc e c Q k" for c Q by (rule acc_same_inv [OF av [OF that] sched_frame_acc [OF f1]])
  have ao: "acc e c Q (snd ?o)" if "acc e c Q k" for c Q by (rule acc_same_inv [OF a1 [OF that] sched_frame_acc [OF f2]])
  have "k__sched_setscheduler e x s d p attr user pi k = res" by (simp add: res_def)
  note eq = this [unfolded k__sched_setscheduler_def, folded req_policy_def req_reset_def, folded policy_def reset_def,
      unfolded Let_def case_prod_unfold rq]
  show ?thesis
  proof (cases "(sa_policy attr < 0 \<or> valid_policy e policy) \<and> setscheduler_valid e d attr policy = None \<and>
      (user \<longrightarrow> setscheduler_user_check e s k p attr policy reset = None)")
    case False
    then have "snd res = k" "fst res \<noteq> None" using eq by (auto split: if_splits)
    then show ?thesis using err by auto
  next
    case True
    then have c1: "\<not> (\<not> sa_policy attr < 0 \<and> \<not> valid_policy e policy)" "\<not> setscheduler_valid e d attr policy \<noteq> None"
      "\<not> (user \<and> setscheduler_user_check e s k p attr policy reset \<noteq> None)" by auto
    note eq2 = eq [unfolded if_not_P [OF c1(1)] if_not_P [OF c1(2)] if_not_P [OF c1(3)]]
    consider (v) "fst ?v \<noteq> None"
      | (stop) "\<not> fst ?v \<noteq> None" "Some p = rq_stop (rqs ?k1 (task_rq k p))"
      | (un) "\<not> fst ?v \<noteq> None" "\<not> Some p = rq_stop (rqs ?k1 (task_rq k p))" "setscheduler_unchanged e d (tasks ?k1 p) attr policy"
      | (adm) "\<not> fst ?v \<noteq> None" "\<not> Some p = rq_stop (rqs ?k1 (task_rq k p))" "\<not> setscheduler_unchanged e d (tasks ?k1 p) attr policy"
         "user \<and> setscheduler_admit e d ?k1 (task_rq k p) p attr policy \<noteq> None"
      | (ovf) "\<not> fst ?v \<noteq> None" "\<not> Some p = rq_stop (rqs ?k1 (task_rq k p))" "\<not> setscheduler_unchanged e d (tasks ?k1 p) attr policy"
         "\<not> (user \<and> setscheduler_admit e d ?k1 (task_rq k p) p attr policy \<noteq> None)" "fst ?o"
      | (ok) "\<not> fst ?v \<noteq> None" "\<not> Some p = rq_stop (rqs ?k1 (task_rq k p))" "\<not> setscheduler_unchanged e d (tasks ?k1 p) attr policy"
         "\<not> (user \<and> setscheduler_admit e d ?k1 (task_rq k p) p attr policy \<noteq> None)" "\<not> fst ?o"
      by blast
    then show ?thesis
    proof cases
      case v
      note e = eq2 [unfolded if_P [OF v]]
      obtain r where r: "fst ?v = Some r" using v by blast
      show ?thesis by (rule err [of r]) (use r pv av in \<open>simp_all only: e [symmetric] fst_conv snd_conv\<close>)
    next
      case stop
      note e = eq2 [unfolded if_not_P [OF stop(1)] if_P [OF stop(2)]]
      show ?thesis by (rule err [of EINVAL]) (use k1 a1 in \<open>simp_all only: e [symmetric] fst_conv snd_conv\<close>)
    next
      case un
      note e = eq2 [unfolded if_not_P [OF un(1)] if_not_P [OF un(2)] if_P [OF un(3)]]
      show ?thesis by (rule same [OF k1 a1 e [symmetric] un(3)]) (use True in auto)
    next
      case adm
      note e = eq2 [unfolded if_not_P [OF adm(1)] if_not_P [OF adm(2)] if_not_P [OF adm(3)] if_P [OF adm(4)]]
      obtain r where r: "setscheduler_admit e d ?k1 (task_rq k p) p attr policy = Some r" using adm(4) by blast
      show ?thesis by (rule err [of r]) (use r k1 a1 in \<open>simp_all only: e [symmetric] fst_conv snd_conv\<close>)
    next
      case ovf
      note e = eq2 [unfolded if_not_P [OF ovf(1)] if_not_P [OF ovf(2)] if_not_P [OF ovf(3)] if_not_P [OF ovf(4)] if_P [OF ovf(5)]]
      show ?thesis by (rule err [of EBUSY]) (use o ao in \<open>simp_all only: e [symmetric] fst_conv snd_conv\<close>)
    next
      case ok
      note e = eq2 [unfolded if_not_P [OF ok(1)] if_not_P [OF ok(2)] if_not_P [OF ok(3)] if_not_P [OF ok(4)] if_not_P [OF ok(5)]]
      show ?thesis by (rule change [OF o ao e [symmetric]]) (use True in auto)
    qed
  qed
qed

subsection \<open>The effect of a change\<close>

lemma set_uclamp_req_forget: "(set_uclamp_req e i v b t)\<lparr>t_uclamp_req := z\<rparr> = t\<lparr>t_uclamp_req := z\<rparr>"
  by (simp add: set_uclamp_req_def)

lemma setscheduler_uclamp_eq:
  "k__setscheduler_uclamp e k t attr = t\<lparr>t_uclamp_req := t_uclamp_req (k__setscheduler_uclamp e k t attr)\<rparr>"
proof -
  have "(k__setscheduler_uclamp e k t attr)\<lparr>t_uclamp_req := z\<rparr> = t\<lparr>t_uclamp_req := z\<rparr>" for z
    by (simp add: k__setscheduler_uclamp_def Let_def fold_clamp_ids set_uclamp_req_forget)
  from this [of "t_uclamp_req (k__setscheduler_uclamp e k t attr)"] show ?thesis by simp
qed

text \<open>The parameters of the task after the assignments of a change.\<close>

lemma setscheduler_params_eq:
  assumes "kops_frame x" and "sysops_law d"
  shows "\<exists>se dl. k__setscheduler_params e x d attr t =
    (let policy = (if sa_policy attr = SETPARAM_POLICY then t_policy t else sa_policy attr);
         t = t\<lparr>t_policy := policy, t_rt_priority := sa_priority attr, t_se := se, t_dl := dl,
           t_static_prio := (if \<not> dl_policy e policy \<and> fair_policy e policy then NICE_TO_PRIO e (sa_nice attr) else t_static_prio t)\<rparr>
     in t\<lparr>t_normal_prio := normal_prio e t\<rparr>)"
proof -
  let ?pol = "if sa_policy attr = SETPARAM_POLICY then t_policy t else sa_policy attr"
  let ?t1 = "t\<lparr>t_policy := ?pol\<rparr>"
  obtain v where v: "setparam_dl d attr ?t1 = ?t1\<lparr>t_dl := v\<rparr>" using assms(2) unfolding sysops_law_def by blast
  let ?t2 = "if dl_policy e ?pol then ?t1\<lparr>t_dl := v\<rparr>
     else if fair_policy e ?pol then ?t1\<lparr>t_static_prio := NICE_TO_PRIO e (sa_nice attr)\<rparr> else ?t1"
  let ?t3 = "?t2\<lparr>t_rt_priority := sa_priority attr\<rparr>"
  let ?t4 = "?t3\<lparr>t_normal_prio := normal_prio e ?t3\<rparr>"
  obtain s where s: "set_load_weight e (reweight_task x) True ?t4 = ?t4\<lparr>t_se := s\<rparr>"
    using set_load_weight_params [OF assms(1)] by blast
  have eq: "k__setscheduler_params e x d attr t = ?t4\<lparr>t_se := s\<rparr>"
    unfolding k__setscheduler_params_def Let_def v by (rule s)
  have t2: "?t2 = t\<lparr>t_policy := ?pol, t_dl := (if dl_policy e ?pol then v else t_dl t),
      t_static_prio := (if \<not> dl_policy e ?pol \<and> fair_policy e ?pol then NICE_TO_PRIO e (sa_nice attr) else t_static_prio t)\<rparr>"
    by (cases "dl_policy e ?pol"; cases "fair_policy e ?pol") simp_all
  show ?thesis
    unfolding eq t2 Let_def
    by (rule exI [of _ s], rule exI [of _ "if dl_policy e ?pol then v else t_dl t"]) (simp add: normal_prio_def)
qed

lemma setscheduler_params_weight:
  assumes "policy_h e" and "kops_frame x" and "reweight_law e x"
  shows "weight_wf e (k__setscheduler_params e x d attr t)"
proof -
  obtain u where u: "k__setscheduler_params e x d attr t = set_load_weight e (reweight_task x) True u"
    by (simp add: k__setscheduler_params_def Let_def)
  obtain s where s: "set_load_weight e (reweight_task x) True u = u\<lparr>t_se := s\<rparr>"
    using set_load_weight_params [OF assms(2)] by blast
  show ?thesis
    using set_load_weight_load [OF assms(1,3), of True u] unfolding u s
    by (auto simp: weight_wf_def policy_h.policy_h_simps [OF assms(1)])
qed

lemma setscheduler_params_wf:
  fixes e x d attr t
  defines "policy \<equiv> req_policy attr t" and "u \<equiv> k__setscheduler_params e x d attr t"
  assumes "prio_h e" and "policy_h e" and "kops_frame x" and "sysops_law d" and "prio_wf e t"
    and "sa_policy attr < 0 \<longrightarrow> sa_policy attr = SETPARAM_POLICY" and "valid_policy e policy"
    and "setscheduler_valid e d attr policy = None"
    and "fair_policy e policy \<longrightarrow> -20 \<le> sa_nice attr \<and> sa_nice attr \<le> 19"
    and "\<not> fair_policy e policy \<and> \<not> rt_policy e policy \<and> \<not> dl_policy e policy \<longrightarrow> sa_nice attr = task_nice e t"
  shows "t_policy u = policy" and "t_rt_priority u = sa_priority attr"
    and "t_normal_prio u = k__normal_prio e policy (int (sa_priority attr)) (sa_nice attr)"
    and "fair_policy e policy \<Longrightarrow> task_nice e u = sa_nice attr"
    and "t_pi_top_task u = t_pi_top_task t" and "t_uclamp u = t_uclamp t" and "t_uclamp_req u = t_uclamp_req t"
    and "t_sched_task_group u = t_sched_task_group t" and "t_sched_reset_on_fork u = t_sched_reset_on_fork t"
    and "\<And>prio. -1 \<le> prio \<Longrightarrow> prio \<le> t_normal_prio u \<Longrightarrow> prio_wf e (k__setscheduler_prio e prio u)"
proof -
  note h = prio_h.prio_h_simps [OF assms(3)]
  have pol: "policy = (if sa_policy attr = SETPARAM_POLICY then t_policy t else sa_policy attr)"
    using assms(8) by (cases "sa_policy attr < 0") (simp_all add: policy_def req_policy_def SETPARAM_POLICY_def)
  obtain se dl where u: "u = (let v = t\<lparr>t_policy := policy, t_rt_priority := sa_priority attr, t_se := se, t_dl := dl,
           t_static_prio := (if \<not> dl_policy e policy \<and> fair_policy e policy then NICE_TO_PRIO e (sa_nice attr) else t_static_prio t)\<rparr>
     in v\<lparr>t_normal_prio := normal_prio e v\<rparr>)"
    using setscheduler_params_eq [OF assms(5,6), of e attr t, folded pol u_def] unfolding Let_def by blast
  have dis: "fair_policy e policy \<Longrightarrow> \<not> dl_policy e policy \<and> \<not> rt_policy e policy"
    by (auto simp: policy_h.policy_h_simps [OF assms(4)])
  show "t_policy u = policy" "t_rt_priority u = sa_priority attr"
    "t_pi_top_task u = t_pi_top_task t" "t_uclamp u = t_uclamp t" "t_uclamp_req u = t_uclamp_req t"
    "t_sched_task_group u = t_sched_task_group t" "t_sched_reset_on_fork u = t_sched_reset_on_fork t"
    by (simp_all add: u Let_def)
  show n: "t_normal_prio u = k__normal_prio e policy (int (sa_priority attr)) (sa_nice attr)"
    using assms(12) by (auto simp: u Let_def normal_prio_def k__normal_prio_def h task_nice_def)
  show "fair_policy e policy \<Longrightarrow> task_nice e u = sa_nice attr"
    using dis by (simp add: u Let_def task_nice_def h)
  have rt: "if rt_policy e policy then 0 < sa_priority attr \<and> sa_priority attr \<le> 99 else sa_priority attr = 0"
    using assms(10) by (auto simp: setscheduler_valid_def h split: if_splits)
  have st: "100 \<le> t_static_prio u" "t_static_prio u < 140"
    using assms(7,11) by (auto simp: u Let_def prio_wf_def h)
  show "prio_wf e (k__setscheduler_prio e prio u)" if "-1 \<le> prio" "prio \<le> t_normal_prio u" for prio
    using rt st that assms(9) by (simp add: prio_wf_def k__setscheduler_prio_def) (simp add: u Let_def normal_prio_def)
qed

lemma setscheduler_change_cycle:
  fixes e x d c p attr policy reset pi k
  defines "n \<equiv> k__normal_prio e policy (int (sa_priority attr)) (sa_nice attr)"
  defines "k0 \<equiv> upd_task p (set_reset reset) k"
  assumes "kops_frame x"
  shows "\<exists>f f' running kb. let queued = task_on_rq_queued (tasks k p); ka = take_off e x c p f queued running k0;
      prio = (if pi then rt_effective_prio k p n else n)
    in sched_frame (put_back e x c p f' queued running (upd_task p (setscheduler_update e x d ka attr prio) ka)) kb \<and>
       setscheduler_change e x d c p attr policy reset pi k = (if pi then rt_mutex_adjust_pi d p kb else kb)"
proof -
  let ?q = "task_on_rq_queued (tasks k p)" and ?r = "rq_curr (rqs k c) = p"
  let ?n = "if pi then rt_effective_prio k p n else n"
  have eff: "rt_effective_prio k0 p m = rt_effective_prio k p m" for m
    by (auto simp: rt_effective_prio_def k0_def k__rt_effective_prio_def split: option.split)
  let ?f0 = "DEQUEUE_SAVE e OR DEQUEUE_MOVE e OR DEQUEUE_NOCLOCK e"
  let ?f = "if pi \<and> ?n = t_prio (tasks k p) then ?f0 AND NOT (DEQUEUE_MOVE e) else ?f0"
  let ?ka = "take_off e x c p ?f ?q ?r k0"
  let ?kc = "upd_task p (setscheduler_update e x d ?ka attr ?n) ?ka"
  let ?f' = "if t_prio (tasks k p) < t_prio (tasks ?kc p) then ?f OR ENQUEUE_HEAD e else ?f"
  let ?kd = "put_back e x c p ?f' ?q ?r ?kc"
  let ?kb = "check_class_changed e x c p (t_sched_class (tasks ?ka p)) (t_prio (tasks k p)) ?kd"
  have sel: "t_prio (tasks k0 p) = t_prio (tasks k p)" "task_on_rq_queued (tasks k0 p) = ?q" "rqs k0 = rqs k"
    by (simp_all add: k0_def task_on_rq_queued_def)
  have "setscheduler_change e x d c p attr policy reset pi k = (if pi then rt_mutex_adjust_pi d p ?kb else ?kb)"
    unfolding setscheduler_change_def Let_def k0_def [symmetric] n_def [symmetric] eff sel ..
  moreover have "sched_frame ?kd ?kb" by (rule sched_frame_callbacks(4) [OF assms(3)])
  ultimately show ?thesis unfolding Let_def by blast
qed

lemma setscheduler_change_params:
  fixes e x d c p attr policy reset pi k
  defines "n \<equiv> k__normal_prio e policy (int (sa_priority attr)) (sa_nice attr)"
  assumes "kops_frame x" and "sysops_law d"
  shows "\<exists>ka t. task_params t = task_params (set_reset reset (tasks k p)) \<and>
    task_params (tasks (setscheduler_change e x d c p attr policy reset pi k) p) =
    task_params (setscheduler_update e x d ka attr (if pi then rt_effective_prio k p n else n) t)"
proof -
  let ?k0 = "upd_task p (set_reset reset) k" and ?q = "task_on_rq_queued (tasks k p)"
  let ?prio = "if pi then rt_effective_prio k p n else n"
  obtain f f' r kb where kb: "sched_frame (put_back e x c p f' ?q r (upd_task p (setscheduler_update e x d
        (take_off e x c p f ?q r ?k0) attr ?prio) (take_off e x c p f ?q r ?k0))) kb"
    and k': "setscheduler_change e x d c p attr policy reset pi k = (if pi then rt_mutex_adjust_pi d p kb else kb)"
    using setscheduler_change_cycle [OF assms(2), where e = e and d = d and c = c and p = p and attr = attr
        and policy = policy and reset = reset and pi = pi and k = k] unfolding Let_def n_def by blast
  let ?ka = "take_off e x c p f ?q r ?k0"
  let ?kc = "upd_task p (setscheduler_update e x d ?ka attr ?prio) ?ka"
  have "params_same ?k0 ?ka" by (rule params_same_take_off [OF assms(2)])
  then have "task_params (tasks ?ka p) = task_params (set_reset reset (tasks k p))" by (simp add: params_same_def)
  moreover have "params_same ?kc kb" by (rule params_same_trans [OF params_same_put_back [OF assms(2)] sched_frame_params [OF kb]])
  then have "task_params (tasks kb p) = task_params (setscheduler_update e x d ?ka attr ?prio (tasks ?ka p))"
    by (simp add: params_same_def)
  moreover have "task_params (tasks (rt_mutex_adjust_pi d p kb) p) = task_params (tasks kb p)"
    using assms(3) by (simp add: sysops_law_def)
  ultimately show ?thesis using k' by (intro exI [of _ ?ka] exI [of _ "tasks ?ka p"]) simp
qed

lemma rt_effective_prio_bounds:
  assumes "-1 \<le> n" and "\<forall>q. t_pi_top_task (tasks k p) = Some q \<longrightarrow> -1 \<le> t_prio (tasks k q)"
  shows "-1 \<le> rt_effective_prio k p n" and "rt_effective_prio k p n \<le> n"
  using assms by (auto simp: rt_effective_prio_def k__rt_effective_prio_def split: option.split)

lemma normal_prio_ge:
  assumes "prio_h e" and "setscheduler_valid e d attr policy = None"
    and "\<not> rt_policy e policy \<longrightarrow> \<not> dl_policy e policy \<longrightarrow> -20 \<le> sa_nice attr"
  shows "-1 \<le> k__normal_prio e policy (int (sa_priority attr)) (sa_nice attr)"
proof -
  have "int (sa_priority attr) \<le> 99"
    using assms(2) by (simp add: setscheduler_valid_def prio_h.prio_h_simps [OF assms(1)] split: if_splits)
  then show ?thesis using assms(3) by (auto simp: k__normal_prio_def prio_h.prio_h_simps [OF assms(1)])
qed

lemma rt_effective_prio_cong:
  assumes "params_same k k1"
  shows "rt_effective_prio k1 p n = rt_effective_prio k p n"
proof -
  have "task_params (tasks k1 q) = task_params (tasks k q)" for q using assms by (simp add: params_same_def)
  note sel = task_params_sel [OF this]
  show ?thesis by (simp add: rt_effective_prio_def k__rt_effective_prio_def sel split: option.split)
qed

lemma wf_uclamp_req:
  "prio_wf e (t\<lparr>t_uclamp_req := f\<rparr>) = prio_wf e t" "weight_wf e (t\<lparr>t_uclamp_req := f\<rparr>) = weight_wf e t"
  by (simp_all add: prio_wf_def weight_wf_def normal_prio_def)

lemma wf_setprio: "weight_wf e (k__setscheduler_prio e prio t) = weight_wf e t"
  by (simp add: weight_wf_def k__setscheduler_prio_def)

lemma setprio_sel:
  "t_policy (k__setscheduler_prio e prio t) = t_policy t" "t_rt_priority (k__setscheduler_prio e prio t) = t_rt_priority t"
  "t_static_prio (k__setscheduler_prio e prio t) = t_static_prio t"
  "t_normal_prio (k__setscheduler_prio e prio t) = t_normal_prio t" "t_prio (k__setscheduler_prio e prio t) = prio"
  "t_sched_reset_on_fork (k__setscheduler_prio e prio t) = t_sched_reset_on_fork t"
  by (simp_all add: k__setscheduler_prio_def)

text \<open>
  A successful request gives the task the policy, real-time priority and (for a fair policy) nice value it
  asks for, keeps the priorities consistent with them and the load weight the one of the table.
\<close>

lemma setscheduler_effect:
  fixes e x s d p attr user pi k
  defines "policy \<equiv> req_policy attr (tasks k p)"
    and "k' \<equiv> snd (k__sched_setscheduler e x s d p attr user pi k)"
  assumes "prio_h e" and "policy_h e" and "kops_frame x" and "reweight_law e x" and "sysops_law d"
    and "prio_wf e (tasks k p)" and "weight_wf e (tasks k p)"
    and "\<forall>q. t_pi_top_task (tasks k p) = Some q \<longrightarrow> -1 \<le> t_prio (tasks k q)"
    and "sa_policy attr < 0 \<longrightarrow> sa_policy attr = SETPARAM_POLICY"
    and "\<not> flag_set (sa_flags attr) (SCHED_FLAG_KEEP_PARAMS e)"
    and "fair_policy e policy \<longrightarrow> -20 \<le> sa_nice attr \<and> sa_nice attr \<le> 19"
    and "idle_policy e policy \<longrightarrow> sa_nice attr = task_nice e (tasks k p)"
    and "fst (k__sched_setscheduler e x s d p attr user pi k) = None"
  shows "t_policy (tasks k' p) = policy \<and> t_rt_priority (tasks k' p) = sa_priority attr \<and>
    (fair_policy e policy \<longrightarrow> task_nice e (tasks k' p) = sa_nice attr) \<and>
    t_sched_reset_on_fork (tasks k' p) = req_reset e attr (tasks k p) \<and>
    prio_wf e (tasks k' p) \<and> weight_wf e (tasks k' p)"
proof -
  let ?t = "tasks k p" and ?reset = "req_reset e attr (tasks k p)"
  note h = prio_h.prio_h_simps [OF assms(3)] and ph = policy_h.policy_h_simps [OF assms(4)]
  show ?thesis
  proof (cases rule: setscheduler_cases [OF assms(7), where e = e and x = x and s = s and p = p and attr = attr
        and user = user and pi = pi and k = k, case_names err same change])
    case (err r)
    with assms(15) show ?thesis by simp
  next
    case (same k1)
    have t: "task_params (tasks k1 p) = task_params ?t" using same(1) by (simp add: params_same_def)
    note sel = task_params_sel [OF t]
    have k': "k' = upd_task p (set_reset ?reset) k1" using same(3) by (simp add: k'_def)
    have un: "policy = t_policy ?t" "fair_policy e policy \<longrightarrow> sa_nice attr = task_nice e ?t"
      "rt_policy e policy \<longrightarrow> sa_priority attr = t_rt_priority ?t"
      using same(4) by (auto simp: setscheduler_unchanged_def policy_def [symmetric] sel task_nice_def)
    have "\<not> rt_policy e policy \<longrightarrow> sa_priority attr = 0"
      using same(5) by (auto simp: setscheduler_valid_def policy_def [symmetric] split: if_splits)
    then have "sa_priority attr = t_rt_priority ?t"
      using un assms(8) by (cases "rt_policy e policy") (simp_all add: prio_wf_def)
    then show ?thesis
      using un assms(8,9) by (simp add: k' sel prio_wf_def weight_wf_def normal_prio_def task_nice_def)
  next
    case (change k1)
    let ?n = "k__normal_prio e policy (int (sa_priority attr)) (sa_nice attr)"
    let ?prio = "if pi then rt_effective_prio k1 p ?n else ?n"
    have k': "k' = setscheduler_change e x d (task_rq k p) p attr policy ?reset pi k1"
      using change(3) by (simp add: k'_def policy_def)
    obtain ka t where t: "task_params t = task_params (set_reset ?reset (tasks k1 p))"
      and k't: "task_params (tasks k' p) = task_params (setscheduler_update e x d ka attr ?prio t)"
      using setscheduler_change_params [OF assms(5,7)] unfolding k' by blast
    have t1: "task_params (tasks k1 p) = task_params ?t" using change(1) by (simp add: params_same_def)
    note sel = task_params_sel [OF t] and sel1 = task_params_sel [OF t1] and sel' = task_params_sel [OF k't]
    let ?u = "k__setscheduler_params e x d attr t"
    have wf: "prio_wf e t" using assms(8) by (simp add: prio_wf_def normal_prio_def sel sel1)
    have pol: "req_policy attr t = policy" by (simp add: req_policy_def policy_def sel sel1)
    have val: "valid_policy e policy"
      using change(4) assms(8) by (auto simp: policy_def [symmetric]) (auto simp: policy_def req_policy_def prio_wf_def)
    have chk: "setscheduler_valid e d attr policy = None" using change(5) by (simp add: policy_def)
    have nice: "\<not> fair_policy e policy \<and> \<not> rt_policy e policy \<and> \<not> dl_policy e policy \<longrightarrow> sa_nice attr = task_nice e t"
      using val assms(14) by (auto simp: ph(11) task_nice_def sel sel1)
    note u = setscheduler_params_wf [where t = t and attr = attr, unfolded pol, OF assms(3-5,7) wf assms(11) val chk assms(13) nice]
    have "-20 \<le> sa_nice attr" if "\<not> rt_policy e policy" "\<not> dl_policy e policy"
      using nice assms(13) wf that by (cases "fair_policy e policy") (simp_all add: task_nice_def prio_wf_def h)
    then have ge: "-1 \<le> ?n" using normal_prio_ge [OF assms(3) chk] by blast
    have don: "\<forall>q. t_pi_top_task (tasks k1 p) = Some q \<longrightarrow> -1 \<le> t_prio (tasks k1 q)"
    proof (intro allI impI)
      fix q
      assume "t_pi_top_task (tasks k1 p) = Some q"
      then have "-1 \<le> t_prio (tasks k q)" using assms(10) by (simp add: sel1)
      moreover have q: "task_params (tasks k1 q) = task_params (tasks k q)" using change(1) by (simp add: params_same_def)
      ultimately show "-1 \<le> t_prio (tasks k1 q)" unfolding task_params_sel(1) [OF q] by blast
    qed
    have prio: "-1 \<le> ?prio" "?prio \<le> t_normal_prio ?u"
      using rt_effective_prio_bounds [OF ge don] ge u(3) by simp_all
    let ?v = "k__setscheduler_prio e ?prio ?u"
    obtain f where f: "setscheduler_update e x d ka attr ?prio t = ?v\<lparr>t_uclamp_req := f\<rparr>"
      using setscheduler_uclamp_eq [of e ka ?v attr] assms(12) by (auto simp: setscheduler_update_def)
    have "prio_wf e ?v" using u(10) prio by blast
    moreover have "weight_wf e ?u" using assms(4,5,6) by (rule setscheduler_params_weight)
    ultimately have "prio_wf e (?v\<lparr>t_uclamp_req := f\<rparr>)" "weight_wf e (?v\<lparr>t_uclamp_req := f\<rparr>)"
      by (simp_all only: wf_uclamp_req wf_setprio)
    then have "prio_wf e (tasks k' p)" "weight_wf e (tasks k' p)" unfolding params_cong [OF k't] f by blast+
    moreover have "t_policy (tasks k' p) = policy" "t_rt_priority (tasks k' p) = sa_priority attr"
      "t_sched_reset_on_fork (tasks k' p) = ?reset"
      by (simp_all add: sel' f setprio_sel u(1,2,9) sel)
    moreover have "task_nice e (tasks k' p) = sa_nice attr" if "fair_policy e policy"
      using u(4) [OF that] by (simp add: task_nice_def sel' f setprio_sel)
    ultimately show ?thesis by blast
  qed
qed


definition sample_sysops :: sysops where
  "sample_sysops = \<lparr>find_task_by_vpid = (\<lambda>pid. if pid < 10 then Some pid else None), checkparam_dl = (\<lambda>_. True),
     dl_param_changed = (\<lambda>_ _. True), setparam_dl = (\<lambda>_ t. t), getparam_dl = (\<lambda>_ a. a),
     sched_dl_overflow = (\<lambda>_ _ _ k. (False, k)), rt_bandwidth_enabled = False, tg_rt_runtime = (\<lambda>_. 0),
     dl_bandwidth_enabled = False, rd_span = (\<lambda>_. {}), rd_dl_bw = (\<lambda>_. 0), rt_mutex_adjust_pi = (\<lambda>_ k. k)\<rparr>"

lemma sample_sysops_law: "sysops_law sample_sysops"
proof -
  have "\<exists>v. t = t\<lparr>t_dl := v\<rparr>" for t :: task_struct by (rule exI [of _ "t_dl t"]) simp
  then show ?thesis by (simp add: sysops_law_def sample_sysops_def)
qed

lemma update_rq_clock_stop: "rq_stop (rqs (update_rq_clock e x c k) c) = rq_stop (rqs k c)"
  by (simp add: update_rq_clock_def update_rq_clock_task_def Let_def)

text \<open>A request without flags, from inside the kernel, for another than the present policy is granted.\<close>

lemma setscheduler_granted:
  assumes "valid_policy e (sa_policy attr)" and "sa_policy attr \<noteq> t_policy (tasks k p)" and "sa_flags attr = 0"
    and "0 \<le> sa_policy attr" and "setscheduler_valid e d attr (sa_policy attr) = None"
    and "\<not> dl_policy e (sa_policy attr)" and "\<not> dl_task e (tasks k p)" and "Some p \<noteq> rq_stop (rqs k (task_rq k p))"
  shows "k__sched_setscheduler e x s d p attr False pi k =
    (None, setscheduler_change e x d (task_rq k p) p attr (sa_policy attr) (flag_set 0 (SCHED_FLAG_RESET_ON_FORK e)) pi
      (update_rq_clock e x (task_rq k p) k))"
proof -
  have fr: "sched_frame k (update_rq_clock e x (task_rq k p) k)" by simp
  note sel = task_core_sel [OF sched_frame_task [OF fr]]
  show ?thesis
    using assms unfolding k__sched_setscheduler_def
    by (simp add: Let_def setscheduler_unchanged_def dl_task_def sel update_rq_clock_stop flag_set_def)
qed


subsection \<open>Permission\<close>

lemma setscheduler_reset:
  assumes "kops_frame x" and "sysops_law d" and "fst (k__sched_setscheduler e x s d p attr user pi k) = None"
  shows "t_sched_reset_on_fork (tasks (snd (k__sched_setscheduler e x s d p attr user pi k)) p) = req_reset e attr (tasks k p)"
proof (cases rule: setscheduler_cases [OF assms(2), where e = e and x = x and s = s and p = p and attr = attr
      and user = user and pi = pi and k = k, case_names err same change])
  case (err r)
  with assms(3) show ?thesis by simp
next
  case (same k1)
  then show ?thesis by simp
next
  case (change k1)
  let ?reset = "req_reset e attr (tasks k p)" and ?policy = "req_policy attr (tasks k p)"
  let ?n = "k__normal_prio e ?policy (int (sa_priority attr)) (sa_nice attr)"
  let ?prio = "if pi then rt_effective_prio k1 p ?n else ?n"
  obtain ka t where t: "task_params t = task_params (set_reset ?reset (tasks k1 p))"
    and k't: "task_params (tasks (setscheduler_change e x d (task_rq k p) p attr ?policy ?reset pi k1) p) =
      task_params (setscheduler_update e x d ka attr ?prio t)"
    using setscheduler_change_params [OF assms(1,2)] by blast
  have "t_sched_reset_on_fork (k__setscheduler_params e x d attr t) = t_sched_reset_on_fork t"
    using setscheduler_params_eq [OF assms(1,2), of e attr t] by (auto simp: Let_def)
  moreover have "t_sched_reset_on_fork (k__setscheduler_uclamp e k t attr) = t_sched_reset_on_fork t" for k t
    by (subst setscheduler_uclamp_eq) simp
  ultimately have "t_sched_reset_on_fork (setscheduler_update e x d ka attr ?prio t) = t_sched_reset_on_fork t"
    by (simp add: setscheduler_update_def setprio_sel)
  then show ?thesis using change(3) task_params_sel(14) [OF k't] task_params_sel(14) [OF t] by simp
qed

text \<open>
  C12.  What an unprivileged caller can achieve with a request that the kernel grants: never a deadline policy,
  only on a task of the same owner, no real-time priority above the task's present one and the resource limit,
  no real-time policy at all when that limit is zero and the policy is new, no nice value below the present
  one and the limit, no escape from \<^verbatim>\<open>SCHED_IDLE\<close> without the right to the present nice value, and no clearing
  of the flag that children are reset on fork.
\<close>

theorem setscheduler_permission:
  fixes e x s d p attr pi k
  defines "t \<equiv> tasks k p" and "policy \<equiv> req_policy attr (tasks k p)"
    and "k' \<equiv> snd (k__sched_setscheduler e x s d p attr True pi k)"
  assumes "prio_h e" and "kops_frame x" and "sysops_law d" and "\<not> capable_nice s"
    and "-20 \<le> sa_nice attr \<and> sa_nice attr \<le> 19" and "-20 \<le> task_nice e t \<and> task_nice e t \<le> 19"
    and "fst (k__sched_setscheduler e x s d p attr True pi k) = None"
  shows "\<not> dl_policy e policy \<and> check_same_owner s k p \<and>
    (rt_policy e policy \<longrightarrow> sa_priority attr \<le> max (t_rt_priority t) (rlim_rtprio s p) \<and>
       (policy \<noteq> t_policy t \<longrightarrow> rlim_rtprio s p \<noteq> 0)) \<and>
    (fair_policy e policy \<longrightarrow> min (task_nice e t) (20 - int (rlim_nice s p)) \<le> sa_nice attr) \<and>
    (idle_policy e (t_policy t) \<and> \<not> idle_policy e policy \<longrightarrow> 20 - int (rlim_nice s p) \<le> task_nice e t) \<and>
    (t_sched_reset_on_fork t \<longrightarrow> t_sched_reset_on_fork (tasks k' p))"
proof -
  have reset: "t_sched_reset_on_fork (tasks k' p) = req_reset e attr t"
    unfolding k'_def t_def by (rule setscheduler_reset [OF assms(5,6,10)])
  have can: "can_nice e s p n \<longleftrightarrow> 20 - n \<le> int (rlim_nice s p)" if "-20 \<le> n" "n \<le> 19" for n
    using nice_rlimit_word [OF assms(4) that] that assms(7) by (auto simp: can_nice_def)
  have "setscheduler_user_check e s k p attr policy (req_reset e attr t) = None"
    by (cases rule: setscheduler_cases [OF assms(6), where e = e and x = x and s = s and p = p and attr = attr
          and user = True and pi = pi and k = k])
      (use assms(10) in \<open>simp_all add: policy_def t_def\<close>)
  then have "\<not> setscheduler_denied e s k p attr policy (req_reset e attr t)"
    using assms(7) by (simp add: setscheduler_user_check_def split: if_splits)
  then have ok: "fair_policy e policy \<and> sa_nice attr < task_nice e t \<longrightarrow> can_nice e s p (sa_nice attr)"
    "rt_policy e policy \<and> policy \<noteq> t_policy t \<longrightarrow> rlim_rtprio s p \<noteq> 0"
    "rt_policy e policy \<and> t_rt_priority t < sa_priority attr \<longrightarrow> sa_priority attr \<le> rlim_rtprio s p"
    "\<not> dl_policy e policy" "check_same_owner s k p" "t_sched_reset_on_fork t \<longrightarrow> req_reset e attr t"
    "idle_policy e (t_policy t) \<and> \<not> idle_policy e policy \<longrightarrow> can_nice e s p (task_nice e t)"
    unfolding setscheduler_denied_def Let_def t_def by (simp_all split: if_split_asm) (simp_all add: not_less disj_imp)
  have "rt_policy e policy \<longrightarrow> sa_priority attr \<le> max (t_rt_priority t) (rlim_rtprio s p)"
    using ok(3) by linarith
  moreover have "fair_policy e policy \<longrightarrow> min (task_nice e t) (20 - int (rlim_nice s p)) \<le> sa_nice attr"
    using ok(1) can [of "sa_nice attr"] assms(8) by linarith
  moreover have "idle_policy e (t_policy t) \<and> \<not> idle_policy e policy \<longrightarrow> 20 - int (rlim_nice s p) \<le> task_nice e t"
    using ok(7) can [of "task_nice e t"] assms(9) by linarith
  ultimately show ?thesis using ok reset by blast
qed

text \<open>A request of a user for a real-time priority within the limit.\<close>

theorem setscheduler_permission_witness:
  "let res = k__sched_setscheduler kenv_v5_17 plain_kops sample_secops sample_sysops 2
         (zero_attr\<lparr>sa_policy := 1, sa_priority := 10\<rparr>) True True sample_prio_kernel
   in fst res = None \<and> 10 \<le> max (t_rt_priority (tasks sample_prio_kernel 2)) (rlim_rtprio sample_secops 2)"
proof -
  let ?attr = "zero_attr\<lparr>sa_policy := 1, sa_priority := 10\<rparr>" and ?k = sample_prio_kernel
  let ?res = "k__sched_setscheduler kenv_v5_17 plain_kops sample_secops sample_sysops 2 ?attr True True ?k"
  note h = v5_17_policy.policy_h_simps v5_17_prio.prio_h_simps
  let ?k1 = "update_rq_clock kenv_v5_17 plain_kops (task_rq ?k 2) ?k"
  have fr: "sched_frame ?k ?k1" by simp
  note sel = task_core_sel [OF sched_frame_task [OF fr]]
  have rq: "rq_stop (rqs ?k1 (task_rq ?k 2)) = rq_stop (rqs ?k (task_rq ?k 2))" by (rule update_rq_clock_stop)
  have t: "tasks ?k 2 = sample_rt" "rq_stop (rqs ?k (task_rq ?k 2)) = None" "t_policy sample_rt = 1" "t_prio sample_rt = 49"
    by (simp_all add: sample_prio_kernel_def sample_rt_def zero_defs)
  have st: "t_static_prio sample_rt = 120" "\<not> t_sched_reset_on_fork sample_rt" by (simp_all add: sample_rt_def zero_defs)
  have "fst ?res = None"
    unfolding k__sched_setscheduler_def
    by (simp add: Let_def zero_attr_def h setscheduler_valid_def setscheduler_user_check_def setscheduler_denied_def t st sel rq
      check_same_owner_def sample_secops_def flag_set_def setscheduler_admit_def sample_sysops_def dl_task_def case_prod_unfold)
  then show ?thesis
    using setscheduler_permission [OF v5_17_prio.prio_h_axioms plain_kops_frame sample_sysops_law,
        where s = sample_secops and attr = ?attr and p = 2 and k = ?k and pi = True]
    by (simp add: Let_def sample_secops_def zero_attr_def req_policy_def h t st task_nice_def)
qed

subsection \<open>Setting and reading back\<close>

lemma or_clear_bit: "bit w n \<Longrightarrow> w AND NOT (2 ^ n) OR 2 ^ n = w" for w :: "'a::len word"
  by (rule bit_word_eqI) (auto simp: bit_simps)

lemma reset_flag_word:
  fixes w :: u32
  assumes "flag_set w 0x40000000"
  shows "w AND NOT 0x40000000 OR 0x40000000 = w"
proof -
  have "bit w 30"
    using assms and_exp_eq_0_iff_not_bit [of w 30] by (simp add: flag_set_def)
  from or_clear_bit [OF this] show ?thesis by simp
qed

lemma sint_of_int_small: "0 \<le> i \<Longrightarrow> i < 2 ^ 31 \<Longrightarrow> sint (of_int i :: u32) = i"
  by (simp add: sint_sbintrunc' signed_take_bit_int_eq_self)

lemma sint_clear_nonneg:
  assumes "0 \<le> i" "i < 2 ^ 31"
  shows "0 \<le> sint (of_int i AND m :: u32)"
proof -
  have "\<not> bit (of_int i :: u32) 31"
    using bit_last_iff [of "of_int i :: u32"] sint_of_int_small [OF assms] assms(1) by simp
  then show ?thesis using bit_last_iff [of "of_int i AND m :: u32"] by (simp add: bit_and_iff)
qed

lemma unat_of_int_small:
  assumes "unat (of_int i :: u32) \<le> 99" "-(2 ^ 31) \<le> i" "i < 2 ^ 31"
  shows "0 \<le> i" and "unat (of_int i :: u32) = nat i"
proof -
  have u: "int (unat (of_int i :: u32)) = i mod 2 ^ 32" by (simp add: uint_word_of_int)
  have m: "i mod 2 ^ 32 = (if 0 \<le> i then i else i + 2 ^ 32)"
    using assms(2,3) mod_pos_pos_trivial [of i "2 ^ 32"] mod_pos_pos_trivial [of "i + 2 ^ 32" "2 ^ 32"] by auto
  show i: "0 \<le> i"
  proof (rule ccontr)
    assume "\<not> 0 \<le> i"
    then have "int (unat (of_int i :: u32)) = i + 2 ^ 32" using u m by simp
    then have "i + 2 ^ 32 \<le> 99" using assms(1) by (metis of_nat_le_iff of_nat_numeral)
    then show False using assms(2) by simp
  qed
  show "unat (of_int i :: u32) = nat i" using u i unfolding m by (metis nat_int)
qed

text \<open>
  C13.  What a successful call of \<^verbatim>\<open>sched_setscheduler\<close> sets is what \<^verbatim>\<open>sched_getscheduler\<close> and \<^verbatim>\<open>sched_getparam\<close> then
  report: the policy with the flag that resets children, and the real-time priority.  In particular a
  negative priority is never accepted, although the kernel stores it as an unsigned number.
\<close>

theorem sched_setscheduler_roundtrip:
  fixes e x s d p pid policy prio k
  defines "k' \<equiv> snd (sys_sched_setscheduler e x s d pid policy (Some (Some prio)) k)"
  assumes "prio_h e" and "policy_h e" and "attr_h e" and "kops_frame x" and "reweight_law e x" and "sysops_law d"
    and "0 < pid" and "find_task_by_vpid d (nat pid) = Some p" and "security_task_getscheduler s p = None"
    and "prio_wf e (tasks k p)" and "weight_wf e (tasks k p)"
    and "\<forall>q. t_pi_top_task (tasks k p) = Some q \<longrightarrow> -1 \<le> t_prio (tasks k q)"
    and "policy < 2 ^ 31" and "-(2 ^ 31) \<le> prio" and "prio < 2 ^ 31"
    and "fst (sys_sched_setscheduler e x s d pid policy (Some (Some prio)) k) = None"
  shows "sys_sched_getscheduler e s d pid k' = Inr policy \<and> 0 \<le> prio \<and>
    sys_sched_getparam e s d pid (Some True) k' = Inr (nat prio)"
proof -
  note h = prio_h.prio_h_simps [OF assms(2)] and ah = attr_h.attr_h_simps [OF assms(4)]
  let ?w = "of_int policy :: u32" and ?R = "SCHED_RESET_ON_FORK e"
  let ?a0 = "zero_attr\<lparr>sa_policy := policy, sa_priority := unat (of_int prio :: u32),
      sa_nice := PRIO_TO_NICE e (t_static_prio (tasks k p))\<rparr>"
  define attr where "attr = (if flag_set ?w ?R
      then ?a0\<lparr>sa_flags := sa_flags ?a0 OR SCHED_FLAG_RESET_ON_FORK e, sa_policy := sint (?w AND NOT ?R)\<rparr> else ?a0)"
  have pol: "0 \<le> policy" using assms(17) by (auto simp: sys_sched_setscheduler_def split: if_splits)
  have eq: "sys_sched_setscheduler e x s d pid policy (Some (Some prio)) k = k__sched_setscheduler e x s d p attr True True k"
    using pol assms(8,9)
    by (simp add: sys_sched_setscheduler_def do_sched_setscheduler_def find_process_by_pid_def sched_setscheduler_def
        u_sched_setscheduler_def attr_def SETPARAM_POLICY_def Let_def del: of_int_and_eq of_int_not_eq cong: if_cong)
  have nn: "0 \<le> sa_policy attr" using pol sint_clear_nonneg [OF pol assms(14)] by (simp add: attr_def)
  have nice: "sa_nice attr = task_nice e (tasks k p)" by (simp add: attr_def task_nice_def)
  have range: "-20 \<le> sa_nice attr \<and> sa_nice attr \<le> 19"
    unfolding nice using assms(11) by (simp add: prio_wf_def task_nice_def h)
  have keep: "\<not> flag_set (sa_flags attr) (SCHED_FLAG_KEEP_PARAMS e)" by (simp add: attr_def ah flag_set_def zero_attr_def)
  have reset: "flag_set (sa_flags attr) (SCHED_FLAG_RESET_ON_FORK e) = flag_set ?w ?R"
    by (simp add: attr_def ah flag_set_def zero_attr_def)
  have "t_policy (tasks k' p) = sa_policy attr \<and> t_rt_priority (tasks k' p) = sa_priority attr \<and>
      t_sched_reset_on_fork (tasks k' p) = flag_set ?w ?R \<and> prio_wf e (tasks k' p)"
    using setscheduler_effect [OF assms(2,3,5-7,11-13), of attr s True True] nn range nice keep reset assms(17)
    by (simp add: k'_def eq req_policy_def req_reset_def)
  then have t: "t_policy (tasks k' p) = sa_policy attr" "t_rt_priority (tasks k' p) = sa_priority attr"
    "t_sched_reset_on_fork (tasks k' p) = flag_set ?w ?R" "prio_wf e (tasks k' p)" by simp_all
  have "of_int (sa_policy attr) OR (if flag_set ?w ?R then ?R else 0) = ?w"
    using reset_flag_word [of ?w] by (cases "flag_set ?w ?R") (simp_all add: attr_def ah)
  then have get: "sint (of_int (t_policy (tasks k' p)) OR
      (if t_sched_reset_on_fork (tasks k' p) then ?R else 0) :: u32) = policy"
    unfolding t using sint_of_int_small [OF pol assms(14)] by simp
  have lp: "(if rt_policy e (t_policy (tasks k' p)) then t_rt_priority (tasks k' p) else 0) = unat (of_int prio :: u32)"
    "unat (of_int prio :: u32) \<le> 99"
    using t(2,4) by (auto simp: prio_wf_def attr_def split: if_splits)
  show ?thesis
    using get lp(1) unat_of_int_small [OF lp(2) assms(15,16)] assms(8-10)
    by (simp add: sys_sched_getscheduler_def sys_sched_getparam_def find_process_by_pid_def Let_def)
qed

theorem sched_setscheduler_roundtrip_witness:
  "let k' = snd (sys_sched_setscheduler kenv_v5_17 plain_kops (sample_secops\<lparr>capable_nice := True\<rparr>) sample_sysops 3 0x40000001
       (Some (Some 10)) sample_prio_kernel)
   in sys_sched_getscheduler kenv_v5_17 (sample_secops\<lparr>capable_nice := True\<rparr>) sample_sysops 3 k' = Inr 0x40000001 \<and>
      sys_sched_getparam kenv_v5_17 (sample_secops\<lparr>capable_nice := True\<rparr>) sample_sysops 3 (Some True) k' = Inr 10"
proof -
  let ?s = "sample_secops\<lparr>capable_nice := True\<rparr>" and ?k = sample_prio_kernel
  let ?res = "sys_sched_setscheduler kenv_v5_17 plain_kops ?s sample_sysops 3 0x40000001 (Some (Some 10)) ?k"
  note h = v5_17_policy.policy_h_simps v5_17_prio.prio_h_simps v5_17_attr.attr_h_simps
  let ?k1 = "update_rq_clock kenv_v5_17 plain_kops (task_rq ?k 3) ?k"
  have fr: "sched_frame ?k ?k1" by simp
  note sel = task_core_sel [OF sched_frame_task [OF fr]]
  have t: "t_policy (tasks ?k 3) = 0" "t_prio (tasks ?k 3) = 120" "t_pi_top_task (tasks ?k 3) = None"
    "rq_stop (rqs ?k (task_rq ?k 3)) = None"
    by (simp_all add: sample_prio_kernel_def sample_fair_def zero_defs)
  have "fst ?res = None"
    unfolding sys_sched_setscheduler_def do_sched_setscheduler_def sched_setscheduler_def u_sched_setscheduler_def
      k__sched_setscheduler_def
    by (simp add: Let_def zero_attr_def h setscheduler_valid_def setscheduler_user_check_def setscheduler_unchanged_def
      find_process_by_pid_def t sel update_rq_clock_stop sample_secops_def flag_set_def setscheduler_admit_def
      sample_sysops_def dl_task_def case_prod_unfold SETPARAM_POLICY_def)
  then show ?thesis
    using sched_setscheduler_roundtrip [OF v5_17_prio.prio_h_axioms v5_17_policy.policy_h_axioms v5_17_attr.attr_h_axioms
        plain_kops_frame plain_kops_reweight sample_sysops_law, where pid = 3 and p = 3 and s = ?s and k = ?k
        and policy = "0x40000001" and prio = 10]
    by (simp add: Let_def sample_prio_kernel_wf t) (simp add: sample_sysops_def sample_secops_def)
qed

subsection \<open>The nice value of an idle task\<close>

text \<open>
  A request for \<^verbatim>\<open>SCHED_IDLE\<close> through \<^verbatim>\<open>sched_setattr\<close> that names another nice value than the present one
  leaves a task whose priority is not its normal priority although no one boosts it: the priority is computed
  from the requested nice value, which \<^verbatim>\<open>__setscheduler_params\<close> stores for the normal and the batch policy only.
\<close>

theorem sched_setattr_idle_prio:
  fixes e x s d p attr k
  defines "k' \<equiv> snd (sched_setattr e x s d p attr k)"
  assumes "prio_h e" and "policy_h e" and "kops_frame x" and "sysops_law d"
    and "sa_policy attr = SCHED_IDLE e" and "t_policy (tasks k p) \<noteq> SCHED_IDLE e"
    and "t_pi_top_task (tasks k p) = None" and "\<not> flag_set (sa_flags attr) (SCHED_FLAG_KEEP_PARAMS e)"
    and "fst (sched_setattr e x s d p attr k) = None"
  shows "t_prio (tasks k' p) = NICE_TO_PRIO e (sa_nice attr) \<and>
    t_normal_prio (tasks k' p) = t_static_prio (tasks k p) \<and> t_static_prio (tasks k' p) = t_static_prio (tasks k p)"
proof -
  note h = prio_h.prio_h_simps [OF assms(2)] and ph = policy_h.policy_h_simps [OF assms(3)]
  have pol: "req_policy attr (tasks k p) = SCHED_IDLE e" by (simp add: req_policy_def assms(6) ph)
  show ?thesis
  proof (cases rule: setscheduler_cases [OF assms(5), where e = e and x = x and s = s and p = p and attr = attr
        and user = True and pi = True and k = k, unfolded pol, case_names err same change])
    case (err r)
    with assms(10) show ?thesis by (simp add: sched_setattr_def)
  next
    case (same k1)
    have t: "task_params (tasks k1 p) = task_params (tasks k p)" using same(1) by (simp add: params_same_def)
    then show ?thesis using same(4) assms(7) by (simp add: setscheduler_unchanged_def task_params_sel [OF t])
  next
    case (change k1)
    let ?reset = "req_reset e attr (tasks k p)"
    let ?n = "k__normal_prio e (SCHED_IDLE e) (int (sa_priority attr)) (sa_nice attr)"
    obtain ka t where t: "task_params t = task_params (set_reset ?reset (tasks k1 p))"
      and "task_params (tasks (setscheduler_change e x d (task_rq k p) p attr (SCHED_IDLE e) ?reset True k1) p) =
        task_params (setscheduler_update e x d ka attr (rt_effective_prio k1 p ?n) t)"
      using setscheduler_change_params [OF assms(4,5), where pi = True, unfolded if_True] by blast
    then have k't: "task_params (tasks k' p) = task_params (setscheduler_update e x d ka attr (rt_effective_prio k1 p ?n) t)"
      using change(3) by (simp add: k'_def sched_setattr_def)
    have t1: "task_params (tasks k1 p) = task_params (tasks k p)" using change(1) by (simp add: params_same_def)
    note sel = task_params_sel [OF t] and sel1 = task_params_sel [OF t1] and sel' = task_params_sel [OF k't]
    have n: "rt_effective_prio k1 p ?n = NICE_TO_PRIO e (sa_nice attr)"
      by (simp add: rt_effective_prio_def k__rt_effective_prio_def sel1 assms(8) k__normal_prio_def h ph)
    obtain f where f: "setscheduler_update e x d ka attr (rt_effective_prio k1 p ?n) t =
        (k__setscheduler_prio e (rt_effective_prio k1 p ?n) (k__setscheduler_params e x d attr t))\<lparr>t_uclamp_req := f\<rparr>"
      using setscheduler_uclamp_eq [of e ka "k__setscheduler_prio e (rt_effective_prio k1 p ?n) (k__setscheduler_params e x d attr t)"
          attr] assms(9) by (auto simp: setscheduler_update_def)
    obtain se dl where u: "k__setscheduler_params e x d attr t = (let u = t\<lparr>t_policy := SCHED_IDLE e,
        t_rt_priority := sa_priority attr, t_se := se, t_dl := dl, t_static_prio := t_static_prio t\<rparr>
        in u\<lparr>t_normal_prio := normal_prio e u\<rparr>)"
      using setscheduler_params_eq [OF assms(4,5), of e attr t] by (auto simp: SETPARAM_POLICY_def assms(6) ph Let_def)
    show ?thesis
      unfolding sel' f unfolding n
      by (simp add: setprio_sel) (simp add: u Let_def normal_prio_def k__normal_prio_def h ph sel sel1)
  qed
qed

theorem sched_setattr_idle_prio_witness:
  "let k' = snd (sched_setattr kenv_v5_17 plain_kops sample_secops sample_sysops 3 (zero_attr\<lparr>sa_policy := 5, sa_nice := 10\<rparr>)
       sample_prio_kernel)
   in t_prio (tasks k' 3) = 130 \<and> t_normal_prio (tasks k' 3) = 120"
proof -
  let ?attr = "zero_attr\<lparr>sa_policy := 5, sa_nice := 10\<rparr>" and ?k = sample_prio_kernel
  note h = v5_17_policy.policy_h_simps v5_17_prio.prio_h_simps v5_17_attr.attr_h_simps
  let ?k1 = "update_rq_clock kenv_v5_17 plain_kops (task_rq ?k 3) ?k"
  have fr: "sched_frame ?k ?k1" by simp
  note sel = task_core_sel [OF sched_frame_task [OF fr]]
  have t: "t_policy (tasks ?k 3) = 0" "t_prio (tasks ?k 3) = 120" "t_pi_top_task (tasks ?k 3) = None"
    "rq_stop (rqs ?k (task_rq ?k 3)) = None" "t_static_prio (tasks ?k 3) = 120" "\<not> t_sched_reset_on_fork (tasks ?k 3)"
    by (simp_all add: sample_prio_kernel_def sample_fair_def zero_defs)
  have "fst (sched_setattr kenv_v5_17 plain_kops sample_secops sample_sysops 3 ?attr ?k) = None"
    unfolding sched_setattr_def k__sched_setscheduler_def
    by (simp add: Let_def zero_attr_def h setscheduler_valid_def setscheduler_user_check_def setscheduler_unchanged_def
      setscheduler_denied_def check_same_owner_def t sel update_rq_clock_stop sample_secops_def flag_set_def
      setscheduler_admit_def sample_sysops_def dl_task_def case_prod_unfold)
  then show ?thesis
    using sched_setattr_idle_prio [OF v5_17_prio.prio_h_axioms v5_17_policy.policy_h_axioms plain_kops_frame
        sample_sysops_law, of ?attr ?k 3 sample_secops]
    by (simp add: Let_def t h zero_attr_def flag_set_def)
qed

end
