(* ===== verification/Pick_Next.thy ===== *)
theory Pick_Next
  imports Setscheduler
begin

text \<open>
  Choosing the next task, \<^verbatim>\<open>Project 2/core.c\<close> lines 5581 to 6013: the walk over the scheduling classes, and the
  selection of core scheduling, which chooses for all hardware threads of a core at once so that only tasks
  with the same cookie run together.

  Picking returns \<open>None\<close> when the code reaches \<^verbatim>\<open>BUG()\<close> or would follow a null pointer.
\<close>

subsection \<open>The walk over the classes\<close>

definition sched_classes :: "sched_class list" where
  "sched_classes = [stop_sched_class, dl_sched_class, rt_sched_class, fair_sched_class, idle_sched_class]"

text \<open>\<^verbatim>\<open>for_class_range(class, from, &idle_sched_class)\<close>\<close>

definition class_range :: "sched_class \<Rightarrow> sched_class list" where
  "class_range s = takeWhile (\<lambda>s. s \<noteq> idle_sched_class) (dropWhile (\<lambda>s'. s' \<noteq> s) sched_classes)"

fun balance_classes :: "kops \<Rightarrow> cpu \<Rightarrow> tid \<Rightarrow> sched_class list \<Rightarrow> kernel \<Rightarrow> kernel" where
  "balance_classes x c prev [] k = k"
| "balance_classes x c prev (s # ss) k =
     (let (found, k) = op_balance x s c prev k in if found then k else balance_classes x c prev ss k)"

definition put_prev_task_balance :: "kops \<Rightarrow> cpu \<Rightarrow> tid \<Rightarrow> kernel \<Rightarrow> kernel" where
  "put_prev_task_balance x c prev k =
     put_prev_task x c prev (balance_classes x c prev (class_range (t_sched_class (tasks k prev))) k)"

fun pick_classes ::
  "(sched_class \<Rightarrow> kernel \<Rightarrow> tid option \<times> kernel) \<Rightarrow> sched_class list \<Rightarrow> kernel \<Rightarrow> (tid \<times> kernel) option" where
  "pick_classes pick [] k = None"
| "pick_classes pick (s # ss) k =
     (case pick s k of (Some p, k) \<Rightarrow> Some (p, k) | (None, k) \<Rightarrow> pick_classes pick ss k)"

definition pick_slow :: "kops \<Rightarrow> cpu \<Rightarrow> tid \<Rightarrow> kernel \<Rightarrow> (tid \<times> kernel) option" where
  "pick_slow x c prev k =
     pick_classes (\<lambda>s. op_pick_next_task x s c) sched_classes (put_prev_task_balance x c prev k)"

definition k__pick_next_task :: "kops \<Rightarrow> cpu \<Rightarrow> tid \<Rightarrow> kernel \<Rightarrow> (tid \<times> kernel) option" where
  "k__pick_next_task x c prev k =
     (if t_sched_class (tasks k prev) \<le> fair_sched_class \<and> rq_nr_running (rqs k c) = rq_cfs_h_nr_running (rqs k c)
      then case pick_next_task_fair x c prev k of
          (RETRY_TASK, k) \<Rightarrow> pick_slow x c prev k
        | (No_task, k) \<Rightarrow> Some (pick_next_task_idle x c (put_prev_task x c prev k))
        | (Picked p, k) \<Rightarrow> Some (p, k)
      else pick_slow x c prev k)"

subsection \<open>Core scheduling\<close>

definition is_task_rq_idle :: "kernel \<Rightarrow> tid \<Rightarrow> bool" where
  "is_task_rq_idle k t \<longleftrightarrow> rq_idle (rqs k (task_rq k t)) = t"

definition cookie_equals :: "kernel \<Rightarrow> tid \<Rightarrow> nat \<Rightarrow> bool" where
  "cookie_equals k a cookie \<longleftrightarrow> is_task_rq_idle k a \<or> t_core_cookie (tasks k a) = cookie"

definition cookie_match :: "kernel \<Rightarrow> tid \<Rightarrow> tid \<Rightarrow> bool" where
  "cookie_match k a b \<longleftrightarrow>
     is_task_rq_idle k a \<or> is_task_rq_idle k b \<or> t_core_cookie (tasks k a) = t_core_cookie (tasks k b)"

definition pick_task :: "kops \<Rightarrow> cpu \<Rightarrow> kernel \<Rightarrow> (tid \<times> kernel) option" where
  "pick_task x c k = pick_classes (\<lambda>s. op_pick_task x s c) sched_classes k"

definition queue_core_balance :: "kops \<Rightarrow> cpu \<Rightarrow> kernel \<Rightarrow> kernel" where
  "queue_core_balance x c k =
     (if \<not> sched_core_enabled k c then k
      else if rq_core_cookie (rqs k (rq_core (rqs k c))) = 0 then k
      else if rq_nr_running (rqs k c) = 0 then k
      else queue_balance_callback x c k)"

text \<open>\<^verbatim>\<open>for_each_cpu_wrap\<close>: the CPUs of an ascending mask, starting at \<open>c\<close>.\<close>

definition cpus_wrap :: "cpu list \<Rightarrow> cpu \<Rightarrow> cpu list" where
  "cpus_wrap m c = filter (\<lambda>i. c \<le> i) m @ filter (\<lambda>i. i < c) m"

text \<open>The first loop: the regular pick of every thread, and the task of highest priority among them.\<close>

definition core_pick_step ::
  "kenv \<Rightarrow> kops \<Rightarrow> cpu \<Rightarrow> bool \<Rightarrow> bool \<Rightarrow> cpu \<Rightarrow> tid option \<times> kernel \<Rightarrow> (tid option \<times> kernel) option" where
  "core_pick_step e x c fi_before core_clock_updated i s =
     (let (maxp, k) = s;
          k = (if i \<noteq> c \<and> (i \<noteq> rq_core (rqs k c) \<or> \<not> core_clock_updated) then update_rq_clock e x i k else k)
      in case pick_task x i k of
           None \<Rightarrow> None
         | Some (p, k) \<Rightarrow>
             let k = upd_rq i (\<lambda>rq. rq\<lparr>rq_core_pick := Some p\<rparr>) k
             in case maxp of
                  None \<Rightarrow> Some (Some p, k)
                | Some m \<Rightarrow>
                    Some (Some (if prio_less e (cfs_prio_less x fi_before) (tasks k m) (tasks k p) then p else m), k))"

primrec core_pick_max ::
  "kenv \<Rightarrow> kops \<Rightarrow> cpu \<Rightarrow> bool \<Rightarrow> bool \<Rightarrow> cpu list \<Rightarrow> tid option \<times> kernel \<Rightarrow> (tid option \<times> kernel) option" where
  "core_pick_max e x c fi_before core_clock_updated [] s = Some s"
| "core_pick_max e x c fi_before core_clock_updated (i # is) s =
     (case core_pick_step e x c fi_before core_clock_updated i s of
        None \<Rightarrow> None | Some s \<Rightarrow> core_pick_max e x c fi_before core_clock_updated is s)"

text \<open>The second loop: a task that matches the cookie for every thread, or its idle task.\<close>

definition core_match :: "kops \<Rightarrow> cpu \<Rightarrow> nat \<Rightarrow> kernel \<Rightarrow> (tid \<times> kernel) option" where
  "core_match x i cookie k =
     (case rq_core_pick (rqs k i) of
        None \<Rightarrow> None
      | Some p \<Rightarrow>
          if cookie_equals k p cookie then Some (p, k)
          else
            let (q, k) = (if cookie \<noteq> 0 then sched_core_find x i cookie k else (None, k));
                (q, k) = (case q of None \<Rightarrow> op_pick_task x idle_sched_class i k | Some p \<Rightarrow> (Some p, k))
            in case q of None \<Rightarrow> None | Some p \<Rightarrow> Some (p, k))"

definition core_forceidle :: "cpu \<Rightarrow> bool \<Rightarrow> kernel \<Rightarrow> kernel" where
  "core_forceidle c fi_before =
     upd_rq c (\<lambda>rq. rq\<lparr>rq_core_forceidle_count := rq_core_forceidle_count rq + 1,
       rq_core_forceidle_seq := (if \<not> fi_before then rq_core_forceidle_seq rq + 1 else rq_core_forceidle_seq rq)\<rparr>)"

definition core_match_step :: "kops \<Rightarrow> cpu \<Rightarrow> bool \<Rightarrow> nat \<Rightarrow> cpu \<Rightarrow> nat \<times> kernel \<Rightarrow> (nat \<times> kernel) option" where
  "core_match_step x c fi_before cookie i s =
     (let (occ, k) = s
      in case core_match x i cookie k of
           None \<Rightarrow> None
         | Some (p, k) \<Rightarrow>
             let k = upd_rq i (\<lambda>rq. rq\<lparr>rq_core_pick := Some p\<rparr>) k
             in if p = rq_idle (rqs k i)
                then Some (occ, if rq_nr_running (rqs k i) \<noteq> 0 then core_forceidle (rq_core (rqs k c)) fi_before k else k)
                else Some (occ + 1, k))"

primrec core_match_all :: "kops \<Rightarrow> cpu \<Rightarrow> bool \<Rightarrow> nat \<Rightarrow> cpu list \<Rightarrow> nat \<times> kernel \<Rightarrow> (nat \<times> kernel) option" where
  "core_match_all x c fi_before cookie [] s = Some s"
| "core_match_all x c fi_before cookie (i # is) s =
     (case core_match_step x c fi_before cookie i s of
        None \<Rightarrow> None | Some s \<Rightarrow> core_match_all x c fi_before cookie is s)"

text \<open>The third loop: reschedule the siblings that run something else than what was picked.\<close>

definition core_resched_sibling :: "kops \<Rightarrow> cpu \<Rightarrow> bool \<Rightarrow> nat \<Rightarrow> cpu \<Rightarrow> kernel \<Rightarrow> kernel" where
  "core_resched_sibling x c fi_before occ i k =
     (case rq_core_pick (rqs k i) of
        None \<Rightarrow> k
      | Some p \<Rightarrow>
          let fi = (rq_core_forceidle_count (rqs k (rq_core (rqs k c))) \<noteq> 0);
              k = (if \<not> (fi_before \<and> fi) then task_vruntime_update x i p fi k else k);
              k = upd_task p (\<lambda>t. t\<lparr>t_core_occupation := occ\<rparr>) k
          in if i = c then upd_rq i (\<lambda>rq. rq\<lparr>rq_core_pick := None\<rparr>) k
             else if rq_curr (rqs k i) = p then upd_rq i (\<lambda>rq. rq\<lparr>rq_core_pick := None\<rparr>) k
             else resched_curr i k)"

definition pick_out :: "kops \<Rightarrow> cpu \<Rightarrow> tid \<Rightarrow> kernel \<Rightarrow> (tid \<times> kernel) option" where
  "pick_out x c next k =
     Some (next, if rq_core_forceidle_count (rqs k (rq_core (rqs k c))) \<noteq> 0 \<and> next = rq_idle (rqs k c)
                 then queue_core_balance x c k else k)"

definition upd_core :: "cpu \<Rightarrow> (rq \<Rightarrow> rq) \<Rightarrow> kernel \<Rightarrow> kernel" where
  "upd_core c f k = upd_rq (rq_core (rqs k c)) f k"

text \<open>The selection for the whole core.\<close>

definition pick_core_wide :: "kenv \<Rightarrow> kops \<Rightarrow> cpu \<Rightarrow> bool \<Rightarrow> bool \<Rightarrow> kernel \<Rightarrow> (tid \<times> kernel) option" where
  "pick_core_wide e x c fi_before core_clock_updated k =
     (let smt_mask = cpu_smt_mask x c
      in case core_pick_max e x c fi_before core_clock_updated (cpus_wrap smt_mask c) (None, k) of
           Some (Some maxp, k) \<Rightarrow>
             (let cookie = t_core_cookie (tasks k maxp);
                  k = upd_core c (\<lambda>rq. rq\<lparr>rq_core_cookie := cookie\<rparr>) k
              in case core_match_all x c fi_before cookie smt_mask (0, k) of
                   None \<Rightarrow> None
                 | Some (occ, k) \<Rightarrow>
                     let core = rq_core (rqs k c);
                         k = (if schedstat_enabled x \<and> rq_core_forceidle_count (rqs k core) \<noteq> 0
                              then upd_rq core (\<lambda>rq. rq\<lparr>rq_core_forceidle_start := rq_clock rq,
                                     rq_core_forceidle_occupation := occ\<rparr>) k
                              else k);
                         k = upd_rq core (\<lambda>rq. rq\<lparr>rq_core_pick_seq := rq_core_task_seq rq\<rparr>) k;
                         next = rq_core_pick (rqs k c);
                         k = upd_rq c (\<lambda>rq. rq\<lparr>rq_core_sched_seq := rq_core_pick_seq (rqs k core)\<rparr>) k
                     in case next of
                          None \<Rightarrow> None
                        | Some next \<Rightarrow>
                            let k = fold (core_resched_sibling x c fi_before occ) smt_mask k
                            in pick_out x c next (set_next_task x c next k))
         | _ \<Rightarrow> None)"

text \<open>The state is reset before a selection; the result says whether the core was forced idle before.\<close>

definition pick_reset :: "kenv \<Rightarrow> kops \<Rightarrow> cpu \<Rightarrow> kernel \<Rightarrow> bool \<times> bool \<times> bool \<times> kernel" where
  "pick_reset e x c k =
     (let core = rq_core (rqs k c);
          core_clock_updated = (c = core);
          need_sync = (rq_core_cookie (rqs k core) \<noteq> 0);
          k = upd_rq core (\<lambda>rq. rq\<lparr>rq_core_cookie := 0\<rparr>) k
      in if rq_core_forceidle_count (rqs k core) \<noteq> 0
         then let k = (if \<not> core_clock_updated then update_rq_clock e x core k else k);
                  k = sched_core_account_forceidle x c k;
                  k = upd_rq core (\<lambda>rq. rq\<lparr>rq_core_forceidle_start := 0, rq_core_forceidle_count := 0,
                        rq_core_forceidle_occupation := 0\<rparr>) k
              in (True, True, True, k)
         else (need_sync, False, core_clock_updated, k))"

definition pick_next_task :: "kenv \<Rightarrow> kops \<Rightarrow> cpu \<Rightarrow> tid \<Rightarrow> kernel \<Rightarrow> (tid \<times> kernel) option" where
  "pick_next_task e x c prev k =
     (if \<not> sched_core_enabled k c then k__pick_next_task x c prev k
      else if c \<notin> cpu_online_mask k
      then k__pick_next_task x c prev (upd_rq c (\<lambda>rq. rq\<lparr>rq_core_pick := None\<rparr>) k)
      else
        let core = rqs k (rq_core (rqs k c))
        in if rq_core_pick_seq core = rq_core_task_seq core \<and> rq_core_pick_seq core \<noteq> rq_core_sched_seq (rqs k c) \<and>
              rq_core_pick (rqs k c) \<noteq> None
           then let k = upd_rq c (\<lambda>rq. rq\<lparr>rq_core_sched_seq := rq_core_pick_seq core\<rparr>) k;
                    next = the (rq_core_pick (rqs k c));
                    k = (if next \<noteq> prev then set_next_task x c next (put_prev_task x c prev k) else k);
                    k = upd_rq c (\<lambda>rq. rq\<lparr>rq_core_pick := None\<rparr>) k
                in pick_out x c next k
           else
             let k = put_prev_task_balance x c prev k;
                 (need_sync, fi_before, core_clock_updated, k) = pick_reset e x c k;
                 k = upd_core c (\<lambda>rq. rq\<lparr>rq_core_task_seq := rq_core_task_seq rq + 1\<rparr>) k
             in if \<not> need_sync
                then case pick_task x c k of
                    None \<Rightarrow> None
                  | Some (next, k) \<Rightarrow>
                      if t_core_cookie (tasks k next) = 0
                      then let k = upd_rq c (\<lambda>rq. rq\<lparr>rq_core_pick := None\<rparr>) k;
                               k = task_vruntime_update x c next False k
                           in pick_out x c next (set_next_task x c next k)
                      else pick_core_wide e x c fi_before core_clock_updated k
                else pick_core_wide e x c fi_before core_clock_updated k)"

subsection \<open>Frames\<close>

text \<open>
  What picking leaves alone.  Load balancing may move tasks that wait, but neither the running tasks nor the
  idle tasks; no callback drops a request to reschedule.
\<close>

definition task_fix ::
  "task_struct \<Rightarrow> int \<times> int \<times> int \<times> nat \<times> int \<times> load_weight \<times> int \<times> nat \<times> nat option \<times> nat option \<times> bool" where
  "task_fix t = (t_static_prio t, t_prio t, t_normal_prio t, t_rt_priority t, t_policy t, se_load (t_se t),
     t_my_fixed_priority t, t_core_cookie t, t_mm t, t_active_mm t, t_on_cpu t)"

definition stat_frame :: "kernel \<Rightarrow> kernel \<Rightarrow> bool" where
  "stat_frame k k' \<longleftrightarrow> this_cpu k' = this_cpu k \<and> mm_count k' = mm_count k \<and>
     (\<forall>c. rq_curr (rqs k' c) = rq_curr (rqs k c) \<and> rq_prev_mm (rqs k' c) = rq_prev_mm (rqs k c) \<and> rq_idle (rqs k' c) = rq_idle (rqs k c) \<and> rq_core (rqs k' c) = rq_core (rqs k c)) \<and>
     (\<forall>p. task_fix (tasks k' p) = task_fix (tasks k p) \<and> is_task_rq_idle k' p = is_task_rq_idle k p \<and>
       (t_need_resched (tasks k p) \<longrightarrow> t_need_resched (tasks k' p)))"

definition pick_frame :: "kernel \<Rightarrow> kernel \<Rightarrow> bool" where
  "pick_frame k k' \<longleftrightarrow> stat_frame k k' \<and>
     (\<forall>c. rq_core_pick (rqs k' c) = rq_core_pick (rqs k c) \<and> rq_core_cookie (rqs k' c) = rq_core_cookie (rqs k c))"

text \<open>What the development assumes of the scheduling classes, the red-black tree and the callbacks.\<close>

definition pick_law :: "kops \<Rightarrow> bool" where
  "pick_law x \<longleftrightarrow>
     (\<forall>s c p k. pick_frame k (op_put_prev_task x s c p k) \<and> pick_frame k (op_set_next_task x s c p False k) \<and>
        pick_frame k (snd (op_balance x s c p k))) \<and>
     (\<forall>s c k. pick_frame k (snd (op_pick_task x s c k)) \<and> pick_frame k (snd (op_pick_next_task x s c k)) \<and>
        fst (op_pick_task x idle_sched_class c k) = Some (rq_idle (rqs k c)) \<and>
        fst (op_pick_next_task x idle_sched_class c k) = Some (rq_idle (rqs k c))) \<and>
     (\<forall>c p k. pick_frame k (snd (pick_next_task_fair x c p k))) \<and> (\<forall>c k. pick_frame k (snd (pick_next_task_idle x c k))) \<and>
     (\<forall>c p b k. pick_frame k (task_vruntime_update x c p b k)) \<and>
     (\<forall>c k. pick_frame k (sched_core_account_forceidle x c k) \<and> pick_frame k (queue_balance_callback x c k)) \<and>
     (\<forall>cmp xs p. rb_find_first x cmp xs = Some p \<longrightarrow> cmp p = 0)"

lemma stat_frame_refl [simp]: "stat_frame k k"
  by (simp add: stat_frame_def)

lemma stat_frame_trans [trans]: "stat_frame k k' \<Longrightarrow> stat_frame k' k'' \<Longrightarrow> stat_frame k k''"
  by (simp add: stat_frame_def)

lemma pick_frame_refl [simp]: "pick_frame k k"
  by (simp add: pick_frame_def)

lemma pick_frame_trans [trans]: "pick_frame k k' \<Longrightarrow> pick_frame k' k'' \<Longrightarrow> pick_frame k k''"
  unfolding pick_frame_def by (metis stat_frame_trans)

lemma pick_frame_stat: "pick_frame k k' \<Longrightarrow> stat_frame k k'"
  by (simp add: pick_frame_def)

lemma stat_frame_upd_rq:
  assumes "\<And>rq. rq_curr (f rq) = rq_curr rq" "\<And>rq. rq_idle (f rq) = rq_idle rq" "\<And>rq. rq_core (f rq) = rq_core rq"
    "\<And>rq. rq_prev_mm (f rq) = rq_prev_mm rq"
  shows "stat_frame k (upd_rq c f k)"
  using assms by (simp add: stat_frame_def is_task_rq_idle_def task_rq_def) (simp add: upd_rq_def)

lemma pick_frame_upd_rq:
  assumes "\<And>rq. rq_curr (f rq) = rq_curr rq" "\<And>rq. rq_idle (f rq) = rq_idle rq" "\<And>rq. rq_core (f rq) = rq_core rq"
    "\<And>rq. rq_prev_mm (f rq) = rq_prev_mm rq"
    "\<And>rq. rq_core_pick (f rq) = rq_core_pick rq" "\<And>rq. rq_core_cookie (f rq) = rq_core_cookie rq"
  shows "pick_frame k (upd_rq c f k)"
  using assms stat_frame_upd_rq [of f k c] by (simp add: pick_frame_def)

lemma pick_frame_upd_task:
  assumes "task_fix (f (tasks k p)) = task_fix (tasks k p)" "t_cpu (f (tasks k p)) = t_cpu (tasks k p)"
    "t_need_resched (tasks k p) \<Longrightarrow> t_need_resched (f (tasks k p))"
  shows "pick_frame k (upd_task p f k)"
  using assms by (simp add: pick_frame_def stat_frame_def is_task_rq_idle_def task_rq_def) (simp add: upd_task_def)

lemma pick_frame_resched_curr: "pick_frame k (resched_curr c k)"
proof -
  have a: "pick_frame k (upd_task p (\<lambda>t. t\<lparr>t_need_resched := True\<rparr>) k)" for p k
    by (rule pick_frame_upd_task) (simp_all add: task_fix_def)
  have b: "pick_frame k (k\<lparr>preempt_need_resched := b\<rparr>)" "pick_frame k (k\<lparr>resched_ipis := l\<rparr>)" for k b l
    by (simp_all add: pick_frame_def stat_frame_def is_task_rq_idle_def task_rq_def)
  show ?thesis
    using pick_frame_trans [OF a b(1)] pick_frame_trans [OF a b(2)] a
    by (simp add: resched_curr_def set_nr_and_not_polling_def smp_send_reschedule_def Let_def)
qed

lemma pick_frame_clock: "pick_frame k (update_rq_clock e x c k)"
proof -
  have t: "tasks (update_rq_clock e x c k) = tasks k" "this_cpu (update_rq_clock e x c k) = this_cpu k"
    "mm_count (update_rq_clock e x c k) = mm_count k"
    by (simp_all add: update_rq_clock_def update_rq_clock_task_def Let_def upd_rq_def case_prod_unfold)
  have r: "rq_core_pick (rqs (update_rq_clock e x c k) d) = rq_core_pick (rqs k d)"
    "rq_core_cookie (rqs (update_rq_clock e x c k) d) = rq_core_cookie (rqs k d)"
    "rq_curr (rqs (update_rq_clock e x c k) d) = rq_curr (rqs k d)"
    "rq_idle (rqs (update_rq_clock e x c k) d) = rq_idle (rqs k d)"
    "rq_core (rqs (update_rq_clock e x c k) d) = rq_core (rqs k d)"
    "rq_prev_mm (rqs (update_rq_clock e x c k) d) = rq_prev_mm (rqs k d)" for d
    by (simp_all add: update_rq_clock_def update_rq_clock_task_def Let_def case_prod_unfold)
  show ?thesis by (simp add: pick_frame_def stat_frame_def is_task_rq_idle_def task_rq_def t r)
qed

lemma pick_classes_frame:
  assumes "\<And>s k. pick_frame k (snd (pick s k))" and "pick_classes pick ss k = Some (p, k')"
  shows "pick_frame k k'"
  using assms(2)
proof (induction ss arbitrary: k)
  case (Cons s ss)
  obtain r k1 where r: "pick s k = (r, k1)" by fastforce
  have k1: "pick_frame k k1" using assms(1) [of k s] r by simp
  show ?case using Cons r k1 pick_frame_trans [OF k1] by (cases r) auto
qed simp

lemma pick_classes_total:
  assumes "\<And>k. fst (pick s k) \<noteq> None" and "s \<in> set ss"
  shows "pick_classes pick ss k \<noteq> None"
  using assms(2)
proof (induction ss arbitrary: k)
  case (Cons t ss)
  then show ?case using assms(1) [of k] by (cases "pick t k"; cases "fst (pick t k)") auto
qed simp

lemma idle_in_classes: "idle_sched_class \<in> set sched_classes"
  by (simp add: sched_classes_def)

lemma pick_lawD:
  assumes "pick_law x"
  shows "pick_frame k (put_prev_task x c p k)" "pick_frame k (set_next_task x c p k)" "pick_frame k (snd (op_balance x s c p k))"
    "pick_frame k (snd (op_pick_task x s c k))" "pick_frame k (snd (op_pick_next_task x s c k))"
    "fst (op_pick_task x idle_sched_class c k) = Some (rq_idle (rqs k c))" "fst (op_pick_next_task x idle_sched_class c k) \<noteq> None"
    "pick_frame k (snd (pick_next_task_fair x c p k))" "pick_frame k (snd (pick_next_task_idle x c k))"
    "pick_frame k (task_vruntime_update x c p b k)" "pick_frame k (sched_core_account_forceidle x c k)"
    "pick_frame k (queue_balance_callback x c k)" "rb_find_first x cmp xs = Some p \<Longrightarrow> cmp p = 0"
  using assms by (simp_all add: pick_law_def put_prev_task_def set_next_task_def)

lemma pick_task_frame: "pick_law x \<Longrightarrow> pick_task x c k = Some (p, k') \<Longrightarrow> pick_frame k k'"
  unfolding pick_task_def by (rule pick_classes_frame [OF pick_lawD(4)])

lemma pick_task_total: "pick_law x \<Longrightarrow> pick_task x c k \<noteq> None"
  unfolding pick_task_def by (rule pick_classes_total [OF _ idle_in_classes]) (simp add: pick_lawD(6))

lemma balance_classes_frame: "pick_law x \<Longrightarrow> pick_frame k (balance_classes x c prev ss k)"
proof (induction ss arbitrary: k)
  case (Cons s ss)
  obtain b k1 where b: "op_balance x s c prev k = (b, k1)" by fastforce
  have k1: "pick_frame k k1" using pick_lawD(3) [OF Cons.prems, of k s c prev] b by simp
  show ?case using pick_frame_trans [OF k1 Cons.IH [OF Cons.prems]] k1 by (simp add: b)
qed simp

lemma put_prev_balance_frame: "pick_law x \<Longrightarrow> pick_frame k (put_prev_task_balance x c prev k)"
  unfolding put_prev_task_balance_def by (rule pick_frame_trans [OF balance_classes_frame pick_lawD(1)])

lemma pick_slow_frame: "pick_law x \<Longrightarrow> pick_slow x c prev k = Some (p, k') \<Longrightarrow> pick_frame k k'"
  unfolding pick_slow_def
  by (rule pick_frame_trans [OF put_prev_balance_frame pick_classes_frame [OF pick_lawD(5)]])

lemma pick_slow_total: "pick_law x \<Longrightarrow> pick_slow x c prev k \<noteq> None"
  unfolding pick_slow_def by (rule pick_classes_total [OF _ idle_in_classes]) (rule pick_lawD(7))

lemma pick_next_frame:
  assumes "pick_law x" "k__pick_next_task x c prev k = Some (p, k')"
  shows "pick_frame k k'"
proof -
  obtain r k1 where r: "pick_next_task_fair x c prev k = (r, k1)" by fastforce
  have k1: "pick_frame k k1" using pick_lawD(8) [OF assms(1), of k c prev] r by simp
  have "pick_frame k1 (snd (pick_next_task_idle x c (put_prev_task x c prev k1)))"
    by (rule pick_frame_trans [OF pick_lawD(1) [OF assms(1)] pick_lawD(9) [OF assms(1)]])
  note idle = pick_frame_trans [OF k1 this]
  show ?thesis
    using assms(2) k1 idle pick_slow_frame [OF assms(1)] pick_frame_trans [OF k1 pick_slow_frame [OF assms(1)]] r
    by (auto simp: k__pick_next_task_def split: if_splits fair_pick.splits)
qed

lemma pick_next_total: "pick_law x \<Longrightarrow> k__pick_next_task x c prev k \<noteq> None"
  using pick_slow_total by (auto simp: k__pick_next_task_def split: fair_pick.split prod.split)

subsection \<open>The selection for a core\<close>

definition idle_wf :: "kernel \<Rightarrow> bool" where
  "idle_wf k \<longleftrightarrow> (\<forall>c. is_task_rq_idle k (rq_idle (rqs k c)))"

lemma stat_frame_sel:
  assumes "stat_frame k k'"
  shows "cookie_equals k' p n = cookie_equals k p n" "idle_wf k' = idle_wf k"
    "rq_curr (rqs k' c) = rq_curr (rqs k c)" "rq_idle (rqs k' c) = rq_idle (rqs k c)" "rq_core (rqs k' c) = rq_core (rqs k c)"
    "t_core_cookie (tasks k' p) = t_core_cookie (tasks k p)" "t_need_resched (tasks k p) \<Longrightarrow> t_need_resched (tasks k' p)"
proof -
  show c: "t_core_cookie (tasks k' p) = t_core_cookie (tasks k p)" for p
    using assms by (simp add: stat_frame_def task_fix_def)
  show "cookie_equals k' p n = cookie_equals k p n" using assms by (simp add: cookie_equals_def c stat_frame_def)
  show "idle_wf k' = idle_wf k" using assms by (simp add: idle_wf_def stat_frame_def)
qed (use assms in \<open>simp_all add: stat_frame_def\<close>)

lemma pick_frame_sel:
  assumes "pick_frame k k'"
  shows "rq_core_pick (rqs k' c) = rq_core_pick (rqs k c)" "rq_core_cookie (rqs k' c) = rq_core_cookie (rqs k c)"
  using assms by (simp_all add: pick_frame_def)

lemma core_match_sound:
  assumes "pick_law x" "core_match x i cookie k = Some (p, k')" "idle_wf k"
  shows "pick_frame k k'" and "cookie_equals k' p cookie"
proof -
  obtain q where q: "rq_core_pick (rqs k i) = Some q" using assms(2) by (auto simp: core_match_def split: option.splits)
  have idle: "pick_frame k1 k2 \<and> cookie_equals k2 p2 cookie"
    if "op_pick_task x idle_sched_class i k1 = (Some p2, k2)" "idle_wf k1" for k1 k2 p2
  proof -
    have pf: "pick_frame k1 k2" and "p2 = rq_idle (rqs k1 i)"
      using pick_lawD(4) [OF assms(1), of k1 idle_sched_class i] pick_lawD(6) [OF assms(1), of i k1] that(1) by simp_all
    then have "cookie_equals k1 p2 cookie" using that(2) by (simp add: cookie_equals_def idle_wf_def)
    then show ?thesis using pf stat_frame_sel(1) [OF pick_frame_stat [OF pf]] by simp
  qed
  have found: "cookie_equals k r cookie" if "rb_find_first x (rb_sched_core_cmp k cookie) xs = Some r" for r xs
    using pick_lawD(13) [OF assms(1) that] by (auto simp: rb_sched_core_cmp_def cookie_equals_def split: if_splits)
  have "pick_frame k k' \<and> cookie_equals k' p cookie"
  proof (cases "cookie_equals k q cookie")
    case True
    then show ?thesis using assms(2) q by (simp add: core_match_def)
  next
    case False
    obtain r k1 where r: "(if cookie \<noteq> 0 then sched_core_find x i cookie k else (None, k)) = (r, k1)" by fastforce
    have k1: "pick_frame k k1" "\<And>r'. r = Some r' \<Longrightarrow> cookie_equals k1 r' cookie"
      using r found idle [of k] assms(3) pick_lawD(4) [OF assms(1), of k idle_sched_class i]
      by (auto simp: sched_core_find_def split: if_splits option.splits prod.splits)
    show ?thesis
      using assms(2) False q r k1 idle [of k1] pick_frame_trans [OF k1(1)] assms(3)
      by (auto simp: core_match_def stat_frame_sel(2) [OF pick_frame_stat [OF k1(1)]] split: option.splits prod.splits)
  qed
  then show "pick_frame k k'" "cookie_equals k' p cookie" by simp_all
qed

lemma core_match_total:
  assumes "pick_law x" and "rq_core_pick (rqs k i) \<noteq> None"
  shows "core_match x i cookie k \<noteq> None"
proof -
  have i: "\<not> (op_pick_task x idle_sched_class i k1 = (None, k2))" for k1 k2
    using pick_lawD(6) [OF assms(1), of i k1] by auto
  show ?thesis
    using assms(2) by (cases "cookie = 0") (auto simp: core_match_def i split: prod.split option.split)
qed

text \<open>A state in which the core has the given cookie; the picks are compared outside the given CPUs.\<close>

definition picks_frame :: "cpu set \<Rightarrow> kernel \<Rightarrow> kernel \<Rightarrow> bool" where
  "picks_frame I k k' \<longleftrightarrow> stat_frame k k' \<and> (\<forall>c. rq_core_cookie (rqs k' c) = rq_core_cookie (rqs k c)) \<and>
     (\<forall>c. c \<notin> I \<longrightarrow> rq_core_pick (rqs k' c) = rq_core_pick (rqs k c))"

lemma picks_frame_trans: "picks_frame I k k' \<Longrightarrow> picks_frame J k' k'' \<Longrightarrow> picks_frame (I \<union> J) k k''"
  unfolding picks_frame_def by (auto intro: stat_frame_trans [of k k' k''])

lemma picks_frame_pick: "pick_frame k k' \<Longrightarrow> picks_frame I k k'"
  by (simp add: picks_frame_def pick_frame_def)

lemma picks_frame_set: "picks_frame {i} k (upd_rq i (\<lambda>rq. rq\<lparr>rq_core_pick := v\<rparr>) k)"
  by (simp add: picks_frame_def stat_frame_upd_rq)

lemma picks_frame_subset: "picks_frame I k k' \<Longrightarrow> I \<subseteq> J \<Longrightarrow> picks_frame J k k'"
  by (auto simp: picks_frame_def)

lemma pick_frame_forceidle: "pick_frame k (core_forceidle c b k)"
  unfolding core_forceidle_def by (rule pick_frame_upd_rq) simp_all

lemma core_match_step_sound:
  assumes "pick_law x" "core_match_step x c fi cookie i (occ, k) = Some (occ', k')" "idle_wf k"
  shows "picks_frame {i} k k' \<and> (\<exists>p. rq_core_pick (rqs k' i) = Some p \<and> cookie_equals k' p cookie)"
proof -
  obtain p k1 where m: "core_match x i cookie k = Some (p, k1)"
    using assms(2) by (auto simp: core_match_step_def split: option.splits)
  note m' = core_match_sound [OF assms(1) m assms(3)]
  let ?k2 = "upd_rq i (\<lambda>rq. rq\<lparr>rq_core_pick := Some p\<rparr>) k1"
  have k2: "picks_frame {i} k ?k2"
    using picks_frame_trans [OF picks_frame_pick [OF m'(1), of "{}"] picks_frame_set] by simp
  have "k' = ?k2 \<or> k' = core_forceidle (rq_core (rqs ?k2 c)) fi ?k2"
    using assms(2) m by (auto simp: core_match_step_def Let_def split: if_splits)
  then have "pick_frame ?k2 k'" using pick_frame_forceidle by auto
  note k' = this
  have "picks_frame {i} k k'" using picks_frame_trans [OF k2 picks_frame_pick [OF k', of "{}"]] by simp
  moreover have "rq_core_pick (rqs k' i) = Some p" using pick_frame_sel(1) [OF k'] by simp
  moreover have "cookie_equals k' p cookie"
    using m'(2) stat_frame_sel(1) [OF stat_frame_trans [OF stat_frame_upd_rq pick_frame_stat [OF k']]] by simp
  ultimately show ?thesis by blast
qed

lemma core_match_all_sound:
  assumes "pick_law x" "core_match_all x c fi cookie is (occ, k) = Some (occ', k')" "idle_wf k"
  shows "picks_frame (set is) k k' \<and> (\<forall>i \<in> set is. \<exists>p. rq_core_pick (rqs k' i) = Some p \<and> cookie_equals k' p cookie)"
  using assms(2,3)
proof (induction "is" arbitrary: occ k)
  case (Cons i js)
  obtain occ1 k1 where s: "core_match_step x c fi cookie i (occ, k) = Some (occ1, k1)"
    and r: "core_match_all x c fi cookie js (occ1, k1) = Some (occ', k')"
    using Cons.prems(1) by (auto split: option.splits)
  note st = core_match_step_sound [OF assms(1) s Cons.prems(2)]
  then have k1: "stat_frame k k1" by (simp add: picks_frame_def)
  have "idle_wf k1" using Cons.prems(2) stat_frame_sel(2) [OF k1] by simp
  note IH = Cons.IH [OF r this]
  have "\<exists>p. rq_core_pick (rqs k' i) = Some p \<and> cookie_equals k' p cookie" if "i \<notin> set js"
    using st IH that stat_frame_sel(1) [of k1 k'] by (auto simp: picks_frame_def)
  moreover have "picks_frame (set (i # js)) k k'"
    using picks_frame_trans [of "{i}" k k1 "set js" k'] st IH by simp
  ultimately show ?case using IH by auto
qed (simp add: picks_frame_def)

lemma core_pick_step_sound:
  assumes "pick_law x" "core_pick_step e x c fi u i (m, k) = Some (m', k')"
  shows "picks_frame {i} k k'" and "m' \<noteq> None" and "rq_core_pick (rqs k' i) \<noteq> None"
proof -
  let ?k1 = "if i \<noteq> c \<and> (i \<noteq> rq_core (rqs k c) \<or> \<not> u) then update_rq_clock e x i k else k"
  obtain p k2 where p: "pick_task x i ?k1 = Some (p, k2)" and k': "k' = upd_rq i (\<lambda>rq. rq\<lparr>rq_core_pick := Some p\<rparr>) k2"
    and m': "m' \<noteq> None"
    using assms(2) unfolding core_pick_step_def Let_def prod.case by (auto split: option.splits)
  have "pick_frame k ?k1" using pick_frame_clock by simp
  note k2 = pick_frame_trans [OF this pick_task_frame [OF assms(1) p]]
  show "picks_frame {i} k k'" using picks_frame_trans [OF picks_frame_pick [OF k2, of "{}"] picks_frame_set] by (simp add: k')
  show "m' \<noteq> None" "rq_core_pick (rqs k' i) \<noteq> None" using m' k' by simp_all
qed

lemma core_pick_max_sound:
  assumes "pick_law x" "core_pick_max e x c fi u is (m, k) = Some (m', k')"
  shows "picks_frame (set is) k k' \<and> (m' = None \<longrightarrow> is = []) \<and> (\<forall>i \<in> set is. rq_core_pick (rqs k' i) \<noteq> None)"
  using assms(2)
proof (induction "is" arbitrary: m k)
  case (Cons i js)
  obtain m1 k1 where s: "core_pick_step e x c fi u i (m, k) = Some (m1, k1)"
    and r: "core_pick_max e x c fi u js (m1, k1) = Some (m', k')"
    using Cons.prems(1) by (auto split: option.splits)
  note st = core_pick_step_sound [OF assms(1) s] and IH = Cons.IH [OF r]
  have "m' \<noteq> None" using IH r st(2) by (cases js) auto
  moreover have "rq_core_pick (rqs k' i) \<noteq> None" if "i \<notin> set js" using st(3) IH that by (auto simp: picks_frame_def)
  ultimately show ?case using picks_frame_trans [OF st(1), of "set js" k'] IH by auto
qed (simp add: picks_frame_def)

text \<open>
  What core scheduling promises for a sibling: a pick that waits for it matches the cookie of the core, and
  the task that runs on it matches that cookie or is about to be rescheduled.
\<close>

definition pick_ok :: "kernel \<Rightarrow> nat \<Rightarrow> cpu \<Rightarrow> bool" where
  "pick_ok k n i \<longleftrightarrow> (\<forall>p. rq_core_pick (rqs k i) = Some p \<longrightarrow> cookie_equals k p n)"

definition curr_ok :: "kernel \<Rightarrow> nat \<Rightarrow> cpu \<Rightarrow> bool" where
  "curr_ok k n i \<longleftrightarrow> cookie_equals k (rq_curr (rqs k i)) n \<or> t_need_resched (tasks k (rq_curr (rqs k i)))"

lemma curr_ok_frame: "stat_frame k k' \<Longrightarrow> curr_ok k n i \<Longrightarrow> curr_ok k' n i"
  by (auto simp: curr_ok_def stat_frame_sel(1,3,7))

lemma pick_ok_frame: "picks_frame I k k' \<Longrightarrow> i \<notin> I \<Longrightarrow> pick_ok k' n i = pick_ok k n i"
  using stat_frame_sel(1) [of k k' _ n] by (simp add: pick_ok_def picks_frame_def)

lemma resched_curr_sets: "t_need_resched (tasks (resched_curr c k) (rq_curr (rqs k c)))"
  by (simp add: resched_curr_def set_nr_and_not_polling_def smp_send_reschedule_def Let_def upd_task_def)

lemma core_resched_step:
  fixes x c fi occ i k
  defines "k' \<equiv> core_resched_sibling x c fi occ i k"
  assumes "pick_law x" and "pick_ok k n i"
  shows "picks_frame {i} k k'" and "pick_ok k' n i"
    and "rq_core_pick (rqs k i) \<noteq> None \<or> i = c \<or> curr_ok k n i \<Longrightarrow> i = c \<or> curr_ok k' n i"
    and "rq_core_pick (rqs k i) = None \<or> i = c \<Longrightarrow> rq_core_pick (rqs k' i) = None"
proof -
  have "picks_frame {i} k k' \<and> pick_ok k' n i \<and>
      (rq_core_pick (rqs k i) \<noteq> None \<or> i = c \<or> curr_ok k n i \<longrightarrow> i = c \<or> curr_ok k' n i) \<and>
      (rq_core_pick (rqs k i) = None \<or> i = c \<longrightarrow> rq_core_pick (rqs k' i) = None)"
  proof (cases "rq_core_pick (rqs k i)")
    case None
    then have "k' = k" by (simp add: k'_def core_resched_sibling_def)
    then show ?thesis using None assms(3) by (auto simp: picks_frame_def)
  next
    case (Some p)
    let ?b = "rq_core_forceidle_count (rqs k (rq_core (rqs k c))) \<noteq> 0"
    let ?k1 = "if \<not> (fi \<and> ?b) then task_vruntime_update x i p ?b k else k"
    define k2 where "k2 = upd_task p (\<lambda>t. t\<lparr>t_core_occupation := occ\<rparr>) ?k1"
    have k'_eq: "k' = (if i = c then upd_rq i (\<lambda>rq. rq\<lparr>rq_core_pick := None\<rparr>) k2
        else if rq_curr (rqs k2 i) = p then upd_rq i (\<lambda>rq. rq\<lparr>rq_core_pick := None\<rparr>) k2 else resched_curr i k2)"
      unfolding k'_def core_resched_sibling_def Some option.case Let_def k2_def by (rule refl)
    have "pick_frame k ?k1" using pick_lawD(10) [OF assms(2)] by simp
    moreover have "pick_frame ?k1 k2" unfolding k2_def by (rule pick_frame_upd_task) (simp_all add: task_fix_def)
    ultimately have k2: "pick_frame k k2" by (rule pick_frame_trans)
    have eq: "cookie_equals k p n" using assms(3) Some by (simp add: pick_ok_def)
    show ?thesis
    proof (cases "i = c \<or> rq_curr (rqs k2 i) = p")
      case True
      then have k': "k' = upd_rq i (\<lambda>rq. rq\<lparr>rq_core_pick := None\<rparr>) k2"
        by (auto simp: k'_eq)
      have fr: "picks_frame {i} k k'"
        using picks_frame_trans [OF picks_frame_pick [OF k2, of "{}"] picks_frame_set] by (simp add: k')
      then have st: "stat_frame k k'" by (simp add: picks_frame_def)
      have "curr_ok k' n i" if "i \<noteq> c"
      proof -
        have "rq_curr (rqs k' i) = p" using True that by (simp add: k')
        then show ?thesis using eq stat_frame_sel(1) [OF st, of p n] by (simp add: curr_ok_def)
      qed
      moreover have "pick_ok k' n i" "rq_core_pick (rqs k' i) = None" by (simp_all add: k' pick_ok_def)
      ultimately show ?thesis using fr by blast
    next
      case False
      then have k': "k' = resched_curr i k2" by (simp add: k'_eq)
      have fr: "pick_frame k k'" unfolding k' by (rule pick_frame_trans [OF k2 pick_frame_resched_curr])
      have c': "rq_curr (rqs k' i) = rq_curr (rqs k2 i)"
        using stat_frame_sel(3) [OF pick_frame_stat [OF fr]] stat_frame_sel(3) [OF pick_frame_stat [OF k2]] by simp
      have "curr_ok k' n i" unfolding curr_ok_def c' unfolding k' using resched_curr_sets by blast
      moreover have "pick_ok k' n i"
        using eq Some by (simp add: pick_ok_def pick_frame_sel(1) [OF fr] stat_frame_sel(1) [OF pick_frame_stat [OF fr]])
      ultimately show ?thesis using picks_frame_pick [OF fr, of "{i}"] False Some by simp
    qed
  qed
  then show "picks_frame {i} k k'" "pick_ok k' n i"
    "rq_core_pick (rqs k i) \<noteq> None \<or> i = c \<or> curr_ok k n i \<Longrightarrow> i = c \<or> curr_ok k' n i"
    "rq_core_pick (rqs k i) = None \<or> i = c \<Longrightarrow> rq_core_pick (rqs k' i) = None" by simp+
qed

lemma core_resched_fold:
  assumes "pick_law x" and "\<forall>i \<in> set is. pick_ok k n i"
  shows "picks_frame (set is) k (fold (core_resched_sibling x c fi occ) is k) \<and>
    (\<forall>i \<in> set is. pick_ok (fold (core_resched_sibling x c fi occ) is k) n i \<and>
       (rq_core_pick (rqs k i) \<noteq> None \<or> i = c \<or> curr_ok k n i \<longrightarrow>
          i = c \<or> curr_ok (fold (core_resched_sibling x c fi occ) is k) n i) \<and>
       (rq_core_pick (rqs k i) = None \<or> i = c \<longrightarrow> rq_core_pick (rqs (fold (core_resched_sibling x c fi occ) is k) i) = None))"
  using assms(2)
proof (induction "is" arbitrary: k)
  case (Cons i js)
  let ?k1 = "core_resched_sibling x c fi occ i k"
  let ?k' = "fold (core_resched_sibling x c fi occ) js ?k1"
  have ok: "pick_ok k n i" using Cons.prems by simp
  note st = core_resched_step [OF assms(1) ok, of c fi occ]
  have "\<forall>j \<in> set js. pick_ok ?k1 n j"
    using Cons.prems st(1,2) pick_ok_frame [of "{i}" k ?k1] by (metis list.set_intros(2) singletonD)
  note IH = Cons.IH [OF this]
  have fr: "picks_frame (set (i # js)) k ?k'" using picks_frame_trans [OF st(1)] IH by simp
  have s1: "stat_frame k ?k1" "stat_frame ?k1 ?k'" using st(1) IH by (simp_all add: picks_frame_def)
  have other: "rq_core_pick (rqs ?k1 j) = rq_core_pick (rqs k j)" if "j \<noteq> i" for j
    using st(1) that by (simp add: picks_frame_def)
  have "pick_ok ?k' n j \<and> (rq_core_pick (rqs k j) \<noteq> None \<or> j = c \<or> curr_ok k n j \<longrightarrow> j = c \<or> curr_ok ?k' n j) \<and>
      (rq_core_pick (rqs k j) = None \<or> j = c \<longrightarrow> rq_core_pick (rqs ?k' j) = None)" if "j \<in> set (i # js)" for j
  proof (cases "j = i")
    case True
    have a: "pick_ok ?k' n i"
      using st(2) IH pick_ok_frame [of "set js" ?k1 ?k' i n] by (cases "i \<in> set js") simp_all
    have b: "rq_core_pick (rqs ?k1 i) = None \<Longrightarrow> rq_core_pick (rqs ?k' i) = None"
      using IH by (cases "i \<in> set js") (simp_all add: picks_frame_def)
    have "rq_core_pick (rqs k i) \<noteq> None \<or> i = c \<or> curr_ok k n i \<longrightarrow> i = c \<or> curr_ok ?k' n i"
      using st(3) curr_ok_frame [OF s1(2), of n i] by blast
    moreover have "rq_core_pick (rqs k i) = None \<or> i = c \<longrightarrow> rq_core_pick (rqs ?k' i) = None" using st(4) b by metis
    ultimately show ?thesis unfolding True using a by blast
  next
    case False
    then have "j \<in> set js" using that by simp
    then show ?thesis using IH other [OF False] curr_ok_frame [OF s1(1)] by auto
  qed
  then show ?case using fr by simp
qed (simp add: picks_frame_def)

lemma pick_out_frame:
  assumes "pick_law x" "pick_out x c next k = Some (p, k')"
  shows "p = next" "pick_frame k k'"
  using assms pick_lawD(12) [OF assms(1)] by (auto simp: pick_out_def queue_core_balance_def)

text \<open>The promise for all siblings of a CPU that has just picked its next task.\<close>

definition core_ok :: "cpu set \<Rightarrow> cpu \<Rightarrow> tid \<Rightarrow> kernel \<Rightarrow> bool" where
  "core_ok S c next k \<longleftrightarrow> (let n = rq_core_cookie (rqs k (rq_core (rqs k c)))
     in cookie_equals k next n \<and> rq_core_pick (rqs k c) = None \<and>
        (\<forall>i \<in> S. pick_ok k n i \<and> (i \<noteq> c \<longrightarrow> curr_ok k n i)))"

lemma core_ok_frame:
  assumes "pick_frame k k'" "core_ok S c next k"
  shows "core_ok S c next k'"
proof -
  note st = pick_frame_stat [OF assms(1)]
  have p: "pick_ok k' n i = pick_ok k n i" for n i
    using picks_frame_pick [OF assms(1), of "{}"] by (rule pick_ok_frame) simp
  show ?thesis
    using assms(2) curr_ok_frame [OF st]
    by (simp add: core_ok_def Let_def p stat_frame_sel(1,5) [OF st] pick_frame_sel [OF assms(1)])
qed

lemma pick_core_wide_sound:
  assumes "pick_law x" and "idle_wf k" and "c \<in> set (cpu_smt_mask x c)"
    and "pick_core_wide e x c fi u k = Some (next, k')"
  shows "core_ok (set (cpu_smt_mask x c)) c next k'" and "stat_frame k k'"
proof -
  let ?S = "set (cpu_smt_mask x c)"
  obtain m k1 where m: "core_pick_max e x c fi u (cpus_wrap (cpu_smt_mask x c) c) (None, k) = Some (Some m, k1)"
    using assms(4) by (auto simp: pick_core_wide_def Let_def split: option.splits prod.splits)
  let ?n = "t_core_cookie (tasks k1 m)" and ?core = "rq_core (rqs k1 c)"
  define k2 where "k2 = upd_core c (\<lambda>rq. rq\<lparr>rq_core_cookie := ?n\<rparr>) k1"
  obtain occ k3 where k3: "core_match_all x c fi ?n (cpu_smt_mask x c) (0, k2) = Some (occ, k3)"
    using assms(4) m by (auto simp: pick_core_wide_def Let_def k2_def split: option.splits)
  let ?core3 = "rq_core (rqs k3 c)"
  define k4 where "k4 = (if schedstat_enabled x \<and> rq_core_forceidle_count (rqs k3 ?core3) \<noteq> 0
      then upd_rq ?core3 (\<lambda>rq. rq\<lparr>rq_core_forceidle_start := rq_clock rq, rq_core_forceidle_occupation := occ\<rparr>) k3 else k3)"
  define k5 where "k5 = upd_rq ?core3 (\<lambda>rq. rq\<lparr>rq_core_pick_seq := rq_core_task_seq rq\<rparr>) k4"
  define k6 where "k6 = upd_rq c (\<lambda>rq. rq\<lparr>rq_core_sched_seq := rq_core_pick_seq (rqs k5 ?core3)\<rparr>) k5"
  define k7 where "k7 = fold (core_resched_sibling x c fi occ) (cpu_smt_mask x c) k6"
  have eq: "(case rq_core_pick (rqs k5 c) of None \<Rightarrow> None | Some next \<Rightarrow> pick_out x c next (set_next_task x c next k7)) = Some (next, k')"
    using assms(4) m k3 unfolding pick_core_wide_def Let_def k7_def k6_def k5_def k4_def k2_def by simp
  then obtain q where q: "rq_core_pick (rqs k5 c) = Some q" "pick_out x c q (set_next_task x c q k7) = Some (next, k')"
    by (auto split: option.splits)
  have k1: "stat_frame k k1" using core_pick_max_sound [OF assms(1) m] by (simp add: picks_frame_def)
  have k2: "stat_frame k1 k2" unfolding k2_def upd_core_def by (rule stat_frame_upd_rq) simp_all
  note k12 = stat_frame_trans [OF k1 k2]
  have "idle_wf k2" using assms(2) stat_frame_sel(2) [OF k12] by simp
  note match = core_match_all_sound [OF assms(1) k3 this]
  then have s3: "stat_frame k2 k3" and cookies: "rq_core_cookie (rqs k3 ?core) = ?n"
    by (simp_all add: picks_frame_def k2_def upd_core_def)
  note k13 = stat_frame_trans [OF k12 s3]
  have core3: "?core3 = ?core" using stat_frame_sel(5) [OF s3] stat_frame_sel(5) [OF k2] by simp
  have "pick_frame k3 k4" unfolding k4_def using pick_frame_upd_rq [of "\<lambda>rq. rq\<lparr>rq_core_forceidle_start := rq_clock rq, rq_core_forceidle_occupation := occ\<rparr>"] by simp
  also have "pick_frame k4 k5" unfolding k5_def by (rule pick_frame_upd_rq) simp_all
  also have "pick_frame k5 k6" unfolding k6_def by (rule pick_frame_upd_rq) simp_all
  finally have k36: "pick_frame k3 k6" .
  note s36 = pick_frame_stat [OF k36]
  have ok6: "pick_ok k6 ?n i" "rq_core_pick (rqs k6 i) \<noteq> None" if "i \<in> ?S" for i
    using match that stat_frame_sel(1) [OF s36] by (auto simp: pick_ok_def pick_frame_sel(1) [OF k36])
  have ok6': "\<forall>i \<in> ?S. pick_ok k6 ?n i" using ok6 by blast
  note fold = core_resched_fold [OF assms(1) ok6', of c fi occ, folded k7_def]
  then have s67: "stat_frame k6 k7" and ck: "\<And>i. rq_core_cookie (rqs k7 i) = rq_core_cookie (rqs k6 i)" by (simp_all add: picks_frame_def)
  have core7: "rq_core (rqs k7 c) = ?core" using stat_frame_sel(5) [OF s67] stat_frame_sel(5) [OF s36] core3 by simp
  have n7: "rq_core_cookie (rqs k7 (rq_core (rqs k7 c))) = ?n" using ck cookies pick_frame_sel(2) [OF k36] by (simp add: core7)
  have "pick_frame k5 k6" unfolding k6_def by (rule pick_frame_upd_rq) simp_all
  then have "rq_core_pick (rqs k6 c) = Some q" using q(1) pick_frame_sel(1) by simp
  then have "cookie_equals k6 q ?n" using ok6(1) [OF assms(3)] by (simp add: pick_ok_def)
  then have "core_ok ?S c q k7"
    unfolding core_ok_def Let_def n7 using fold ok6(2) assms(3) stat_frame_sel(1) [OF s67] by auto
  moreover have k78: "pick_frame k7 k'"
    by (rule pick_frame_trans [OF pick_lawD(2) [OF assms(1)] pick_out_frame(2) [OF assms(1) q(2)]])
  ultimately show "core_ok ?S c next k'" using core_ok_frame pick_out_frame(1) [OF assms(1) q(2)] by simp
  show "stat_frame k k'"
    by (rule stat_frame_trans [OF stat_frame_trans [OF stat_frame_trans [OF k13 s36] s67] pick_frame_stat [OF k78]])
qed

text \<open>What a CPU sees of its core before it picks: all siblings keep the promise for the cookie of the core.\<close>

definition core_inv :: "cpu set \<Rightarrow> cpu \<Rightarrow> kernel \<Rightarrow> bool" where
  "core_inv S c k \<longleftrightarrow> (let n = rq_core_cookie (rqs k (rq_core (rqs k c)))
     in \<forall>i \<in> S. pick_ok k n i \<and> (i \<noteq> c \<longrightarrow> curr_ok k n i))"

lemma core_inv_frame: "pick_frame k k' \<Longrightarrow> core_inv S c k \<Longrightarrow> core_inv S c k'"
proof -
  assume fr: "pick_frame k k'" and inv: "core_inv S c k"
  note st = pick_frame_stat [OF fr]
  have p: "pick_ok k' n i = pick_ok k n i" for n i
    using picks_frame_pick [OF fr, of "{}"] by (rule pick_ok_frame) simp
  show ?thesis
    using inv curr_ok_frame [OF st] by (simp add: core_inv_def Let_def p stat_frame_sel(5) [OF st] pick_frame_sel [OF fr])
qed

lemma core_inv_ok:
  assumes "core_inv S c k" "cookie_equals k next (rq_core_cookie (rqs k (rq_core (rqs k c))))"
  shows "core_ok S c next (upd_rq c (\<lambda>rq. rq\<lparr>rq_core_pick := None\<rparr>) k)"
proof -
  let ?k = "upd_rq c (\<lambda>rq. rq\<lparr>rq_core_pick := None\<rparr>) k"
  have st: "stat_frame k ?k" by (rule stat_frame_upd_rq) simp_all
  have "pick_ok ?k n i" if "pick_ok k n i" for n i
    using that pick_ok_frame [OF picks_frame_set [of c k None], of i n] by (cases "i = c") (simp_all add: pick_ok_def)
  moreover have n: "rq_core_cookie (rqs ?k (rq_core (rqs ?k c))) = rq_core_cookie (rqs k (rq_core (rqs k c)))" by simp
  ultimately show ?thesis
    using assms curr_ok_frame [OF st] unfolding core_inv_def core_ok_def Let_def n by (simp add: stat_frame_sel(1) [OF st])
qed

lemma pick_reset_sound:
  assumes "pick_law x" "pick_reset e x c k = (need_sync, fi, u, k')"
  shows "stat_frame k k'" and "\<not> need_sync \<Longrightarrow> pick_frame k k' \<and> rq_core_cookie (rqs k' (rq_core (rqs k' c))) = 0"
proof -
  let ?core = "rq_core (rqs k c)"
  let ?k1 = "upd_rq ?core (\<lambda>rq. rq\<lparr>rq_core_cookie := 0\<rparr>) k"
  let ?z = "\<lambda>rq. rq\<lparr>rq_core_forceidle_start := 0, rq_core_forceidle_count := 0, rq_core_forceidle_occupation := 0\<rparr>"
  let ?k2 = "if c \<noteq> ?core then update_rq_clock e x ?core ?k1 else ?k1"
  have k1: "stat_frame k ?k1" by (rule stat_frame_upd_rq) simp_all
  have k2: "pick_frame ?k1 ?k2" using pick_frame_clock by simp
  have k3: "pick_frame ?k2 (upd_rq ?core ?z (sched_core_account_forceidle x c ?k2))"
    by (rule pick_frame_trans [OF pick_lawD(11) [OF assms(1)]]) (rule pick_frame_upd_rq; simp)
  note k13 = stat_frame_trans [OF k1 pick_frame_stat [OF pick_frame_trans [OF k2 k3]]]
  show "stat_frame k k'"
    using assms(2) k1 k13 unfolding pick_reset_def Let_def by (cases "rq_core_forceidle_count (rqs ?k1 ?core) \<noteq> 0") auto
  assume n: "\<not> need_sync"
  then have "k' = ?k1" "rq_core_cookie (rqs k ?core) = 0"
    using assms(2) unfolding pick_reset_def Let_def by (auto split: if_splits)
  then show "pick_frame k k' \<and> rq_core_cookie (rqs k' (rq_core (rqs k' c))) = 0"
    using k1 by (auto simp: pick_frame_def)
qed

lemma pick_next_task_sound:
  fixes e x c prev k
  defines "S \<equiv> set (cpu_smt_mask x c)"
  assumes "pick_law x" and "idle_wf k" and "c \<in> S" and "pick_next_task e x c prev k = Some (next, k')"
  shows "stat_frame k k' \<and> (sched_core_enabled k c \<and> c \<in> cpu_online_mask k \<and> core_inv S c k \<longrightarrow> core_ok S c next k')"
proof -
  let ?none = "\<lambda>rq. rq\<lparr>rq_core_pick := None\<rparr>"
  have none: "stat_frame k (upd_rq c ?none k)" for k by (rule stat_frame_upd_rq) simp_all
  let ?core = "rqs k (rq_core (rqs k c))"
  consider (off) "\<not> sched_core_enabled k c"
    | (offline) "sched_core_enabled k c" "c \<notin> cpu_online_mask k"
    | (pending) q where "sched_core_enabled k c" "c \<in> cpu_online_mask k" "rq_core_pick_seq ?core = rq_core_task_seq ?core"
        "rq_core_pick_seq ?core \<noteq> rq_core_sched_seq (rqs k c)" "rq_core_pick (rqs k c) = Some q"
    | (select) "sched_core_enabled k c" "c \<in> cpu_online_mask k" "\<not> (rq_core_pick_seq ?core = rq_core_task_seq ?core \<and>
        rq_core_pick_seq ?core \<noteq> rq_core_sched_seq (rqs k c) \<and> rq_core_pick (rqs k c) \<noteq> None)" by blast
  then show ?thesis
  proof cases
    case off
    then have "k__pick_next_task x c prev k = Some (next, k')" using assms(5) by (simp add: pick_next_task_def)
    from pick_frame_stat [OF pick_next_frame [OF assms(2) this]] show ?thesis using off by simp
  next
    case offline
    then have "k__pick_next_task x c prev (upd_rq c ?none k) = Some (next, k')" using assms(5) by (simp add: pick_next_task_def)
    from stat_frame_trans [OF none pick_frame_stat [OF pick_next_frame [OF assms(2) this]]] show ?thesis using offline by simp
  next
    case pending
    define k1 where "k1 = upd_rq c (\<lambda>rq. rq\<lparr>rq_core_sched_seq := rq_core_pick_seq ?core\<rparr>) k"
    define k2 where "k2 = (if q \<noteq> prev then set_next_task x c q (put_prev_task x c prev k1) else k1)"
    have "pick_next_task e x c prev k = pick_out x c q (upd_rq c ?none k2)"
      using pending by (cases "q = prev") (simp_all add: pick_next_task_def Let_def k1_def k2_def)
    then have out: "pick_out x c q (upd_rq c ?none k2) = Some (next, k')" using assms(5) by simp
    have k1: "pick_frame k k1" unfolding k1_def by (rule pick_frame_upd_rq) simp_all
    have "pick_frame k1 k2"
      unfolding k2_def using pick_frame_trans [OF pick_lawD(1) [OF assms(2)] pick_lawD(2) [OF assms(2)]] by simp
    note k2 = pick_frame_trans [OF k1 this]
    note o = pick_out_frame [OF assms(2) out]
    have "core_ok S c q (upd_rq c ?none k2)" if inv: "core_inv S c k"
    proof (rule core_inv_ok [OF core_inv_frame [OF k2 inv]])
      have "cookie_equals k q (rq_core_cookie (rqs k (rq_core (rqs k c))))"
        using inv assms(4) pending(5) by (auto simp: core_inv_def pick_ok_def Let_def)
      then show "cookie_equals k2 q (rq_core_cookie (rqs k2 (rq_core (rqs k2 c))))"
        using stat_frame_sel(1,5) [OF pick_frame_stat [OF k2]] pick_frame_sel(2) [OF k2] by simp
    qed
    then show ?thesis
      using core_ok_frame [OF o(2)] o(1) stat_frame_trans [OF stat_frame_trans [OF pick_frame_stat [OF k2] none] pick_frame_stat [OF o(2)]] by simp
  next
    case select
    define k1 where "k1 = put_prev_task_balance x c prev k"
    obtain sync fi u k2 where r: "pick_reset e x c k1 = (sync, fi, u, k2)" by (metis prod_cases4)
    define k3 where "k3 = upd_core c (\<lambda>rq. rq\<lparr>rq_core_task_seq := rq_core_task_seq rq + 1\<rparr>) k2"
    have k1: "pick_frame k k1" unfolding k1_def by (rule put_prev_balance_frame [OF assms(2)])
    note rs = pick_reset_sound [OF assms(2) r]
    have k3: "pick_frame k2 k3" unfolding k3_def upd_core_def by (rule pick_frame_upd_rq) simp_all
    note s13 = stat_frame_trans [OF pick_frame_stat [OF k1] stat_frame_trans [OF rs(1) pick_frame_stat [OF k3]]]
    have res: "(if \<not> sync then case pick_task x c k3 of None \<Rightarrow> None
        | Some (next, k) \<Rightarrow> if t_core_cookie (tasks k next) = 0
            then pick_out x c next (set_next_task x c next (task_vruntime_update x c next False (upd_rq c ?none k)))
            else pick_core_wide e x c fi u k
        else pick_core_wide e x c fi u k3) = Some (next, k')"
      using assms(5) select(1,2)
      unfolding pick_next_task_def Let_def if_not_P [OF select(3)] k1_def [symmetric] r prod.case k3_def [symmetric]
      by simp
    have wide: "stat_frame k k' \<and> core_ok S c next k'" if "stat_frame k k4" "pick_core_wide e x c fi u k4 = Some (next, k')" for k4
    proof -
      have "idle_wf k4" using assms(3) stat_frame_sel(2) [OF that(1)] by simp
      from pick_core_wide_sound [OF assms(2) this assms(4) [unfolded S_def] that(2)] show ?thesis
        using stat_frame_trans [OF that(1)] by (simp add: S_def)
    qed
    show ?thesis
    proof (cases sync)
      case True
      then show ?thesis using wide [OF s13] res by simp
    next
      case False
      then obtain q k4 where q: "pick_task x c k3 = Some (q, k4)" using res by (auto split: option.splits)
      note k4 = pick_task_frame [OF assms(2) q]
      note s14 = stat_frame_trans [OF s13 pick_frame_stat [OF k4]]
      show ?thesis
      proof (cases "t_core_cookie (tasks k4 q) = 0")
        case True
        let ?k5 = "task_vruntime_update x c q False (upd_rq c ?none k4)"
        have out: "pick_out x c q (set_next_task x c q ?k5) = Some (next, k')" using res False q True by simp
        note o = pick_out_frame [OF assms(2) out]
        have k5: "pick_frame (upd_rq c ?none k4) k'"
          by (rule pick_frame_trans [OF pick_frame_trans [OF pick_lawD(10) [OF assms(2)] pick_lawD(2) [OF assms(2)]] o(2)])
        have k14: "pick_frame k k4" "rq_core_cookie (rqs k4 (rq_core (rqs k4 c))) = 0"
          using rs(2) [OF False] pick_frame_trans [OF k1 pick_frame_trans [OF _ pick_frame_trans [OF k3 k4]]]
            pick_frame_sel(2) [OF pick_frame_trans [OF k3 k4]] stat_frame_sel(5) [OF pick_frame_stat [OF pick_frame_trans [OF k3 k4]]]
          by simp_all
        have "core_ok S c q (upd_rq c ?none k4)" if "core_inv S c k"
          by (rule core_inv_ok [OF core_inv_frame [OF k14(1) that]]) (simp add: k14(2) cookie_equals_def True)
        then show ?thesis using core_ok_frame [OF k5] o(1) stat_frame_trans [OF s14 stat_frame_trans [OF none pick_frame_stat [OF k5]]] by simp
      next
        case False
        then show ?thesis using wide [OF s14] res \<open>\<not> sync\<close> q by simp
      qed
    qed
  qed
qed

text \<open>
  C14.  Core scheduling isolates.  When every sibling of a core keeps the promise for the cookie of the core, then
  it does so after one of them has picked its next task: the task picked matches every task that runs on a
  sibling, or that sibling is about to be rescheduled, and what then waits for it matches, too.  So tasks
  with different cookies do not run together on one core, the requirement that the code checks with
  \<^verbatim>\<open>WARN_ON_ONCE(!cookie_match(next, rq_i->core_pick))\<close>.
\<close>

theorem pick_next_task_isolation:
  fixes e x c prev k
  defines "S \<equiv> set (cpu_smt_mask x c)"
  assumes "pick_law x" and "idle_wf k" and "c \<in> S" and "sched_core_enabled k c" and "c \<in> cpu_online_mask k"
    and "core_inv S c k" and "pick_next_task e x c prev k = Some (next, k')"
  shows "core_ok S c next k' \<and>
    (\<forall>i \<in> S - {c}. (cookie_match k' next (rq_curr (rqs k' i)) \<or> t_need_resched (tasks k' (rq_curr (rqs k' i)))) \<and>
       (\<forall>p. rq_core_pick (rqs k' i) = Some p \<longrightarrow> cookie_match k' next p))"
proof -
  have ok: "core_ok S c next k'"
    using pick_next_task_sound [OF assms(2,3) assms(4) [unfolded S_def] assms(8)] assms(5-7) by (simp add: S_def)
  let ?n = "rq_core_cookie (rqs k' (rq_core (rqs k' c)))"
  have m: "cookie_match k' next p" if "cookie_equals k' next ?n" "cookie_equals k' p ?n" for p
    using that by (auto simp: cookie_match_def cookie_equals_def)
  show ?thesis using ok m by (auto simp: core_ok_def Let_def pick_ok_def curr_ok_def)
qed

lemma core_pick_max_total:
  assumes "pick_law x"
  shows "core_pick_max e x c fi u is s \<noteq> None"
proof (induction "is" arbitrary: s)
  case (Cons i js)
  obtain m k where s: "s = (m, k)" by fastforce
  let ?k1 = "if i \<noteq> c \<and> (i \<noteq> rq_core (rqs k c) \<or> \<not> u) then update_rq_clock e x i k else k"
  obtain p k2 where "pick_task x i ?k1 = Some (p, k2)" using pick_task_total [OF assms, of i ?k1] by auto
  then have "core_pick_step e x c fi u i s \<noteq> None"
    unfolding core_pick_step_def Let_def s prod.case by (simp split: option.split)
  with Cons show ?case by auto
qed simp

lemma core_match_all_total:
  assumes "pick_law x" and "idle_wf k" and "\<forall>i \<in> set is. rq_core_pick (rqs k i) \<noteq> None"
  shows "core_match_all x c fi cookie is (occ, k) \<noteq> None"
  using assms(2,3)
proof (induction "is" arbitrary: occ k)
  case (Cons i js)
  have "core_match x i cookie k \<noteq> None" using Cons.prems(2) by (intro core_match_total [OF assms(1)]) simp
  then have "core_match_step x c fi cookie i (occ, k) \<noteq> None"
    by (auto simp: core_match_step_def Let_def)
  then obtain occ1 k1 where s: "core_match_step x c fi cookie i (occ, k) = Some (occ1, k1)" by auto
  note st = core_match_step_sound [OF assms(1) s Cons.prems(1)]
  then have s1: "stat_frame k k1" by (simp add: picks_frame_def)
  have "rq_core_pick (rqs k1 j) \<noteq> None" if "j \<in> set js" for j
    using st Cons.prems(2) that by (cases "j = i") (auto simp: picks_frame_def)
  then show ?case using Cons.IH Cons.prems(1) s stat_frame_sel(2) [OF s1] by simp
qed simp

lemma pick_core_wide_total:
  assumes "pick_law x" and "idle_wf k" and "c \<in> set (cpu_smt_mask x c)"
  shows "pick_core_wide e x c fi u k \<noteq> None"
proof -
  let ?w = "cpus_wrap (cpu_smt_mask x c) c"
  have w: "set ?w = set (cpu_smt_mask x c)" by (auto simp: cpus_wrap_def)
  obtain m k1 where m: "core_pick_max e x c fi u ?w (None, k) = Some (m, k1)"
    using core_pick_max_total [OF assms(1)] by (metis option.exhaust surj_pair)
  note mp = core_pick_max_sound [OF assms(1) m]
  obtain p where p: "m = Some p" using mp w assms(3) by (cases m) auto
  let ?n = "t_core_cookie (tasks k1 p)"
  let ?k2 = "upd_core c (\<lambda>rq. rq\<lparr>rq_core_cookie := ?n\<rparr>) k1"
  have "stat_frame k1 ?k2" unfolding upd_core_def by (rule stat_frame_upd_rq) simp_all
  then have s2: "stat_frame k ?k2" using mp stat_frame_trans by (auto simp: picks_frame_def)
  then have wf: "idle_wf ?k2" using assms(2) stat_frame_sel(2) by blast
  moreover have "\<forall>i \<in> set (cpu_smt_mask x c). rq_core_pick (rqs ?k2 i) \<noteq> None" using mp w by (simp add: upd_core_def)
  ultimately obtain occ k3 where k3: "core_match_all x c fi ?n (cpu_smt_mask x c) (0, ?k2) = Some (occ, k3)"
    using core_match_all_total [OF assms(1), of ?k2 "cpu_smt_mask x c" c fi ?n 0] by auto
  have "rq_core_pick (rqs k3 c) \<noteq> None" using core_match_all_sound [OF assms(1) k3 wf] assms(3) by blast
  then obtain q where q: "rq_core_pick (rqs k3 c) = Some q" by blast
  show ?thesis
    unfolding pick_core_wide_def Let_def m p k3 option.case prod.case by (simp add: q pick_out_def split: option.split)
qed

lemma pick_next_task_some:
  assumes "pick_law x" and "idle_wf k" and "c \<in> set (cpu_smt_mask x c)"
  shows "pick_next_task e x c prev k \<noteq> None"
proof -
  define k1 where "k1 = put_prev_task_balance x c prev k"
  obtain sync fi u k2 where r: "pick_reset e x c k1 = (sync, fi, u, k2)" by (metis prod_cases4)
  define k3 where "k3 = upd_core c (\<lambda>rq. rq\<lparr>rq_core_task_seq := rq_core_task_seq rq + 1\<rparr>) k2"
  have "pick_frame k2 k3" unfolding k3_def upd_core_def by (rule pick_frame_upd_rq) simp_all
  then have s3: "stat_frame k k3"
    using stat_frame_trans [OF pick_frame_stat [OF put_prev_balance_frame [OF assms(1), of k c prev]]
        stat_frame_trans [OF pick_reset_sound(1) [OF assms(1) r [unfolded k1_def]] pick_frame_stat]] by blast
  have wide: "pick_core_wide e x c fi u k4 \<noteq> None" if "stat_frame k k4" for k4
    using assms(2) stat_frame_sel(2) [OF that] by (intro pick_core_wide_total [OF assms(1) _ assms(3)]) simp
  have next_task: "k__pick_next_task x c prev k4 \<noteq> None" for k4 by (rule pick_next_total [OF assms(1)])
  obtain q k4 where q: "pick_task x c k3 = Some (q, k4)" using pick_task_total [OF assms(1), of c k3] by auto
  note s4 = stat_frame_trans [OF s3 pick_frame_stat [OF pick_task_frame [OF assms(1) q]]]
  show ?thesis
    unfolding pick_next_task_def Let_def k1_def [symmetric] r prod.case k3_def [symmetric] q option.case
    using wide [OF s3] wide [OF s4] next_task by (auto simp: pick_out_def)
qed

text \<open>Two hardware threads, each with one queued task of a different cookie.\<close>

definition sample_core_kops :: kops where
  "sample_core_kops = plain_kops\<lparr>cpu_smt_mask := (\<lambda>_. [0, 1]),
     op_pick_task := (\<lambda>s c k. (if s = fair_sched_class then Some (10 + c)
       else if s = idle_sched_class then Some (rq_idle (rqs k c)) else None, k))\<rparr>"

definition sample_core_kernel :: kernel where
  "sample_core_kernel = zero_kernel\<lparr>tasks := (\<lambda>p. zero_task\<lparr>t_core_cookie := (if p = 10 then 7 else if p = 11 then 8 else 0),
       t_prio := (if p = 10 then 120 else 110), t_cpu := (if 100 \<le> p then p - 100 else p mod 2)\<rparr>),
     rqs := (\<lambda>c. zero_rq\<lparr>rq_core_enabled := True, rq_idle := c + 100, rq_curr := c + 100\<rparr>), k__sched_core_enabled := True,
     cpu_online_mask := {0, 1}\<rparr>"

lemma sample_core_law: "pick_law sample_core_kops"
  by (auto simp: pick_law_def sample_core_kops_def plain_kops_def find_Some_iff split: if_splits)

lemma sample_core_wf: "idle_wf sample_core_kernel" "core_inv {0, 1} 0 sample_core_kernel"
  by (simp_all add: idle_wf_def is_task_rq_idle_def task_rq_def sample_core_kernel_def core_inv_def Let_def pick_ok_def
      curr_ok_def cookie_equals_def zero_rq_def)

theorem pick_next_task_isolation_witness:
  "\<exists>next k'. pick_next_task kenv_v5_17 sample_core_kops 0 100 sample_core_kernel = Some (next, k') \<and> core_ok {0, 1} 0 next k'"
proof -
  have S: "set (cpu_smt_mask sample_core_kops 0) = {0, 1}" by (simp add: sample_core_kops_def)
  obtain next_task k' where p: "pick_next_task kenv_v5_17 sample_core_kops 0 100 sample_core_kernel = Some (next_task, k')"
    using pick_next_task_some [OF sample_core_law sample_core_wf(1), of 0 kenv_v5_17 100] S by auto
  moreover have "core_ok {0, 1} 0 next_task k'"
    using pick_next_task_isolation [OF sample_core_law sample_core_wf(1) _ _ _ _ p] sample_core_wf(2) unfolding S
    by (simp add: sample_core_kernel_def sched_core_enabled_def)
  ultimately show ?thesis by blast
qed

text \<open>
  C33.  Picking a task always succeeds: neither \<^verbatim>\<open>BUG()\<close> of the two walks over the classes is reached, because the
  idle class always has a task, and the selection of core scheduling never follows a null pointer.  No
  running task and no priority, weight or cookie of a task changes.
\<close>

theorem pick_next_task_total:
  assumes "pick_law x" and "idle_wf k" and "c \<in> set (cpu_smt_mask x c)"
  shows "\<exists>next k'. pick_next_task e x c prev k = Some (next, k') \<and> stat_frame k k'"
  using pick_next_task_some [OF assms] pick_next_task_sound [OF assms] by (metis option.exhaust surj_pair)

theorem pick_next_task_total_witness:
  "\<exists>next k'. pick_next_task kenv_v5_17 sample_core_kops 1 101 sample_core_kernel = Some (next, k') \<and>
     rq_curr (rqs k' 1) = 101"
proof -
  have "\<exists>next k'. pick_next_task kenv_v5_17 sample_core_kops 1 101 sample_core_kernel = Some (next, k') \<and> stat_frame sample_core_kernel k'"
    by (rule pick_next_task_total [OF sample_core_law sample_core_wf(1)]) (simp add: sample_core_kops_def)
  then show ?thesis by (auto simp: stat_frame_sel(3) sample_core_kernel_def)
qed

end
