(* ===== verification/Task_State.thy ===== *)
theory Task_State
  imports Sched_Types
begin

text \<open>
  Task states and flags, \<^verbatim>\<open>Project 2/sched.h\<close>: the state constants and the tests on them, the state letter that
  is reported to user space, and the per-process flags with their accessors.
\<close>

subsection \<open>States\<close>

definition TASK_RUNNING :: u32 where "TASK_RUNNING = 0x0"

definition TASK_INTERRUPTIBLE :: u32 where "TASK_INTERRUPTIBLE = 0x1"

definition TASK_UNINTERRUPTIBLE :: u32 where "TASK_UNINTERRUPTIBLE = 0x2"

definition k__TASK_STOPPED :: u32 where "k__TASK_STOPPED = 0x4"

definition k__TASK_TRACED :: u32 where "k__TASK_TRACED = 0x8"

definition EXIT_DEAD :: u32 where "EXIT_DEAD = 0x10"

definition EXIT_ZOMBIE :: u32 where "EXIT_ZOMBIE = 0x20"

definition TASK_PARKED :: u32 where "TASK_PARKED = 0x40"

definition TASK_DEAD :: u32 where "TASK_DEAD = 0x80"

definition TASK_WAKEKILL :: u32 where "TASK_WAKEKILL = 0x100"

definition TASK_WAKING :: u32 where "TASK_WAKING = 0x200"

definition TASK_NOLOAD :: u32 where "TASK_NOLOAD = 0x400"

definition TASK_NEW :: u32 where "TASK_NEW = 0x800"

definition TASK_RTLOCK_WAIT :: u32 where "TASK_RTLOCK_WAIT = 0x1000"

definition TASK_STATE_MAX :: u32 where "TASK_STATE_MAX = 0x2000"

definition EXIT_TRACE :: u32 where "EXIT_TRACE = EXIT_ZOMBIE OR EXIT_DEAD"

definition TASK_KILLABLE :: u32 where "TASK_KILLABLE = TASK_WAKEKILL OR TASK_UNINTERRUPTIBLE"

definition TASK_STOPPED :: u32 where "TASK_STOPPED = TASK_WAKEKILL OR k__TASK_STOPPED"

definition TASK_TRACED :: u32 where "TASK_TRACED = TASK_WAKEKILL OR k__TASK_TRACED"

definition TASK_IDLE :: u32 where "TASK_IDLE = TASK_UNINTERRUPTIBLE OR TASK_NOLOAD"

definition TASK_NORMAL :: u32 where "TASK_NORMAL = TASK_INTERRUPTIBLE OR TASK_UNINTERRUPTIBLE"

definition TASK_REPORT :: u32 where "TASK_REPORT = TASK_RUNNING OR TASK_INTERRUPTIBLE OR TASK_UNINTERRUPTIBLE OR k__TASK_STOPPED OR k__TASK_TRACED OR
     EXIT_DEAD OR EXIT_ZOMBIE OR TASK_PARKED"

definition TASK_REPORT_IDLE :: u32 where "TASK_REPORT_IDLE = TASK_REPORT + 1"

definition TASK_REPORT_MAX :: u32 where "TASK_REPORT_MAX = push_bit 1 TASK_REPORT_IDLE"

lemmas task_state_defs =
  TASK_RUNNING_def TASK_INTERRUPTIBLE_def TASK_UNINTERRUPTIBLE_def k__TASK_STOPPED_def k__TASK_TRACED_def EXIT_DEAD_def EXIT_ZOMBIE_def TASK_PARKED_def TASK_DEAD_def TASK_WAKEKILL_def TASK_WAKING_def TASK_NOLOAD_def TASK_NEW_def TASK_RTLOCK_WAIT_def TASK_STATE_MAX_def
  EXIT_TRACE_def TASK_KILLABLE_def TASK_STOPPED_def TASK_TRACED_def TASK_IDLE_def TASK_NORMAL_def TASK_REPORT_def TASK_REPORT_IDLE_def TASK_REPORT_MAX_def

definition task_is_running :: "task_struct \<Rightarrow> bool" where
  "task_is_running t \<longleftrightarrow> t_state t = TASK_RUNNING"

definition task_is_traced :: "task_struct \<Rightarrow> bool" where
  "task_is_traced t \<longleftrightarrow> t_state t AND k__TASK_TRACED \<noteq> 0"

definition task_is_stopped :: "task_struct \<Rightarrow> bool" where
  "task_is_stopped t \<longleftrightarrow> t_state t AND k__TASK_STOPPED \<noteq> 0"

definition task_is_stopped_or_traced :: "task_struct \<Rightarrow> bool" where
  "task_is_stopped_or_traced t \<longleftrightarrow> t_state t AND (k__TASK_STOPPED OR k__TASK_TRACED) \<noteq> 0"

definition is_special_task_state :: "u32 \<Rightarrow> bool" where
  "is_special_task_state s \<longleftrightarrow> s AND (k__TASK_STOPPED OR k__TASK_TRACED OR TASK_PARKED OR TASK_DEAD) \<noteq> 0"

definition set_current_state :: "u32 \<Rightarrow> kernel \<Rightarrow> kernel" where
  "set_current_state s k = upd_task (current k) (\<lambda>t. t\<lparr>t_state := s\<rparr>) k"

definition set_special_state :: "u32 \<Rightarrow> kernel \<Rightarrow> kernel" where
  "set_special_state s k = upd_task (current k) (\<lambda>t. t\<lparr>t_state := s\<rparr>) k"

subsection \<open>The letter of a state\<close>

text \<open>\<^verbatim>\<open>fls\<close>: the position of the highest bit that is set, counted from one.\<close>

definition fls32 :: "u32 \<Rightarrow> nat" where
  "fls32 w = fold (\<lambda>i r. if bit w i then Suc i else r) [0..<32] 0"

definition task_state_index :: "task_struct \<Rightarrow> nat" where
  "task_state_index tsk =
     (let state = (t_state tsk OR t_exit_state tsk) AND TASK_REPORT;
          state = (if t_state tsk = TASK_IDLE then TASK_REPORT_IDLE else state);
          state = (if t_state tsk = TASK_RTLOCK_WAIT then TASK_UNINTERRUPTIBLE else state)
      in fls32 state)"

definition state_char :: string where "state_char = ''RSDTtXZPI''"

text \<open>Reading past the end of the array is \<open>None\<close>.\<close>

definition task_index_to_char :: "nat \<Rightarrow> char option" where
  "task_index_to_char state = (if state < length state_char then Some (state_char ! state) else None)"

definition task_state_to_char :: "task_struct \<Rightarrow> char option" where
  "task_state_to_char tsk = task_index_to_char (task_state_index tsk)"

definition is_global_init :: "task_struct \<Rightarrow> bool" where
  "is_global_init tsk \<longleftrightarrow> t_tgid tsk = 1"

subsection \<open>Flags\<close>

definition PF_VCPU :: u32 where "PF_VCPU = 0x1"

definition PF_IDLE :: u32 where "PF_IDLE = 0x2"

definition PF_EXITING :: u32 where "PF_EXITING = 0x4"

definition PF_POSTCOREDUMP :: u32 where "PF_POSTCOREDUMP = 0x8"

definition PF_IO_WORKER :: u32 where "PF_IO_WORKER = 0x10"

definition PF_WQ_WORKER :: u32 where "PF_WQ_WORKER = 0x20"

definition PF_FORKNOEXEC :: u32 where "PF_FORKNOEXEC = 0x40"

definition PF_MCE_PROCESS :: u32 where "PF_MCE_PROCESS = 0x80"

definition PF_SUPERPRIV :: u32 where "PF_SUPERPRIV = 0x100"

definition PF_DUMPCORE :: u32 where "PF_DUMPCORE = 0x200"

definition PF_SIGNALED :: u32 where "PF_SIGNALED = 0x400"

definition PF_MEMALLOC :: u32 where "PF_MEMALLOC = 0x800"

definition PF_NPROC_EXCEEDED :: u32 where "PF_NPROC_EXCEEDED = 0x1000"

definition PF_USED_MATH :: u32 where "PF_USED_MATH = 0x2000"

definition PF_NOFREEZE :: u32 where "PF_NOFREEZE = 0x8000"

definition PF_FROZEN :: u32 where "PF_FROZEN = 0x10000"

definition PF_KSWAPD :: u32 where "PF_KSWAPD = 0x20000"

definition PF_MEMALLOC_NOFS :: u32 where "PF_MEMALLOC_NOFS = 0x40000"

definition PF_MEMALLOC_NOIO :: u32 where "PF_MEMALLOC_NOIO = 0x80000"

definition PF_LOCAL_THROTTLE :: u32 where "PF_LOCAL_THROTTLE = 0x100000"

definition PF_KTHREAD :: u32 where "PF_KTHREAD = 0x200000"

definition PF_RANDOMIZE :: u32 where "PF_RANDOMIZE = 0x400000"

definition PF_SWAPWRITE :: u32 where "PF_SWAPWRITE = 0x800000"

definition PF_NO_SETAFFINITY :: u32 where "PF_NO_SETAFFINITY = 0x4000000"

definition PF_MCE_EARLY :: u32 where "PF_MCE_EARLY = 0x8000000"

definition PF_MEMALLOC_PIN :: u32 where "PF_MEMALLOC_PIN = 0x10000000"

definition PF_FREEZER_SKIP :: u32 where "PF_FREEZER_SKIP = 0x40000000"

definition PF_SUSPEND_TASK :: u32 where "PF_SUSPEND_TASK = 0x80000000"

lemmas pf_defs =
  PF_VCPU_def PF_IDLE_def PF_EXITING_def PF_POSTCOREDUMP_def PF_IO_WORKER_def PF_WQ_WORKER_def PF_FORKNOEXEC_def PF_MCE_PROCESS_def PF_SUPERPRIV_def PF_DUMPCORE_def PF_SIGNALED_def PF_MEMALLOC_def PF_NPROC_EXCEEDED_def PF_USED_MATH_def PF_NOFREEZE_def PF_FROZEN_def PF_KSWAPD_def PF_MEMALLOC_NOFS_def PF_MEMALLOC_NOIO_def PF_LOCAL_THROTTLE_def PF_KTHREAD_def PF_RANDOMIZE_def PF_SWAPWRITE_def PF_NO_SETAFFINITY_def PF_MCE_EARLY_def PF_MEMALLOC_PIN_def PF_FREEZER_SKIP_def PF_SUSPEND_TASK_def

definition is_percpu_thread :: "kernel \<Rightarrow> bool" where
  "is_percpu_thread k \<longleftrightarrow> (let t = tasks k (current k)
     in flag_set (t_flags t) PF_NO_SETAFFINITY \<and> t_nr_cpus_allowed t = 1)"

definition current_restore_flags :: "u32 \<Rightarrow> u32 \<Rightarrow> kernel \<Rightarrow> kernel" where
  "current_restore_flags orig_flags flags k =
     upd_task (current k) (\<lambda>t. let f = t_flags t AND NOT flags in t\<lparr>t_flags := f OR (orig_flags AND flags)\<rparr>) k"

definition set_stopped_child_used_math :: "task_struct \<Rightarrow> task_struct" where
  "set_stopped_child_used_math t = t\<lparr>t_flags := t_flags t OR PF_USED_MATH\<rparr>"

definition clear_stopped_child_used_math :: "task_struct \<Rightarrow> task_struct" where
  "clear_stopped_child_used_math t = t\<lparr>t_flags := t_flags t AND NOT PF_USED_MATH\<rparr>"

definition conditional_stopped_child_used_math :: "bool \<Rightarrow> task_struct \<Rightarrow> task_struct" where
  "conditional_stopped_child_used_math c t =
     (let t = t\<lparr>t_flags := t_flags t AND NOT PF_USED_MATH\<rparr>
      in t\<lparr>t_flags := t_flags t OR (if c then PF_USED_MATH else 0)\<rparr>)"

definition tsk_used_math :: "task_struct \<Rightarrow> u32" where
  "tsk_used_math t = t_flags t AND PF_USED_MATH"

subsection \<open>Properties\<close>

lemma fls32_le:
  assumes "\<And>i. n \<le> i \<Longrightarrow> \<not> bit w i"
  shows "fls32 w \<le> n"
proof -
  have "fold (\<lambda>i r. if bit w i then Suc i else r) [0..<m] 0 \<le> n" for m
    by (induction m) (use assms not_less in \<open>auto simp: Suc_le_eq\<close>)
  then show ?thesis by (simp add: fls32_def)
qed

text \<open>
  The letter of a task is always one of the nine of \<^verbatim>\<open>RSDTtXZPI\<close>, the array is never read past its end; a task
  without a reported state bit is shown as running, a dead task by its exit state, and the two disguised states as documented.
\<close>

theorem task_state_to_char_total:
  "task_state_index t < length state_char \<and>
   task_state_to_char t = Some (state_char ! task_state_index t) \<and>
   task_state_to_char (t\<lparr>t_state := TASK_IDLE\<rparr>) = Some (CHR ''I'') \<and>
   task_state_to_char (t\<lparr>t_state := TASK_RTLOCK_WAIT\<rparr>) = Some (CHR ''D'') \<and>
   task_state_to_char (t\<lparr>t_state := TASK_RUNNING, t_exit_state := 0\<rparr>) = Some (CHR ''R'') \<and>
   task_state_to_char (t\<lparr>t_state := TASK_DEAD, t_exit_state := EXIT_ZOMBIE\<rparr>) = Some (CHR ''Z'') \<and>
   task_state_to_char (t\<lparr>t_state := TASK_DEAD, t_exit_state := EXIT_DEAD\<rparr>) = Some (CHR ''X'')"
proof -
  have r: "TASK_REPORT = mask 7" by (simp add: task_state_defs mask_eq_decr_exp)
  have "fls32 ((s OR x) AND TASK_REPORT) \<le> 8" for s x
    by (rule fls32_le) (simp add: r bit_simps)
  moreover have "fls32 TASK_REPORT_IDLE = 8" "fls32 TASK_UNINTERRUPTIBLE = 2" "fls32 0 = 0" "fls32 EXIT_ZOMBIE = 6" "fls32 EXIT_DEAD = 5"
    by (simp_all add: fls32_def task_state_defs upt_rec)
  moreover have "TASK_IDLE \<noteq> TASK_RTLOCK_WAIT" "TASK_RUNNING \<noteq> TASK_IDLE" "TASK_RUNNING \<noteq> TASK_RTLOCK_WAIT"
    "TASK_DEAD \<noteq> TASK_IDLE" "TASK_DEAD \<noteq> TASK_RTLOCK_WAIT" "(TASK_DEAD OR EXIT_ZOMBIE) AND TASK_REPORT = EXIT_ZOMBIE"
    "(TASK_DEAD OR EXIT_DEAD) AND TASK_REPORT = EXIT_DEAD" "(TASK_RUNNING OR 0) AND TASK_REPORT = 0"
    by (simp_all add: task_state_defs)
  moreover from calculation have "task_state_index t \<le> 8" by (simp add: task_state_index_def Let_def)
  ultimately show ?thesis
    by (simp add: task_state_to_char_def task_index_to_char_def state_char_def) (simp add: task_state_index_def Let_def)
qed

text \<open>
   Restoring flags sets the selected ones as they were saved and leaves every other flag; together with
  setting flags beforehand it is a round trip.
\<close>

theorem current_restore_flags_roundtrip:
  "let orig = t_flags (tasks k (current k));
       k1 = upd_task (current k) (\<lambda>t. t\<lparr>t_flags := t_flags t OR flags\<rparr>) k;
       k2 = upd_task (current k) (\<lambda>t. t\<lparr>t_flags := t_flags t AND NOT flags\<rparr>) k
   in current_restore_flags orig flags k1 = k \<and> current_restore_flags orig flags k2 = k"
proof -
  have "(f OR flags) AND NOT flags OR (f AND flags) = f" "f AND NOT flags AND NOT flags OR (f AND flags) = f" for f :: u32
    by (rule bit_word_eqI; auto simp: bit_simps)+
  then show ?thesis by (simp add: current_restore_flags_def Let_def current_def upd_task_def)
qed

end
