(* ===== verification/Affinity.thy ===== *)
theory Affinity
  imports Pick_Next Task_State
begin

text \<open>
  CPU affinity and migration, \<^verbatim>\<open>Project 2/core.c\<close> lines 2149 to 3080 and 7960 to 8167: disabling migration,
  changing the mask of allowed CPUs, the protocol of pending requests with the stopper thread, and the system
  calls that set and read the mask.

  A \<^verbatim>\<open>struct set_affinity_pending\<close> lives on the stack of the first caller; here it is an entry of \<open>pendings\<close>
  under an index that the caller brings.  \<^verbatim>\<open>affine_move_task\<close> returns what it does before it waits, and
  \<open>affine_wait\<close> is the rest.
\<close>

subsection \<open>Where a task may run\<close>

definition is_migration_disabled :: "task_struct \<Rightarrow> bool" where
  "is_migration_disabled t \<longleftrightarrow> t_migration_disabled t \<noteq> 0"

definition is_cpu_allowed :: "kops \<Rightarrow> kernel \<Rightarrow> tid \<Rightarrow> cpu \<Rightarrow> bool" where
  "is_cpu_allowed x k p c =
     (let t = tasks k p
      in if c \<notin> task_cpus_ptr t then False
         else if is_migration_disabled t then c \<in> cpu_online_mask k
         else if \<not> flag_set (t_flags t) PF_KTHREAD then c \<in> cpu_active_mask k \<and> c \<in> task_cpu_possible_mask x p
         else if kthread_is_per_cpu x p then c \<in> cpu_online_mask k
         else if cpu_dying x c then False
         else c \<in> cpu_online_mask k)"

definition rq_has_pinned_tasks :: "rq \<Rightarrow> bool" where
  "rq_has_pinned_tasks rq \<longleftrightarrow> rq_nr_pinned rq \<noteq> 0"

subsection \<open>Moving a task\<close>

text \<open>\<^verbatim>\<open>__set_task_cpu\<close> also sets \<^verbatim>\<open>wake_cpu\<close>.\<close>

definition set_task_cpu :: "kops \<Rightarrow> tid \<Rightarrow> cpu \<Rightarrow> kernel \<Rightarrow> kernel" where
  "set_task_cpu x p new_cpu k =
     (let k = (if task_rq k p \<noteq> new_cpu
               then let k = (case op_migrate_task_rq x (t_sched_class (tasks k p)) of None \<Rightarrow> k | Some f \<Rightarrow> f p new_cpu k)
                    in upd_task p (\<lambda>t. t\<lparr>t_se := (t_se t)\<lparr>se_nr_migrations := se_nr_migrations (t_se t) + 1\<rparr>\<rparr>) k
               else k)
      in upd_task p (\<lambda>t. t\<lparr>t_cpu := new_cpu, t_wake_cpu := new_cpu\<rparr>) k)"

definition move_queued_task :: "kenv \<Rightarrow> kops \<Rightarrow> cpu \<Rightarrow> tid \<Rightarrow> cpu \<Rightarrow> kernel \<Rightarrow> kernel" where
  "move_queued_task e x c p new_cpu k =
     (let k = deactivate_task e x c p (DEQUEUE_NOCLOCK e) k;
          k = set_task_cpu x p new_cpu k;
          k = activate_task e x new_cpu p 0 k
      in check_preempt_curr e x new_cpu p 0 k)"

definition k__migrate_task :: "kenv \<Rightarrow> kops \<Rightarrow> cpu \<Rightarrow> tid \<Rightarrow> cpu \<Rightarrow> kernel \<Rightarrow> kernel" where
  "k__migrate_task e x c p dest_cpu k =
     (if \<not> is_cpu_allowed x k p dest_cpu then k
      else move_queued_task e x c p dest_cpu (update_rq_clock e x c k))"

subsection \<open>Changing the mask\<close>

definition set_cpus_allowed_common :: "kenv \<Rightarrow> tid \<Rightarrow> cpus_ptr \<Rightarrow> u32 \<Rightarrow> kernel \<Rightarrow> kernel" where
  "set_cpus_allowed_common e p new_mask flags =
     upd_task p (\<lambda>t. if flag_set flags (SCA_MIGRATE_ENABLE e OR SCA_MIGRATE_DISABLE e) then t\<lparr>t_cpus_ptr := new_mask\<rparr>
       else t\<lparr>t_cpus_mask := mask_of t new_mask, t_nr_cpus_allowed := card (mask_of t new_mask)\<rparr>)"

definition k__do_set_cpus_allowed :: "kenv \<Rightarrow> kops \<Rightarrow> tid \<Rightarrow> cpus_ptr \<Rightarrow> u32 \<Rightarrow> kernel \<Rightarrow> kernel" where
  "k__do_set_cpus_allowed e x p new_mask flags k =
     (let c = task_rq k p;
          queued = task_on_rq_queued (tasks k p);
          running = (rq_curr (rqs k c) = p);
          k = take_off e x c p (DEQUEUE_SAVE e OR DEQUEUE_NOCLOCK e) queued running k;
          k = op_set_cpus_allowed x (t_sched_class (tasks k p)) p new_mask flags k
      in put_back e x c p (ENQUEUE_RESTORE e OR ENQUEUE_NOCLOCK e) queued running k)"

definition do_set_cpus_allowed :: "kenv \<Rightarrow> kops \<Rightarrow> tid \<Rightarrow> cpus_ptr \<Rightarrow> kernel \<Rightarrow> kernel" where
  "do_set_cpus_allowed e x p new_mask k = k__do_set_cpus_allowed e x p new_mask 0 k"

definition migrate_disable_switch :: "kenv \<Rightarrow> kops \<Rightarrow> cpu \<Rightarrow> tid \<Rightarrow> kernel \<Rightarrow> kernel" where
  "migrate_disable_switch e x c p k =
     (if t_migration_disabled (tasks k p) = 0 then k
      else if t_cpus_ptr (tasks k p) \<noteq> Own_cpus_mask then k
      else k__do_set_cpus_allowed e x p (Cpumask_of c) (SCA_MIGRATE_DISABLE e) k)"

definition migrate_disable :: "kernel \<Rightarrow> kernel" where
  "migrate_disable k =
     (let p = current k
      in if t_migration_disabled (tasks k p) \<noteq> 0
         then upd_task p (\<lambda>t. t\<lparr>t_migration_disabled := t_migration_disabled t + 1\<rparr>) k
         else upd_task p (\<lambda>t. t\<lparr>t_migration_disabled := 1\<rparr>)
           (upd_rq (this_cpu k) (\<lambda>rq. rq\<lparr>rq_nr_pinned := rq_nr_pinned rq + 1\<rparr>) k))"

subsection \<open>Pending requests\<close>

definition stop_one_cpu_nowait :: "cpu \<Rightarrow> stop_work \<Rightarrow> kernel \<Rightarrow> kernel" where
  "stop_one_cpu_nowait c w k = k\<lparr>stop_works := stop_works k @ [(c, w)]\<rparr>"

definition upd_pending :: "nat \<Rightarrow> (affinity_pending \<Rightarrow> affinity_pending) \<Rightarrow> kernel \<Rightarrow> kernel" where
  "upd_pending i f k = k\<lparr>pendings := (pendings k)(i := f (pendings k i))\<rparr>"

definition complete_all :: "nat \<Rightarrow> kernel \<Rightarrow> kernel" where
  "complete_all i = upd_pending i (\<lambda>a. a\<lparr>ap_done := True\<rparr>)"

text \<open>The end of \<^verbatim>\<open>migration_cpu_stop\<close>, at the label \<^verbatim>\<open>out\<close>.\<close>

definition stop_out :: "nat option \<Rightarrow> bool \<Rightarrow> kernel \<Rightarrow> kernel" where
  "stop_out pending complete k =
     (case pending of
        None \<Rightarrow> k
      | Some i \<Rightarrow>
          let k = upd_pending i (\<lambda>a. a\<lparr>ap_stop_pending := False\<rparr>) k
          in if complete then complete_all i k else k)"

definition clear_pending :: "tid \<Rightarrow> kernel \<Rightarrow> kernel" where
  "clear_pending p = upd_task p (\<lambda>t. t\<lparr>t_migration_pending := None\<rparr>)"

definition migration_stop :: "kenv \<Rightarrow> kops \<Rightarrow> cpu \<Rightarrow> tid \<Rightarrow> cpu \<Rightarrow> nat option \<Rightarrow> kernel \<Rightarrow> kernel" where
  "migration_stop e x c p dest_cpu pending k =
     (if task_rq k p = c
      then if is_migration_disabled (tasks k p) then stop_out pending False k
           else
             let k = (if pending \<noteq> None then clear_pending p k else k)
             in if pending \<noteq> None \<and> t_cpu (tasks k p) \<in> t_cpus_mask (tasks k p) then stop_out pending True k
                else
                  let k = (if task_on_rq_queued (tasks k p) then k__migrate_task e x c p dest_cpu k
                           else upd_task p (\<lambda>t. t\<lparr>t_wake_cpu := dest_cpu\<rparr>) k)
                  in stop_out pending (pending \<noteq> None) k
      else
        case pending of
          None \<Rightarrow> stop_out pending False k
        | Some i \<Rightarrow>
            if t_cpu (tasks k p) \<in> task_cpus_ptr (tasks k p) then stop_out pending True (clear_pending p k)
            else stop_one_cpu_nowait (t_cpu (tasks k p)) (Pending_work i) k)"

definition migration_cpu_stop :: "kenv \<Rightarrow> kops \<Rightarrow> cpu \<Rightarrow> tid \<Rightarrow> cpu \<Rightarrow> nat option \<Rightarrow> kernel \<Rightarrow> kernel" where
  "migration_cpu_stop e x c p dest_cpu pending k =
     migration_stop e x c p dest_cpu pending (flush_smp_call_function_from_idle x k)"

definition push_cpu_stop :: "kenv \<Rightarrow> kops \<Rightarrow> cpu \<Rightarrow> tid \<Rightarrow> kernel \<Rightarrow> kernel" where
  "push_cpu_stop e x c p k =
     (let k = (if task_rq k p \<noteq> c then k
               else if is_migration_disabled (tasks k p)
               then upd_task p (\<lambda>t. t\<lparr>t_migration_flags := t_migration_flags t OR MDF_PUSH e\<rparr>) k
               else
                 let k = upd_task p (\<lambda>t. t\<lparr>t_migration_flags := t_migration_flags t AND NOT (MDF_PUSH e)\<rparr>) k;
                     lowest_rq = (case op_find_lock_rq x (t_sched_class (tasks k p)) of None \<Rightarrow> None | Some f \<Rightarrow> f p c k)
                 in case lowest_rq of
                      None \<Rightarrow> k
                    | Some d \<Rightarrow>
                        if task_rq k p = c
                        then resched_curr d (activate_task e x d p 0 (set_task_cpu x p d (deactivate_task e x c p 0 k)))
                        else k)
      in upd_rq c (\<lambda>rq. rq\<lparr>rq_push_busy := False\<rparr>) k)"

text \<open>\<open>Aff_wait i\<close>: the caller goes on to wait for the request \<open>i\<close>.\<close>

datatype aff_result = Aff_ret "errno option" | Aff_wait nat

text \<open>The case that the task may run where it is.\<close>

definition affine_stay :: "kenv \<Rightarrow> cpu \<Rightarrow> tid \<Rightarrow> u32 \<Rightarrow> kernel \<Rightarrow> kernel" where
  "affine_stay e c p flags k =
     (let push_task = (flag_set flags (SCA_MIGRATE_ENABLE e) \<and> flag_set (t_migration_flags (tasks k p)) (MDF_PUSH e) \<and>
            \<not> rq_push_busy (rqs k c));
          k = (if push_task then upd_rq c (\<lambda>rq. rq\<lparr>rq_push_busy := True\<rparr>) k else k);
          complete = (case t_migration_pending (tasks k p) of None \<Rightarrow> None
                      | Some i \<Rightarrow> if ap_stop_pending (pendings k i) then None else Some i);
          k = (if complete \<noteq> None then clear_pending p k else k);
          k = (if push_task then stop_one_cpu_nowait c (Push_work p) k else k)
      in case complete of None \<Rightarrow> k | Some i \<Rightarrow> complete_all i k)"

text \<open>Installing the request, or joining the one that is there.\<close>

definition affine_install :: "tid \<Rightarrow> cpu \<Rightarrow> nat \<Rightarrow> kernel \<Rightarrow> kernel" where
  "affine_install p dest_cpu my_pending k =
     (case t_migration_pending (tasks k p) of
        None \<Rightarrow> upd_task p (\<lambda>t. t\<lparr>t_migration_pending := Some my_pending\<rparr>)
          (upd_pending my_pending (\<lambda>_. \<lparr>ap_refs = 1, ap_stop_pending = False, ap_done = False, ap_task = p,
             ap_dest_cpu = dest_cpu\<rparr>) k)
      | Some i \<Rightarrow> upd_pending i (\<lambda>a. a\<lparr>ap_refs := ap_refs a + 1, ap_dest_cpu := dest_cpu\<rparr>) k)"

definition affine_move_task ::
  "kenv \<Rightarrow> kops \<Rightarrow> cpu \<Rightarrow> tid \<Rightarrow> cpu \<Rightarrow> u32 \<Rightarrow> nat \<Rightarrow> kernel \<Rightarrow> aff_result \<times> kernel" where
  "affine_move_task e x c p dest_cpu flags my_pending k =
     (if t_cpu (tasks k p) \<in> t_cpus_mask (tasks k p) then (Aff_ret None, affine_stay e c p flags k)
      else
        let enable = flag_set flags (SCA_MIGRATE_ENABLE e);
            k = (if \<not> enable then affine_install p dest_cpu my_pending k else k)
        in case t_migration_pending (tasks k p) of
             None \<Rightarrow> (Aff_ret (Some EINVAL), k)
           | Some i \<Rightarrow>
               if t_on_cpu (tasks k p) \<or> t_state (tasks k p) = TASK_WAKING
               then
                 let stop_pending = ap_stop_pending (pendings k i);
                     k = (if \<not> stop_pending then upd_pending i (\<lambda>a. a\<lparr>ap_stop_pending := True\<rparr>) k else k);
                     k = (if enable then upd_task p (\<lambda>t. t\<lparr>t_migration_flags := t_migration_flags t AND NOT (MDF_PUSH e)\<rparr>) k
                          else k);
                     k = (if \<not> stop_pending then stop_one_cpu_nowait c (Pending_work i) k else k)
                 in (if enable then Aff_ret None else Aff_wait i, k)
               else if is_migration_disabled (tasks k p) then (Aff_wait i, k)
               else
                 let k = (if task_on_rq_queued (tasks k p) then move_queued_task e x c p dest_cpu k else k)
                 in if ap_stop_pending (pendings k i) then (Aff_wait i, k)
                    else (Aff_wait i, complete_all i (clear_pending p k)))"

text \<open>The caller returns after the completion was signalled.\<close>

definition affine_wait :: "kops \<Rightarrow> nat \<Rightarrow> kernel \<Rightarrow> kernel" where
  "affine_wait x i k = upd_pending i (\<lambda>a. a\<lparr>ap_refs := ap_refs a - 1\<rparr>) (wait_for_completion x i k)"

definition k__set_cpus_allowed_ptr_locked ::
  "kenv \<Rightarrow> kops \<Rightarrow> tid \<Rightarrow> cpus_ptr \<Rightarrow> u32 \<Rightarrow> nat \<Rightarrow> kernel \<Rightarrow> aff_result \<times> kernel" where
  "k__set_cpus_allowed_ptr_locked e x p new_mask flags my_pending k =
     (let c = task_rq k p;
          k = update_rq_clock e x c k;
          t = tasks k p;
          kthread = flag_set (t_flags t) PF_KTHREAD;
          cpu_valid_mask = (if kthread \<or> is_migration_disabled t then cpu_online_mask k else cpu_active_mask k);
          new = mask_of t new_mask
      in if \<not> kthread \<and> \<not> new \<subseteq> task_cpu_possible_mask x p then (Aff_ret (Some EINVAL), k)
         else if flag_set flags (SCA_CHECK e) \<and> flag_set (t_flags t) PF_NO_SETAFFINITY then (Aff_ret (Some EINVAL), k)
         else if \<not> flag_set flags (SCA_MIGRATE_ENABLE e) \<and> t_cpus_mask t = new then (Aff_ret None, k)
         else if \<not> flag_set flags (SCA_MIGRATE_ENABLE e) \<and> p = current k \<and> is_migration_disabled t \<and> t_cpu t \<notin> new
         then (Aff_ret (Some EBUSY), k)
         else case cpumask_any_and_distribute x cpu_valid_mask new of
             None \<Rightarrow> (Aff_ret (Some EINVAL), k)
           | Some dest_cpu \<Rightarrow>
               let k = k__do_set_cpus_allowed e x p new_mask flags k;
                   k = (if flag_set flags (SCA_USER e) then upd_task p (\<lambda>t. t\<lparr>t_user_cpus_ptr := None\<rparr>) k else k)
               in affine_move_task e x c p dest_cpu flags my_pending k)"

definition k__set_cpus_allowed_ptr ::
  "kenv \<Rightarrow> kops \<Rightarrow> tid \<Rightarrow> cpus_ptr \<Rightarrow> u32 \<Rightarrow> nat \<Rightarrow> kernel \<Rightarrow> errno option \<times> kernel" where
  "k__set_cpus_allowed_ptr e x p new_mask flags my_pending k =
     (case k__set_cpus_allowed_ptr_locked e x p new_mask flags my_pending k of
        (Aff_ret r, k) \<Rightarrow> (r, k)
      | (Aff_wait i, k) \<Rightarrow> (None, affine_wait x i k))"

definition set_cpus_allowed_ptr ::
  "kenv \<Rightarrow> kops \<Rightarrow> tid \<Rightarrow> cpus_ptr \<Rightarrow> nat \<Rightarrow> kernel \<Rightarrow> errno option \<times> kernel" where
  "set_cpus_allowed_ptr e x p new_mask my_pending k = k__set_cpus_allowed_ptr e x p new_mask 0 my_pending k"

definition migrate_enable :: "kenv \<Rightarrow> kops \<Rightarrow> nat \<Rightarrow> kernel \<Rightarrow> kernel" where
  "migrate_enable e x my_pending k =
     (let p = current k; c = this_cpu k
      in if t_migration_disabled (tasks k p) > 1
         then upd_task p (\<lambda>t. t\<lparr>t_migration_disabled := t_migration_disabled t - 1\<rparr>) k
         else if t_migration_disabled (tasks k p) = 0 then k
         else
           let k = (if t_cpus_ptr (tasks k p) \<noteq> Own_cpus_mask
                    then snd (k__set_cpus_allowed_ptr e x p Own_cpus_mask (SCA_MIGRATE_ENABLE e) my_pending k) else k);
               k = upd_task p (\<lambda>t. t\<lparr>t_migration_disabled := 0\<rparr>) k
           in upd_rq c (\<lambda>rq. rq\<lparr>rq_nr_pinned := rq_nr_pinned rq - 1\<rparr>) k)"

subsection \<open>Masks asked for by the user\<close>

text \<open>\<open>alloc_ok\<close> is whether the allocation of a mask succeeds.\<close>

definition dup_user_cpus_ptr :: "bool \<Rightarrow> tid \<Rightarrow> tid \<Rightarrow> kernel \<Rightarrow> errno option \<times> kernel" where
  "dup_user_cpus_ptr alloc_ok dst src k =
     (case t_user_cpus_ptr (tasks k src) of
        None \<Rightarrow> (None, k)
      | Some m \<Rightarrow>
          if \<not> alloc_ok then (Some ENOMEM, upd_task dst (\<lambda>t. t\<lparr>t_user_cpus_ptr := None\<rparr>) k)
          else (None, upd_task dst (\<lambda>t. t\<lparr>t_user_cpus_ptr := Some m\<rparr>) k))"

definition release_user_cpus_ptr :: "tid \<Rightarrow> kernel \<Rightarrow> kernel" where
  "release_user_cpus_ptr p = upd_task p (\<lambda>t. t\<lparr>t_user_cpus_ptr := None\<rparr>)"

definition restrict_cpus_allowed_ptr ::
  "kenv \<Rightarrow> kops \<Rightarrow> sysops \<Rightarrow> bool \<Rightarrow> tid \<Rightarrow> cpu set \<Rightarrow> nat \<Rightarrow> kernel \<Rightarrow> errno option \<times> kernel" where
  "restrict_cpus_allowed_ptr e x d alloc_ok p subset_mask my_pending k =
     (let t = tasks k p; new_mask = t_cpus_mask t \<inter> subset_mask
      in if t_user_cpus_ptr t = None \<and> \<not> alloc_ok then (Some ENOMEM, k)
         else if dl_policy e (t_policy t) \<and> dl_bandwidth_enabled d then (Some EPERM, k)
         else if new_mask = {} then (Some EINVAL, k)
         else
           let k = (if t_user_cpus_ptr t = None then upd_task p (\<lambda>t. t\<lparr>t_user_cpus_ptr := Some (task_cpus_ptr t)\<rparr>) k else k)
           in k__set_cpus_allowed_ptr e x p (Cpumask_at new_mask) 0 my_pending k)"

definition force_compatible_cpus_allowed_ptr ::
  "kenv \<Rightarrow> kops \<Rightarrow> sysops \<Rightarrow> bool \<Rightarrow> bool \<Rightarrow> tid \<Rightarrow> nat \<Rightarrow> kernel \<Rightarrow> kernel" where
  "force_compatible_cpus_allowed_ptr e x d alloc_ok mask_ok p my_pending k =
     (let override_mask = task_cpu_possible_mask x p
      in if \<not> mask_ok then snd (set_cpus_allowed_ptr e x p (Cpumask_at override_mask) my_pending k)
         else case restrict_cpus_allowed_ptr e x d alloc_ok p override_mask my_pending k of
             (None, k) \<Rightarrow> k
           | (Some _, k) \<Rightarrow> snd (set_cpus_allowed_ptr e x p (Cpumask_at (cpuset_cpus_allowed x p k)) my_pending k))"

subsection \<open>System calls\<close>

definition dl_task_check_affinity :: "kenv \<Rightarrow> sysops \<Rightarrow> kernel \<Rightarrow> tid \<Rightarrow> cpu set \<Rightarrow> errno option" where
  "dl_task_check_affinity e d k p m =
     (if \<not> dl_policy e (t_policy (tasks k p)) \<or> \<not> dl_bandwidth_enabled d then None
      else if \<not> rd_span d (task_rq k p) \<subseteq> m then Some EBUSY else None)"

text \<open>The loop at the label \<^verbatim>\<open>again\<close>, which is taken while a concurrent update of the cpuset shrinks it.\<close>

partial_function (option) setaffinity_again ::
  "kenv \<Rightarrow> kops \<Rightarrow> tid \<Rightarrow> cpu set \<Rightarrow> nat \<Rightarrow> kernel \<Rightarrow> (errno option \<times> kernel) option" where
  "setaffinity_again e x p new_mask my_pending k =
     (case k__set_cpus_allowed_ptr e x p (Cpumask_at new_mask) (SCA_CHECK e OR SCA_USER e) my_pending k of
        (Some err, k) \<Rightarrow> Some (Some err, k)
      | (None, k) \<Rightarrow>
          if \<not> new_mask \<subseteq> cpuset_cpus_allowed x p k
          then setaffinity_again e x p (cpuset_cpus_allowed x p k) my_pending k
          else Some (None, k))"

definition k__sched_setaffinity ::
  "kenv \<Rightarrow> kops \<Rightarrow> sysops \<Rightarrow> bool \<Rightarrow> tid \<Rightarrow> cpu set \<Rightarrow> nat \<Rightarrow> kernel \<Rightarrow> (errno option \<times> kernel) option" where
  "k__sched_setaffinity e x d alloc_ok p m my_pending k =
     (let new_mask = m \<inter> cpuset_cpus_allowed x p k
      in if \<not> alloc_ok then Some (Some ENOMEM, k)
         else case dl_task_check_affinity e d k p new_mask of
             Some err \<Rightarrow> Some (Some err, k)
           | None \<Rightarrow> setaffinity_again e x p new_mask my_pending k)"

definition relax_compatible_cpus_allowed_ptr ::
  "kenv \<Rightarrow> kops \<Rightarrow> sysops \<Rightarrow> bool \<Rightarrow> tid \<Rightarrow> nat \<Rightarrow> kernel \<Rightarrow> kernel option" where
  "relax_compatible_cpus_allowed_ptr e x d alloc_ok p my_pending k =
     (case t_user_cpus_ptr (tasks k p) of
        None \<Rightarrow> Some k
      | Some user_mask \<Rightarrow>
          (case k__sched_setaffinity e x d alloc_ok p user_mask my_pending k of
             None \<Rightarrow> None
           | Some (None, k) \<Rightarrow> Some k
           | Some (Some _, k) \<Rightarrow> Some (release_user_cpus_ptr p k)))"

definition sched_setaffinity ::
  "kenv \<Rightarrow> kops \<Rightarrow> secops \<Rightarrow> sysops \<Rightarrow> bool \<Rightarrow> int \<Rightarrow> cpu set \<Rightarrow> nat \<Rightarrow> kernel \<Rightarrow> (errno option \<times> kernel) option" where
  "sched_setaffinity e x s d alloc_ok pid in_mask my_pending k =
     (case find_process_by_pid d k (nat pid) of
        None \<Rightarrow> Some (Some ESRCH, k)
      | Some p \<Rightarrow>
          if flag_set (t_flags (tasks k p)) PF_NO_SETAFFINITY then Some (Some EINVAL, k)
          else if \<not> check_same_owner s k p \<and> \<not> capable_nice s then Some (Some EPERM, k)
          else case security_task_setscheduler s p of
              Some err \<Rightarrow> Some (Some err, k)
            | None \<Rightarrow> k__sched_setaffinity e x d alloc_ok p in_mask my_pending k)"

text \<open>
  A user mask is the set of its bits, \<open>None\<close> when the copy faults; \<open>len\<close> is its length in bytes and \<open>csize\<close> is
  \<^verbatim>\<open>cpumask_size()\<close>.
\<close>

definition get_user_cpu_mask :: "nat \<Rightarrow> cpu set option \<Rightarrow> nat \<Rightarrow> cpu set result" where
  "get_user_cpu_mask csize user_mask len =
     (let len = (if len > csize then csize else len)
      in case user_mask of None \<Rightarrow> Inl EFAULT | Some m \<Rightarrow> Inr {c \<in> m. c < len * 8})"

definition sys_sched_setaffinity ::
  "kenv \<Rightarrow> kops \<Rightarrow> secops \<Rightarrow> sysops \<Rightarrow> nat \<Rightarrow> bool \<Rightarrow> int \<Rightarrow> nat \<Rightarrow> cpu set option \<Rightarrow> nat \<Rightarrow> kernel \<Rightarrow> (errno option \<times> kernel) option" where
  "sys_sched_setaffinity e x s d csize alloc_ok pid len user_mask my_pending k =
     (if \<not> alloc_ok then Some (Some ENOMEM, k)
      else case get_user_cpu_mask csize user_mask len of
          Inl err \<Rightarrow> Some (Some err, k)
        | Inr new_mask \<Rightarrow> sched_setaffinity e x s d alloc_ok pid new_mask my_pending k)"

definition sched_getaffinity :: "secops \<Rightarrow> sysops \<Rightarrow> int \<Rightarrow> kernel \<Rightarrow> cpu set result" where
  "sched_getaffinity s d pid k =
     (case find_process_by_pid d k (nat pid) of
        None \<Rightarrow> Inl ESRCH
      | Some p \<Rightarrow>
          (case security_task_getscheduler s p of
             Some err \<Rightarrow> Inl err
           | None \<Rightarrow> Inr (t_cpus_mask (tasks k p) \<inter> cpu_active_mask k)))"

text \<open>The result is the number of bytes copied and the bits in them.\<close>

definition sys_sched_getaffinity ::
  "secops \<Rightarrow> sysops \<Rightarrow> nat \<Rightarrow> nat \<Rightarrow> bool \<Rightarrow> int \<Rightarrow> nat \<Rightarrow> bool \<Rightarrow> kernel \<Rightarrow> (nat \<times> cpu set) result" where
  "sys_sched_getaffinity s d csize nr_cpu_ids alloc_ok pid len copy_ok k =
     (if len * 8 < nr_cpu_ids then Inl EINVAL
      else if len mod 8 \<noteq> 0 then Inl EINVAL
      else if \<not> alloc_ok then Inl ENOMEM
      else case sched_getaffinity s d pid k of
          Inl err \<Rightarrow> Inl err
        | Inr m \<Rightarrow>
            let retlen = min len csize
            in if \<not> copy_ok then Inl EFAULT else Inr (retlen, {c \<in> m. c < retlen * 8}))"

subsection \<open>Frames\<close>

text \<open>
  What the development assumes: every class does what \<^verbatim>\<open>set_cpus_allowed_common\<close> does, as its comment demands,
  and keeps to the frame of the callbacks otherwise; \<^verbatim>\<open>cpumask_any_and_distribute\<close> returns a CPU of both masks;
  flushing remote function calls does not touch pending requests.
\<close>

definition proto :: "kernel \<Rightarrow> (tid \<Rightarrow> nat option) \<times> (nat \<Rightarrow> affinity_pending) \<times> (cpu \<times> stop_work) list" where
  "proto k = ((\<lambda>p. t_migration_pending (tasks k p)), pendings k, stop_works k)"

definition aff_law :: "kenv \<Rightarrow> kops \<Rightarrow> bool" where
  "aff_law e x \<longleftrightarrow>
     (\<forall>s p m f k. sched_frame (set_cpus_allowed_common e p m f k) (op_set_cpus_allowed x s p m f k)) \<and>
     (\<forall>s f p c k. op_migrate_task_rq x s = Some f \<longrightarrow> sched_frame k (f p c k)) \<and>
     (\<forall>A B c. cpumask_any_and_distribute x A B = Some c \<longrightarrow> c \<in> A \<inter> B) \<and>
     (\<forall>k. proto (flush_smp_call_function_from_idle x k) = proto k)"

lemma proto_params:
  assumes "params_same k k'"
  shows "proto k' = proto k"
proof -
  have "task_params (tasks k' p) = task_params (tasks k p)" for p using assms by (simp add: params_same_def)
  then have "t_migration_pending (tasks k' p) = t_migration_pending (tasks k p)" for p by (rule task_params_sel2)
  then show ?thesis using assms by (simp add: proto_def params_same_def kfix_def)
qed

lemma params_same_upd_task:
  assumes "params_same k k'" and "\<And>t. task_params (f t) = f (task_params t)"
  shows "params_same (upd_task p f k) (upd_task p f k')"
  using assms by (simp add: params_same_def kfix_def upd_task_def)

lemma sched_frame_check_preempt:
  assumes "kops_frame x"
  shows "sched_frame k (check_preempt_curr e x c p f k)"
proof -
  let ?k1 = "if t_sched_class (tasks k p) = t_sched_class (tasks k (rq_curr (rqs k c)))
      then op_check_preempt_curr x (t_sched_class (tasks k (rq_curr (rqs k c)))) c p f k
      else if t_sched_class (tasks k p) > t_sched_class (tasks k (rq_curr (rqs k c))) then resched_curr c k else k"
  have k1: "sched_frame k ?k1" using assms by (simp add: kops_frame_def)
  have "sched_frame ?k1 (upd_rq c (\<lambda>rq. rq\<lparr>rq_clock_update_flags := rq_clock_update_flags rq OR RQCF_REQ_SKIP e\<rparr>) ?k1)"
    by (rule sched_frame_upd_rq) (simp add: rq_core_state_def)
  from sched_frame_trans [OF k1 this] k1 show ?thesis unfolding check_preempt_curr_def Let_def by (simp only: if_split) blast
qed

lemma set_task_cpu_params:
  assumes "aff_law e x"
  shows "params_same (upd_task p (\<lambda>t. t\<lparr>t_cpu := c, t_wake_cpu := c\<rparr>) k) (set_task_cpu x p c k)"
proof -
  let ?k1 = "case op_migrate_task_rq x (t_sched_class (tasks k p)) of None \<Rightarrow> k | Some f \<Rightarrow> f p c k"
  let ?k2 = "upd_task p (\<lambda>t. t\<lparr>t_se := (t_se t)\<lparr>se_nr_migrations := se_nr_migrations (t_se t) + 1\<rparr>\<rparr>) ?k1"
  have "sched_frame k ?k1" using assms by (simp add: aff_law_def split: option.split)
  moreover have "sched_frame ?k1 ?k2" by (rule sched_frame_upd_task) (simp add: task_core_def)
  ultimately have k2: "params_same k ?k2" by (rule sched_frame_params [OF sched_frame_trans])
  have up: "params_same (upd_task p (\<lambda>t. t\<lparr>t_cpu := c, t_wake_cpu := c\<rparr>) k)
      (upd_task p (\<lambda>t. t\<lparr>t_cpu := c, t_wake_cpu := c\<rparr>) k')" if "params_same k k'" for k'
    by (rule params_same_upd_task [OF that]) (simp add: task_params_def task_core_def)
  show ?thesis using up [OF k2] up [of k] by (simp add: set_task_cpu_def Let_def)
qed

lemma move_queued_task_params:
  assumes "kops_frame x" and "aff_law e x"
  shows "params_same (upd_task p (\<lambda>t. t\<lparr>t_cpu := d, t_wake_cpu := d, t_on_rq := TASK_ON_RQ_QUEUED\<rparr>) k)
    (move_queued_task e x c p d k)"
proof -
  let ?r = "if flag_set (DEQUEUE_NOCLOCK e) (DEQUEUE_SLEEP e) then NOT_ON_RQ else TASK_ON_RQ_MIGRATING"
  let ?k0 = "upd_task p (\<lambda>t. t\<lparr>t_on_rq := ?r\<rparr>) k"
  let ?k1 = "deactivate_task e x c p (DEQUEUE_NOCLOCK e) k"
  let ?k2 = "set_task_cpu x p d ?k1"
  let ?k3 = "enqueue_task e x d p 0 ?k2"
  let ?cpu = "\<lambda>t. t\<lparr>t_cpu := d, t_wake_cpu := d\<rparr>" and ?q = "\<lambda>t. t\<lparr>t_on_rq := TASK_ON_RQ_QUEUED\<rparr>"
  have k1: "params_same ?k0 ?k1" unfolding deactivate_task_def by (rule params_same_dequeue [OF assms(1)])
  have "params_same (upd_task p ?cpu ?k0) (upd_task p ?cpu ?k1)"
    by (rule params_same_upd_task [OF k1]) (simp add: task_params_def task_core_def)
  note k2 = params_same_trans [OF this set_task_cpu_params [OF assms(2)]]
  note k3 = params_same_trans [OF k2 params_same_enqueue [OF assms(1)]]
  have "params_same (upd_task p ?q (upd_task p ?cpu ?k0)) (activate_task e x d p 0 ?k2)"
    unfolding activate_task_def by (rule params_same_upd_task [OF k3]) (simp add: task_params_def task_core_def)
  moreover have "upd_task p ?q (upd_task p ?cpu ?k0) = upd_task p (\<lambda>t. t\<lparr>t_cpu := d, t_wake_cpu := d, t_on_rq := TASK_ON_RQ_QUEUED\<rparr>) k"
    by (simp add: upd_task_def)
  ultimately show ?thesis
    unfolding move_queued_task_def Let_def
    using params_same_trans [OF _ sched_frame_params [OF sched_frame_check_preempt [OF assms(1)]]] by simp
qed

lemma do_set_cpus_allowed_params:
  assumes "kops_frame x" and "aff_law e x"
  shows "params_same (set_cpus_allowed_common e p m f k) (k__do_set_cpus_allowed e x p m f k)"
proof -
  let ?c = "task_rq k p" and ?q = "task_on_rq_queued (tasks k p)" and ?r = "rq_curr (rqs k (task_rq k p)) = p"
  let ?k1 = "take_off e x ?c p (DEQUEUE_SAVE e OR DEQUEUE_NOCLOCK e) ?q ?r k"
  let ?k2 = "op_set_cpus_allowed x (t_sched_class (tasks ?k1 p)) p m f ?k1"
  have "params_same (set_cpus_allowed_common e p m f k) (set_cpus_allowed_common e p m f ?k1)"
    unfolding set_cpus_allowed_common_def
    by (rule params_same_upd_task [OF params_same_take_off [OF assms(1)]])
      (simp add: task_params_def task_core_def mask_of_def split: cpus_ptr.split)
  moreover have "params_same (set_cpus_allowed_common e p m f ?k1) ?k2"
    using assms(2) by (intro sched_frame_params) (simp add: aff_law_def)
  ultimately have "params_same (set_cpus_allowed_common e p m f k) ?k2" by (rule params_same_trans)
  then show ?thesis
    unfolding k__do_set_cpus_allowed_def Let_def using params_same_trans [OF _ params_same_put_back [OF assms(1)]] by blast
qed

lemma upd_pending_simps [simp]:
  "tasks (upd_pending i f k) = tasks k" "rqs (upd_pending i f k) = rqs k" "stop_works (upd_pending i f k) = stop_works k"
  "pendings (upd_pending i f k) j = (if j = i then f (pendings k i) else pendings k j)"
  "tasks (stop_one_cpu_nowait c w k) = tasks k" "rqs (stop_one_cpu_nowait c w k) = rqs k"
  "pendings (stop_one_cpu_nowait c w k) = pendings k" "stop_works (stop_one_cpu_nowait c w k) = stop_works k @ [(c, w)]"
  "pendings (upd_task p g k) = pendings k" "stop_works (upd_task p g k) = stop_works k"
  "pendings (upd_rq c h k) = pendings k" "stop_works (upd_rq c h k) = stop_works k"
  by (simp_all add: upd_pending_def stop_one_cpu_nowait_def upd_task_def upd_rq_def)

lemma move_queued_task_sel:
  assumes "kops_frame x" and "aff_law e x"
  shows "t_cpu (tasks (move_queued_task e x c p d k) p) = d"
    "t_cpus_mask (tasks (move_queued_task e x c p d k) q) = t_cpus_mask (tasks k q)"
    "t_migration_pending (tasks (move_queued_task e x c p d k) q) = t_migration_pending (tasks k q)"
    "pendings (move_queued_task e x c p d k) = pendings k" "stop_works (move_queued_task e x c p d k) = stop_works k"
proof -
  let ?k1 = "upd_task p (\<lambda>t. t\<lparr>t_cpu := d, t_wake_cpu := d, t_on_rq := TASK_ON_RQ_QUEUED\<rparr>) k"
  have ps: "params_same ?k1 (move_queued_task e x c p d k)" by (rule move_queued_task_params [OF assms])
  then have eq: "task_params (tasks (move_queued_task e x c p d k) q) = task_params (tasks ?k1 q)" for q
    by (simp add: params_same_def)
  show "t_cpu (tasks (move_queued_task e x c p d k) p) = d" using task_params_sel(9) [OF eq] by simp
  show "t_cpus_mask (tasks (move_queued_task e x c p d k) q) = t_cpus_mask (tasks k q)"
    "t_migration_pending (tasks (move_queued_task e x c p d k) q) = t_migration_pending (tasks k q)"
    using task_params_sel2(1,4) [OF eq] by simp_all
  show "pendings (move_queued_task e x c p d k) = pendings k" "stop_works (move_queued_task e x c p d k) = stop_works k"
    using ps by (simp_all add: params_same_def kfix_def)
qed

lemma affine_move_task_effect:
  fixes e x c p dest flags my k
  defines "r \<equiv> fst (affine_move_task e x c p dest flags my k)" and "k' \<equiv> snd (affine_move_task e x c p dest flags my k)"
  assumes "kops_frame x" and "aff_law e x" and "\<not> flag_set flags (SCA_MIGRATE_ENABLE e)"
  shows "t_cpus_mask (tasks k' p) = t_cpus_mask (tasks k p)"
    and "case r of Aff_ret None \<Rightarrow> t_cpu (tasks k' p) \<in> t_cpus_mask (tasks k p) | Aff_ret (Some _) \<Rightarrow> False
      | Aff_wait i \<Rightarrow> t_migration_pending (tasks k' p) = Some i \<and> ap_dest_cpu (pendings k' i) = dest \<or>
          t_migration_pending (tasks k' p) = None \<and> ap_done (pendings k' i) \<and>
          (task_on_rq_queued (tasks k p) \<longrightarrow> t_cpu (tasks k' p) = dest)"
proof -
  let ?k1 = "affine_install p dest my k"
  have inst: "t_cpus_mask (tasks ?k1 p) = t_cpus_mask (tasks k p)" "task_on_rq_queued (tasks ?k1 p) = task_on_rq_queued (tasks k p)"
    "\<exists>i. t_migration_pending (tasks ?k1 p) = Some i \<and> ap_dest_cpu (pendings ?k1 i) = dest"
    by (auto simp: affine_install_def task_on_rq_queued_def split: option.split)
  then obtain i where i: "t_migration_pending (tasks ?k1 p) = Some i" "ap_dest_cpu (pendings ?k1 i) = dest" by blast
  note mv = move_queued_task_sel [OF assms(3,4)]
  have "t_cpus_mask (tasks k' p) = t_cpus_mask (tasks k p) \<and>
    (case r of Aff_ret None \<Rightarrow> t_cpu (tasks k' p) \<in> t_cpus_mask (tasks k p) | Aff_ret (Some _) \<Rightarrow> False
      | Aff_wait i \<Rightarrow> t_migration_pending (tasks k' p) = Some i \<and> ap_dest_cpu (pendings k' i) = dest \<or>
          t_migration_pending (tasks k' p) = None \<and> ap_done (pendings k' i) \<and>
          (task_on_rq_queued (tasks k p) \<longrightarrow> t_cpu (tasks k' p) = dest))"
  proof (cases "t_cpu (tasks k p) \<in> t_cpus_mask (tasks k p)")
    case True
    then show ?thesis
      by (auto simp: r_def k'_def affine_move_task_def affine_stay_def clear_pending_def complete_all_def Let_def split: option.split)
  next
    case False
    then have eq: "affine_move_task e x c p dest flags my k =
        (if t_on_cpu (tasks ?k1 p) \<or> t_state (tasks ?k1 p) = TASK_WAKING
         then (Aff_wait i, let sp = ap_stop_pending (pendings ?k1 i);
             k = (if \<not> sp then upd_pending i (\<lambda>a. a\<lparr>ap_stop_pending := True\<rparr>) ?k1 else ?k1)
           in if \<not> sp then stop_one_cpu_nowait c (Pending_work i) k else k)
         else if is_migration_disabled (tasks ?k1 p) then (Aff_wait i, ?k1)
         else let k = (if task_on_rq_queued (tasks ?k1 p) then move_queued_task e x c p dest ?k1 else ?k1)
           in if ap_stop_pending (pendings k i) then (Aff_wait i, k) else (Aff_wait i, complete_all i (clear_pending p k)))"
      unfolding affine_move_task_def Let_def using assms(5) i(1) by simp
    show ?thesis
      unfolding r_def k'_def eq using i inst by (auto simp: Let_def mv clear_pending_def complete_all_def)
  qed
  then show "t_cpus_mask (tasks k' p) = t_cpus_mask (tasks k p)"
    and "case r of Aff_ret None \<Rightarrow> t_cpu (tasks k' p) \<in> t_cpus_mask (tasks k p) | Aff_ret (Some _) \<Rightarrow> False
      | Aff_wait i \<Rightarrow> t_migration_pending (tasks k' p) = Some i \<and> ap_dest_cpu (pendings k' i) = dest \<or>
          t_migration_pending (tasks k' p) = None \<and> ap_done (pendings k' i) \<and>
          (task_on_rq_queued (tasks k p) \<longrightarrow> t_cpu (tasks k' p) = dest)" by blast+
qed

lemma set_cpus_allowed_ptr_effect_aux:
  fixes e x p m flags my k
  defines "r \<equiv> fst (k__set_cpus_allowed_ptr_locked e x p m flags my k)"
    and "k' \<equiv> snd (k__set_cpus_allowed_ptr_locked e x p m flags my k)" and "new \<equiv> mask_of (tasks k p) m"
  assumes "kops_frame x" and "aff_law e x"
    and "\<not> flag_set flags (SCA_MIGRATE_ENABLE e)" and "\<not> flag_set flags (SCA_MIGRATE_DISABLE e)"
  shows "case r of
      Aff_ret (Some _) \<Rightarrow> params_same k k'
    | Aff_ret None \<Rightarrow> t_cpus_mask (tasks k' p) = new \<and> (t_cpu (tasks k' p) \<in> new \<or> new = t_cpus_mask (tasks k p))
    | Aff_wait i \<Rightarrow> t_cpus_mask (tasks k' p) = new \<and>
        (t_migration_pending (tasks k' p) = Some i \<and> ap_dest_cpu (pendings k' i) \<in> new \<or>
         t_migration_pending (tasks k' p) = None \<and> ap_done (pendings k' i) \<and>
         (task_on_rq_queued (tasks k p) \<longrightarrow> t_cpu (tasks k' p) \<in> new))"
proof -
  let ?c = "task_rq k p"
  define k1 where "k1 = update_rq_clock e x ?c k"
  have ps1: "params_same k k1" unfolding k1_def by (simp add: sched_frame_params)
  then have t1: "task_params (tasks k1 p) = task_params (tasks k p)" by (simp add: params_same_def)
  note sel = task_params_sel [OF t1] and sel2 = task_params_sel2 [OF t1]
  have new: "mask_of (tasks k1 p) m = new" by (simp add: new_def mask_of_def sel2 split: cpus_ptr.split)
  define valid where "valid = (if flag_set (t_flags (tasks k1 p)) PF_KTHREAD \<or> is_migration_disabled (tasks k1 p) then cpu_online_mask k1 else cpu_active_mask k1)"
  define k3 where "k3 = (if flag_set flags (SCA_USER e)
      then upd_task p (\<lambda>t. t\<lparr>t_user_cpus_ptr := None\<rparr>) (k__do_set_cpus_allowed e x p m flags k1)
      else k__do_set_cpus_allowed e x p m flags k1)"
  have "k__set_cpus_allowed_ptr_locked e x p m flags my k = (r, k')" by (simp add: r_def k'_def)
  note eq = this [unfolded k__set_cpus_allowed_ptr_locked_def Let_def, folded k1_def, unfolded new, folded k3_def valid_def]
  have "(\<exists>err. r = Aff_ret (Some err) \<and> k' = k1) \<or> r = Aff_ret None \<and> k' = k1 \<and> t_cpus_mask (tasks k1 p) = new \<or>
    (\<exists>dest. cpumask_any_and_distribute x valid new = Some dest \<and> affine_move_task e x ?c p dest flags my k3 = (r, k'))"
    using eq by (auto split: if_split_asm option.splits)
  then consider (err) err where "r = Aff_ret (Some err)" "k' = k1"
    | (same) "r = Aff_ret None" "k' = k1" "t_cpus_mask (tasks k1 p) = new"
    | (move) dest where "cpumask_any_and_distribute x valid new = Some dest" "affine_move_task e x ?c p dest flags my k3 = (r, k')"
    by blast
  then show ?thesis
  proof cases
    case err
    then show ?thesis using ps1 by simp
  next
    case same
    then show ?thesis by (simp add: sel2)
  next
    case move
    let ?k2 = "k__do_set_cpus_allowed e x p m flags k1"
    have "params_same (set_cpus_allowed_common e p m flags k1) ?k2" by (rule do_set_cpus_allowed_params [OF assms(4,5)])
    then have t2: "task_params (tasks ?k2 p) = task_params (tasks (set_cpus_allowed_common e p m flags k1) p)"
      by (simp add: params_same_def)
    have com: "t_cpus_mask (tasks (set_cpus_allowed_common e p m flags k1) p) = new"
      "t_on_rq (tasks (set_cpus_allowed_common e p m flags k1) p) = t_on_rq (tasks k1 p)"
      using assms(6,7) by (simp_all add: set_cpus_allowed_common_def flag_set_or new)
    have k3: "t_cpus_mask (tasks k3 p) = new" "task_on_rq_queued (tasks k3 p) = task_on_rq_queued (tasks k p)"
      using task_params_sel2(1) [OF t2] task_params_sel(8) [OF t2] com sel(8) by (simp_all add: task_on_rq_queued_def k3_def)
    have "dest \<in> valid \<inter> new"
      using assms(5) move(1) unfolding aff_law_def by blast
    then have dest: "dest \<in> new" by simp
    note eff = affine_move_task_effect [OF assms(4,5,6), of ?c p dest my k3]
    show ?thesis using eff k3 dest by (auto simp: move(2) split: aff_result.splits option.splits)
  qed
qed

text \<open>
  C15.  Changing the mask of allowed CPUs.  An error leaves everything as it was.  Otherwise the task has the new
  mask, and either it is on a CPU of it (or the mask was the same before), or a request with a destination in
  the mask is pending for it, or the request is already complete and a queued task has been moved into the mask.
\<close>

theorem set_cpus_allowed_ptr_effect:
  fixes e x p m flags my k
  defines "r \<equiv> fst (k__set_cpus_allowed_ptr_locked e x p m flags my k)"
    and "k' \<equiv> snd (k__set_cpus_allowed_ptr_locked e x p m flags my k)" and "new \<equiv> mask_of (tasks k p) m"
  assumes "kops_frame x" and "aff_law e x"
    and "\<not> flag_set flags (SCA_MIGRATE_ENABLE e)" and "\<not> flag_set flags (SCA_MIGRATE_DISABLE e)"
  shows "case r of
      Aff_ret (Some _) \<Rightarrow> params_same k k'
    | Aff_ret None \<Rightarrow> t_cpus_mask (tasks k' p) = new \<and> (t_cpu (tasks k' p) \<in> new \<or> new = t_cpus_mask (tasks k p))
    | Aff_wait i \<Rightarrow> t_cpus_mask (tasks k' p) = new \<and>
        (t_migration_pending (tasks k' p) = Some i \<and> ap_dest_cpu (pendings k' i) \<in> new \<or>
         t_migration_pending (tasks k' p) = None \<and> ap_done (pendings k' i) \<and>
         (task_on_rq_queued (tasks k p) \<longrightarrow> t_cpu (tasks k' p) \<in> new))"
  unfolding r_def k'_def new_def by (rule set_cpus_allowed_ptr_effect_aux [OF assms(4-7)])

subsection \<open>The protocol of pending requests\<close>

type_synonym proto = "(tid \<Rightarrow> nat option) \<times> (nat \<Rightarrow> affinity_pending) \<times> (cpu \<times> stop_work) list"

text \<open>
  The contract as a machine on the request of every task, the requests and the queued works: a request is
  installed or joined, handed to the stopper at most once at a time, and completed only when the stopper is
  not about to use it.
\<close>

inductive abs_step :: "proto \<Rightarrow> proto \<Rightarrow> bool" where
  install: "mp p = None \<Longrightarrow> \<forall>q. mp q \<noteq> Some my \<Longrightarrow> \<not> ap_stop_pending (pe my) \<Longrightarrow>
    abs_step (mp, pe, ws) (mp(p := Some my), pe(my := \<lparr>ap_refs = 1, ap_stop_pending = False, ap_done = False, ap_task = p,
      ap_dest_cpu = dest\<rparr>), ws)"
| join: "abs_step (mp, pe, ws) (mp, pe(i := (pe i)\<lparr>ap_refs := n, ap_dest_cpu := dest\<rparr>), ws)"
| kick: "mp p = Some i \<Longrightarrow> \<not> ap_stop_pending (pe i) \<Longrightarrow>
    abs_step (mp, pe, ws) (mp, pe(i := (pe i)\<lparr>ap_stop_pending := True\<rparr>), ws @ [(c, Pending_work i)])"
| signal: "mp p = Some i \<Longrightarrow> \<not> ap_stop_pending (pe i) \<Longrightarrow>
    abs_step (mp, pe, ws) (mp(p := None), pe(i := (pe i)\<lparr>ap_done := True\<rparr>), ws)"
| bail: "abs_step (mp, pe, ws1 @ (c, Pending_work i) # ws2) (mp, pe(i := (pe i)\<lparr>ap_stop_pending := False\<rparr>), ws1 @ ws2)"
| finish: "abs_step (mp, pe, ws1 @ (c, Pending_work i) # ws2)
    (mp(ap_task (pe i) := None), pe(i := (pe i)\<lparr>ap_stop_pending := False, ap_done := True\<rparr>), ws1 @ ws2)"
| chase: "abs_step (mp, pe, ws1 @ (c, Pending_work i) # ws2) (mp, pe, (ws1 @ ws2) @ [(d, Pending_work i)])"
| queue: "\<forall>i. w \<noteq> Pending_work i \<Longrightarrow> abs_step (mp, pe, ws) (mp, pe, ws @ [(c, w)])"
| unqueue: "\<forall>i. w \<noteq> Pending_work i \<Longrightarrow> abs_step (mp, pe, ws1 @ (c, w) # ws2) (mp, pe, ws1 @ ws2)"

text \<open>
  A request that a task points to belongs to it and is not complete, and one that is handed to the stopper is
  still the request of its task and is queued exactly once.
\<close>

definition pend_ok :: "proto \<Rightarrow> bool" where
  "pend_ok s \<longleftrightarrow> (let (mp, pe, ws) = s
     in (\<forall>p i. mp p = Some i \<longrightarrow> ap_task (pe i) = p \<and> \<not> ap_done (pe i)) \<and>
        (\<forall>i. ap_stop_pending (pe i) \<longrightarrow> mp (ap_task (pe i)) = Some i) \<and>
        (\<forall>i. count_list (map snd ws) (Pending_work i) = (if ap_stop_pending (pe i) then 1 else 0)))"

lemma pend_ok_works:
  assumes "\<And>j. count_list (map snd ws') (Pending_work j) = count_list (map snd ws) (Pending_work j)" and "pend_ok (mp, pe, ws)"
  shows "pend_ok (mp, pe, ws')"
  using assms unfolding pend_ok_def by simp

lemma pend_ok_step: "abs_step s s' \<Longrightarrow> pend_ok s \<Longrightarrow> pend_ok s'"
proof (induction rule: abs_step.induct)
  case (install mp p my pe ws dest)
  then show ?case by (auto simp: pend_ok_def split: if_splits)
next
  case (join mp pe ws i n dest)
  then show ?case by (simp add: pend_ok_def)
next
  case (kick mp p i pe ws c)
  then show ?case by (auto simp: pend_ok_def)
next
  case (signal mp p i pe ws)
  then show ?case by (auto simp: pend_ok_def) blast
next
  case (bail mp pe ws1 c i ws2)
  then have ok: "\<forall>p j. mp p = Some j \<longrightarrow> ap_task (pe j) = p \<and> \<not> ap_done (pe j)"
    "\<forall>j. ap_stop_pending (pe j) \<longrightarrow> mp (ap_task (pe j)) = Some j"
    "count_list (map snd (ws1 @ (c, Pending_work i) # ws2)) (Pending_work j) = (if ap_stop_pending (pe j) then 1 else 0)" for j
    unfolding pend_ok_def Let_def prod.case by blast+
  have cnt: "count_list (map snd (ws1 @ ws2)) (Pending_work j) = (if j \<noteq> i \<and> ap_stop_pending (pe j) then 1 else 0)" for j
    using ok(3) [of j] by (auto split: if_splits)
  have i: "ap_stop_pending (pe i)" using ok(3) [of i] by (simp split: if_splits)
  show ?case unfolding pend_ok_def Let_def prod.case cnt using ok(1,2) i by auto
next
  case (finish mp pe ws1 c i ws2)
  then have ok: "\<forall>p j. mp p = Some j \<longrightarrow> ap_task (pe j) = p \<and> \<not> ap_done (pe j)"
    "\<forall>j. ap_stop_pending (pe j) \<longrightarrow> mp (ap_task (pe j)) = Some j"
    "count_list (map snd (ws1 @ (c, Pending_work i) # ws2)) (Pending_work j) = (if ap_stop_pending (pe j) then 1 else 0)" for j
    unfolding pend_ok_def Let_def prod.case by blast+
  have cnt: "count_list (map snd (ws1 @ ws2)) (Pending_work j) = (if j \<noteq> i \<and> ap_stop_pending (pe j) then 1 else 0)" for j
    using ok(3) [of j] by (auto split: if_splits)
  have i: "ap_stop_pending (pe i)" using ok(3) [of i] by (simp split: if_splits)
  have mi: "mp (ap_task (pe i)) = Some i" using ok(2) i by blast
  have a: "j \<noteq> i \<and> ap_task (pe j) = p \<and> \<not> ap_done (pe j)" if "(mp(ap_task (pe i) := None)) p = Some j" for p j
  proof -
    have "p \<noteq> ap_task (pe i)" "mp p = Some j" using that by (simp_all split: if_splits)
    with ok(1) [rule_format, of p j] show ?thesis by metis
  qed
  have b: "ap_task (pe j) \<noteq> ap_task (pe i) \<and> mp (ap_task (pe j)) = Some j" if "j \<noteq> i" "ap_stop_pending (pe j)" for j
  proof -
    have "mp (ap_task (pe j)) = Some j" using that ok(2) by blast
    moreover from this have "ap_task (pe j) \<noteq> ap_task (pe i)" using mi that(1) by (metis option.inject)
    ultimately show ?thesis by simp
  qed
  have "\<forall>p j. (mp(ap_task (pe i) := None)) p = Some j \<longrightarrow>
      ap_task ((pe(i := (pe i)\<lparr>ap_stop_pending := False, ap_done := True\<rparr>)) j) = p \<and>
      \<not> ap_done ((pe(i := (pe i)\<lparr>ap_stop_pending := False, ap_done := True\<rparr>)) j)"
  proof (intro allI impI)
    fix p j
    assume "(mp(ap_task (pe i) := None)) p = Some j"
    from a [OF this] show "ap_task ((pe(i := (pe i)\<lparr>ap_stop_pending := False, ap_done := True\<rparr>)) j) = p \<and>
      \<not> ap_done ((pe(i := (pe i)\<lparr>ap_stop_pending := False, ap_done := True\<rparr>)) j)" by simp
  qed
  moreover have "\<forall>j. ap_stop_pending ((pe(i := (pe i)\<lparr>ap_stop_pending := False, ap_done := True\<rparr>)) j) \<longrightarrow>
      (mp(ap_task (pe i) := None)) (ap_task ((pe(i := (pe i)\<lparr>ap_stop_pending := False, ap_done := True\<rparr>)) j)) = Some j"
    using b by auto
  ultimately show ?case unfolding pend_ok_def Let_def prod.case cnt by simp
next
  case (chase mp pe ws1 c i ws2 d)
  show ?case by (rule pend_ok_works [OF _ chase]) simp
next
  case (queue w mp pe ws c)
  show ?case by (rule pend_ok_works [OF _ queue(2)]) (use queue(1) in auto)
next
  case (unqueue w mp pe ws1 c ws2)
  show ?case by (rule pend_ok_works [OF _ unqueue(2)]) (use unqueue(1) in auto)
qed

text \<open>
  The steps of the kernel: a caller changes the mask of a task (also \<^verbatim>\<open>migrate_enable\<close>, with its flag), the stopper
  of a CPU runs one of its works, a caller whose request is complete drops its reference, and anything else
  happens that leaves the requests alone.
\<close>

definition run_stop_work :: "kenv \<Rightarrow> kops \<Rightarrow> cpu \<Rightarrow> stop_work \<Rightarrow> kernel \<Rightarrow> kernel" where
  "run_stop_work e x c w k =
     (case w of
        Pending_work i \<Rightarrow> migration_cpu_stop e x c (ap_task (pendings k i)) (ap_dest_cpu (pendings k i)) (Some i) k
      | Migration_work p dest_cpu \<Rightarrow> migration_cpu_stop e x c p dest_cpu None k
      | Push_work p \<Rightarrow> push_cpu_stop e x c p k)"

inductive aff_step :: "kenv \<Rightarrow> kops \<Rightarrow> kernel \<Rightarrow> kernel \<Rightarrow> bool" for e x where
  change: "\<forall>q. t_migration_pending (tasks k q) \<noteq> Some my \<Longrightarrow> \<not> ap_stop_pending (pendings k my) \<Longrightarrow>
    aff_step e x k (snd (k__set_cpus_allowed_ptr_locked e x p m flags my k))"
| stopper: "stop_works k = ws1 @ (c, w) # ws2 \<Longrightarrow> aff_step e x k (run_stop_work e x c w (k\<lparr>stop_works := ws1 @ ws2\<rparr>))"
| resume: "ap_done (pendings k i) \<Longrightarrow> aff_step e x k (upd_pending i (\<lambda>a. a\<lparr>ap_refs := ap_refs a - 1\<rparr>) k)"
| other: "proto k' = proto k \<Longrightarrow> aff_step e x k k'"

lemma proto_simps [simp]:
  "proto (clear_pending p k) = ((\<lambda>q. t_migration_pending (tasks k q))(p := None), pendings k, stop_works k)"
  "proto (upd_pending i f k) = ((\<lambda>q. t_migration_pending (tasks k q)), (pendings k)(i := f (pendings k i)), stop_works k)"
  "proto (stop_one_cpu_nowait c w k) = ((\<lambda>q. t_migration_pending (tasks k q)), pendings k, stop_works k @ [(c, w)])"
  "proto (upd_rq c h k) = proto k"
  by (simp_all add: proto_def clear_pending_def upd_pending_def stop_one_cpu_nowait_def upd_task_def upd_rq_def fun_eq_iff)

lemma proto_upd_task:
  "(\<And>t. t_migration_pending (f t) = t_migration_pending t) \<Longrightarrow> proto (upd_task p f k) = proto k"
  by (simp add: proto_def upd_task_def fun_eq_iff)

lemma proto_move_queued_task: "kops_frame x \<Longrightarrow> aff_law e x \<Longrightarrow> proto (move_queued_task e x c p d k) = proto k"
  by (simp add: proto_def move_queued_task_sel)

lemma proto_migrate_task:
  assumes "kops_frame x" "aff_law e x"
  shows "proto (k__migrate_task e x c p d k) = proto k"
proof -
  have "proto (update_rq_clock e x c k) = proto k" by (rule proto_params) (simp add: sched_frame_params)
  then show ?thesis by (simp add: k__migrate_task_def proto_move_queued_task [OF assms])
qed

lemma proto_do_set_cpus_allowed:
  assumes "kops_frame x" "aff_law e x"
  shows "proto (k__do_set_cpus_allowed e x p m f k) = proto k"
proof -
  have "proto (k__do_set_cpus_allowed e x p m f k) = proto (set_cpus_allowed_common e p m f k)"
    by (rule proto_params [OF do_set_cpus_allowed_params [OF assms]])
  then show ?thesis by (simp add: set_cpus_allowed_common_def proto_upd_task)
qed

lemma proto_push_stop:
  assumes "kops_frame x" "aff_law e x"
  shows "proto (push_cpu_stop e x c p k) = proto k"
proof -
  have st: "proto (set_task_cpu x p d k) = proto k" for d k
    using proto_params [OF set_task_cpu_params [OF assms(2)]] by (simp add: proto_upd_task)
  have de: "proto (deactivate_task e x c p 0 k) = proto k" for k
    using proto_params [OF params_same_dequeue [OF assms(1)]] by (simp add: deactivate_task_def proto_upd_task)
  have ac: "proto (activate_task e x d p 0 k) = proto k" for d k
    using proto_params [OF params_same_enqueue [OF assms(1)]] by (simp add: activate_task_def proto_upd_task)
  have re: "proto (resched_curr d k) = proto k" for d k by (rule proto_params) (simp add: sched_frame_params)
  show ?thesis
    by (simp add: push_cpu_stop_def Let_def proto_upd_task st de ac re split: option.split)
qed

lemma abs_affine_stay: "abs_step\<^sup>*\<^sup>* (proto k) (proto (affine_stay e c p flags k))"
proof -
  let ?push = "flag_set flags (SCA_MIGRATE_ENABLE e) \<and> flag_set (t_migration_flags (tasks k p)) (MDF_PUSH e) \<and> \<not> rq_push_busy (rqs k c)"
  let ?mp = "\<lambda>q. t_migration_pending (tasks k q)"
  let ?done = "case ?mp p of None \<Rightarrow> None | Some i \<Rightarrow> if ap_stop_pending (pendings k i) then None else Some i"
  define s where "s = (case ?done of None \<Rightarrow> (?mp, pendings k)
      | Some i \<Rightarrow> (?mp(p := None), (pendings k)(i := (pendings k i)\<lparr>ap_done := True\<rparr>)))"
  define ws where "ws = (if ?push then stop_works k @ [(c, Push_work p)] else stop_works k)"
  have "proto (affine_stay e c p flags k) = (fst s, snd s, ws)"
    by (cases "?mp p"; cases ?push)
      (simp_all add: affine_stay_def Let_def s_def ws_def proto_def clear_pending_def complete_all_def upd_rq_def upd_task_def
        stop_one_cpu_nowait_def upd_pending_def fun_eq_iff)
  moreover have "abs_step\<^sup>*\<^sup>* (?mp, pendings k, stop_works k) (fst s, snd s, stop_works k)"
    using abs_step.signal [of ?mp p _ "pendings k" "stop_works k"]
    by (auto simp: s_def split: option.split)
  moreover have "abs_step\<^sup>*\<^sup>* (fst s, snd s, stop_works k) (fst s, snd s, ws)"
    using abs_step.queue [of "Push_work p" "fst s" "snd s" "stop_works k" c] by (auto simp: ws_def)
  ultimately show ?thesis by (simp add: proto_def)
qed

lemma abs_affine_move_task:
  assumes "kops_frame x" and "aff_law e x"
    and "\<forall>q. t_migration_pending (tasks k q) \<noteq> Some my" and "\<not> ap_stop_pending (pendings k my)"
  shows "abs_step\<^sup>*\<^sup>* (proto k) (proto (snd (affine_move_task e x c p dest flags my k)))"
proof (cases "t_cpu (tasks k p) \<in> t_cpus_mask (tasks k p)")
  case True
  then show ?thesis using abs_affine_stay by (simp add: affine_move_task_def)
next
  case False
  let ?en = "flag_set flags (SCA_MIGRATE_ENABLE e)"
  define k1 where "k1 = (if \<not> ?en then affine_install p dest my k else k)"
  have inst: "abs_step\<^sup>*\<^sup>* (proto k) (proto (affine_install p dest my k))"
  proof (cases "t_migration_pending (tasks k p)")
    case None
    have "proto (affine_install p dest my k) = ((\<lambda>q. t_migration_pending (tasks k q))(p := Some my), (pendings k)(my := \<lparr>ap_refs = 1,
        ap_stop_pending = False, ap_done = False, ap_task = p, ap_dest_cpu = dest\<rparr>), stop_works k)"
      using None by (simp add: affine_install_def proto_def fun_eq_iff)
    then show ?thesis
      using abs_step.install [of "\<lambda>q. t_migration_pending (tasks k q)" p my "pendings k" "stop_works k" dest] None assms(3,4)
      by (auto simp: proto_def)
  next
    case (Some i)
    have "proto (affine_install p dest my k) = ((\<lambda>q. t_migration_pending (tasks k q)),
        (pendings k)(i := (pendings k i)\<lparr>ap_refs := ap_refs (pendings k i) + 1, ap_dest_cpu := dest\<rparr>), stop_works k)"
      using Some by (simp add: affine_install_def)
    then show ?thesis
      using abs_step.join [of "\<lambda>q. t_migration_pending (tasks k q)" "pendings k" "stop_works k" i] by (auto simp: proto_def)
  qed
  then have k1: "abs_step\<^sup>*\<^sup>* (proto k) (proto k1)" by (simp add: k1_def)
  let ?clr = "\<lambda>t. t\<lparr>t_migration_flags := t_migration_flags t AND NOT (MDF_PUSH e)\<rparr>"
  let ?mv = "if task_on_rq_queued (tasks k1 p) then move_queued_task e x c p dest k1 else k1"
  have rest: "abs_step\<^sup>*\<^sup>* (proto k1) (proto (snd (affine_move_task e x c p dest flags my k)))"
  proof (cases "t_migration_pending (tasks k1 p)")
    case None
    then show ?thesis using False by (simp add: affine_move_task_def Let_def k1_def)
  next
    case (Some i)
    let ?sp = "ap_stop_pending (pendings k1 i)"
    let ?k2 = "if \<not> ?sp then upd_pending i (\<lambda>a. a\<lparr>ap_stop_pending := True\<rparr>) k1 else k1"
    let ?k3 = "if ?en then upd_task p ?clr ?k2 else ?k2"
    let ?k4 = "if \<not> ?sp then stop_one_cpu_nowait c (Pending_work i) ?k3 else ?k3"
    have "snd (affine_move_task e x c p dest flags my k) =
        (if t_on_cpu (tasks k1 p) \<or> t_state (tasks k1 p) = TASK_WAKING then ?k4
         else if is_migration_disabled (tasks k1 p) then k1
         else if ap_stop_pending (pendings ?mv i) then ?mv else complete_all i (clear_pending p ?mv))"
      unfolding affine_move_task_def Let_def k1_def [symmetric] using False Some by simp
    moreover have "abs_step\<^sup>*\<^sup>* (proto k1) (proto ?k4)"
    proof -
      let ?mp = "\<lambda>q. t_migration_pending (tasks k1 q)"
      have "proto ?k4 = (if ?sp then proto k1
          else (?mp, (pendings k1)(i := (pendings k1 i)\<lparr>ap_stop_pending := True\<rparr>), stop_works k1 @ [(c, Pending_work i)]))"
        by (cases ?sp; cases ?en) (simp_all add: proto_def upd_task_def upd_pending_def stop_one_cpu_nowait_def fun_eq_iff)
      then show ?thesis
        using abs_step.kick [of ?mp p i "pendings k1" "stop_works k1" c] Some by (auto simp: proto_def)
    qed
    moreover have mv: "proto ?mv = proto k1" by (simp add: proto_move_queued_task [OF assms(1,2)])
    then have mv': "t_migration_pending (tasks ?mv p) = Some i" "pendings ?mv = pendings k1"
      using Some by (auto simp: proto_def fun_eq_iff)
    moreover have "abs_step\<^sup>*\<^sup>* (proto k1) (proto (complete_all i (clear_pending p ?mv)))" if "\<not> ap_stop_pending (pendings ?mv i)"
    proof -
      let ?mp = "\<lambda>q. t_migration_pending (tasks k1 q)"
      have "proto (complete_all i (clear_pending p k2)) = (?mp(p := None), (pendings k1)(i := (pendings k1 i)\<lparr>ap_done := True\<rparr>), stop_works k1)"
        if "proto k2 = proto k1" for k2
        using that by (simp add: proto_def complete_all_def clear_pending_def upd_task_def upd_pending_def fun_eq_iff)
      from this [OF mv] show ?thesis
        using abs_step.signal [of ?mp p i "pendings k1" "stop_works k1"] Some that mv'(2) by (auto simp: proto_def)
    qed
    ultimately show ?thesis using mv by auto
  qed
  from rtranclp_trans [OF k1 rest] show ?thesis .
qed

lemma abs_set_cpus_allowed:
  assumes "kops_frame x" and "aff_law e x"
    and "\<forall>q. t_migration_pending (tasks k q) \<noteq> Some my" and "\<not> ap_stop_pending (pendings k my)"
  shows "abs_step\<^sup>*\<^sup>* (proto k) (proto (snd (k__set_cpus_allowed_ptr_locked e x p m flags my k)))"
proof -
  let ?c = "task_rq k p"
  define k1 where "k1 = update_rq_clock e x ?c k"
  define k3 where "k3 = (if flag_set flags (SCA_USER e)
      then upd_task p (\<lambda>t. t\<lparr>t_user_cpus_ptr := None\<rparr>) (k__do_set_cpus_allowed e x p m flags k1)
      else k__do_set_cpus_allowed e x p m flags k1)"
  have k1: "proto k1 = proto k" unfolding k1_def by (rule proto_params) (simp add: sched_frame_params)
  have k3: "proto k3 = proto k" by (simp add: k3_def proto_upd_task proto_do_set_cpus_allowed [OF assms(1,2)] k1)
  have fresh: "\<forall>q. t_migration_pending (tasks k3 q) \<noteq> Some my" "\<not> ap_stop_pending (pendings k3 my)"
    using assms(3,4) k3 by (auto simp: proto_def fun_eq_iff)
  define valid where "valid = (if flag_set (t_flags (tasks k1 p)) PF_KTHREAD \<or> is_migration_disabled (tasks k1 p)
    then cpu_online_mask k1 else cpu_active_mask k1)"
  obtain r k' where r: "k__set_cpus_allowed_ptr_locked e x p m flags my k = (r, k')" by fastforce
  note eq = r [unfolded k__set_cpus_allowed_ptr_locked_def Let_def, folded k1_def, folded k3_def valid_def]
  have "k' = k1 \<or> (\<exists>dest. affine_move_task e x ?c p dest flags my k3 = (r, k'))"
    using eq by (auto split: if_split_asm option.splits)
  then show ?thesis
  proof
    assume "k' = k1"
    then show ?thesis by (simp add: r k1)
  next
    assume "\<exists>dest. affine_move_task e x ?c p dest flags my k3 = (r, k')"
    then obtain dest where d: "affine_move_task e x ?c p dest flags my k3 = (r, k')" by blast
    show ?thesis using abs_affine_move_task [OF assms(1,2) fresh, of ?c p dest flags] by (simp add: r d k3)
  qed
qed

lemma abs_stop_pending:
  assumes "kops_frame x" and "aff_law e x" and "stop_works k = ws1 @ (c, Pending_work i) # ws2"
  shows "abs_step (proto k) (proto (run_stop_work e x c (Pending_work i) (k\<lparr>stop_works := ws1 @ ws2\<rparr>)))"
proof -
  let ?p = "ap_task (pendings k i)" and ?d = "ap_dest_cpu (pendings k i)"
  define k1 where "k1 = flush_smp_call_function_from_idle x (k\<lparr>stop_works := ws1 @ ws2\<rparr>)"
  let ?mp = "\<lambda>q. t_migration_pending (tasks k q)"
  have k1: "proto k1 = (?mp, pendings k, ws1 @ ws2)" using assms(2) by (simp add: k1_def aff_law_def proto_def)
  let ?u = "\<lambda>a. a\<lparr>ap_stop_pending := False\<rparr>" and ?v = "\<lambda>a. a\<lparr>ap_stop_pending := False, ap_done := True\<rparr>"
  let ?bail = "(?mp, (pendings k)(i := ?u (pendings k i)), ws1 @ ws2)"
  let ?fin = "(?mp(?p := None), (pendings k)(i := ?v (pendings k i)), ws1 @ ws2)"
  have out: "proto (stop_out (Some i) False k2) = ?bail" if "proto k2 = proto k1" for k2
    using that k1 by (simp add: stop_out_def proto_def upd_pending_def)
  have fin: "proto (stop_out (Some i) True k2) = ?fin" if "proto k2 = proto (clear_pending ?p k1)" for k2
    using that k1 by (simp add: stop_out_def complete_all_def proto_def upd_pending_def clear_pending_def upd_task_def fun_eq_iff)
  let ?k2 = "clear_pending ?p k1"
  let ?k3 = "if task_on_rq_queued (tasks ?k2 ?p) then k__migrate_task e x c ?p ?d ?k2 else upd_task ?p (\<lambda>t. t\<lparr>t_wake_cpu := ?d\<rparr>) ?k2"
  have k3: "proto ?k3 = proto ?k2" by (simp add: proto_migrate_task [OF assms(1,2)] proto_upd_task)
  have "proto (run_stop_work e x c (Pending_work i) (k\<lparr>stop_works := ws1 @ ws2\<rparr>)) =
      proto (migration_stop e x c ?p ?d (Some i) k1)"
    by (simp add: run_stop_work_def migration_cpu_stop_def k1_def)
  moreover have "proto (migration_stop e x c ?p ?d (Some i) k1) = ?bail \<or> proto (migration_stop e x c ?p ?d (Some i) k1) = ?fin \<or>
      (\<exists>c'. proto (migration_stop e x c ?p ?d (Some i) k1) = (?mp, pendings k, (ws1 @ ws2) @ [(c', Pending_work i)]))"
    using out [of k1] fin [of ?k2] fin [OF k3] k1 unfolding migration_stop_def Let_def
    by (simp split del: if_split split: if_split_asm) (auto simp: proto_def)
  ultimately show ?thesis
    using abs_step.bail [of ?mp "pendings k" ws1 c i ws2] abs_step.finish [of ?mp "pendings k" ws1 c i ws2]
      abs_step.chase [of ?mp "pendings k" ws1 c i ws2] assms(3) by (auto simp: proto_def)
qed

lemma abs_stop_other:
  assumes "kops_frame x" and "aff_law e x" and "stop_works k = ws1 @ (c, w) # ws2" and "\<forall>i. w \<noteq> Pending_work i"
  shows "abs_step (proto k) (proto (run_stop_work e x c w (k\<lparr>stop_works := ws1 @ ws2\<rparr>)))"
proof -
  let ?k0 = "k\<lparr>stop_works := ws1 @ ws2\<rparr>"
  have mig: "proto (migration_stop e x c p d None k1) = proto k1" for p d k1
    using proto_migrate_task [OF assms(1,2)] proto_upd_task
    by (simp add: migration_stop_def Let_def stop_out_def)
  have "proto (run_stop_work e x c w ?k0) = proto ?k0"
    using assms(2,4) proto_push_stop [OF assms(1,2)] mig
    by (cases w) (simp_all add: run_stop_work_def migration_cpu_stop_def aff_law_def)
  then show ?thesis
    using abs_step.unqueue [OF assms(4), of "\<lambda>q. t_migration_pending (tasks k q)" "pendings k" ws1 c ws2] assms(3)
    by (simp add: proto_def)
qed

lemma aff_step_abs:
  assumes "kops_frame x" and "aff_law e x" and "aff_step e x k k'"
  shows "abs_step\<^sup>*\<^sup>* (proto k) (proto k')"
  using assms(3)
proof cases
  case (change my p m flags)
  then show ?thesis using abs_set_cpus_allowed [OF assms(1,2)] by simp
next
  case (stopper ws1 c w ws2)
  show ?thesis
  proof (cases "\<exists>i. w = Pending_work i")
    case True
    then show ?thesis using abs_stop_pending [OF assms(1,2)] stopper by auto
  next
    case False
    then show ?thesis using abs_stop_other [OF assms(1,2)] stopper by auto
  qed
next
  case (resume i)
  then show ?thesis
    using abs_step.join [where mp = "\<lambda>q. t_migration_pending (tasks k q)" and pe = "pendings k" and ws = "stop_works k" and i = i
        and n = "ap_refs (pendings k i) - 1" and dest = "ap_dest_cpu (pendings k i)"]
    by (auto simp: proto_def upd_pending_def)
next
  case other
  then show ?thesis by simp
qed

lemma aff_steps_abs:
  assumes "kops_frame x" and "aff_law e x" and "(aff_step e x)\<^sup>*\<^sup>* k k'"
  shows "abs_step\<^sup>*\<^sup>* (proto k) (proto k')"
  using assms(3) by induction (auto dest: aff_step_abs [OF assms(1,2)])

lemma abs_steps_ok: "abs_step\<^sup>*\<^sup>* s s' \<Longrightarrow> pend_ok s \<Longrightarrow> pend_ok s'"
  by (induction rule: rtranclp_induct) (auto intro: pend_ok_step)

text \<open>
  C16.  Changing affinity refines the protocol: every change of a mask, every run of a stopper and every return
  of a caller is a sequence of steps of the abstract machine, whatever else the kernel does in between.
\<close>

theorem affinity_refines:
  assumes "kops_frame x" and "aff_law e x" and "(aff_step e x)\<^sup>*\<^sup>* k k'"
  shows "abs_step\<^sup>*\<^sup>* (proto k) (proto k')"
  by (rule aff_steps_abs [OF assms])


lemma plain_aff_law: "aff_law kenv_v5_17 plain_kops"
  by (auto simp: aff_law_def plain_kops_def set_cpus_allowed_common_def v5_17_wake.wake_h_simps find_Some_iff)

text \<open>A task that waits on CPU 0 is restricted to CPU 2.\<close>

definition sample_aff_kernel :: kernel where
  "sample_aff_kernel = zero_kernel\<lparr>cpu_online_mask := {0, 2}, cpu_active_mask := {0, 2}\<rparr>"

lemma sample_aff_result:
  "k__set_cpus_allowed_ptr_locked kenv_v5_17 plain_kops 3 (Cpumask_at {2}) 0 7 sample_aff_kernel =
    (Aff_wait 7, complete_all 7 (clear_pending 3 (affine_install 3 2 7 (k__do_set_cpus_allowed kenv_v5_17 plain_kops 3 (Cpumask_at {2}) 0
       (update_rq_clock kenv_v5_17 plain_kops 0 sample_aff_kernel)))))"
proof -
  let ?k1 = "update_rq_clock kenv_v5_17 plain_kops 0 sample_aff_kernel"
  let ?k2 = "k__do_set_cpus_allowed kenv_v5_17 plain_kops 3 (Cpumask_at {2}) 0 ?k1"
  have z: "task_rq sample_aff_kernel 3 = 0" by (simp add: sample_aff_kernel_def zero_defs task_rq_def)
  have fr: "sched_frame sample_aff_kernel ?k1" by simp
  have ps: "params_same sample_aff_kernel ?k1" by (rule sched_frame_params [OF fr])
  then have t1: "task_params (tasks ?k1 3) = task_params (tasks sample_aff_kernel 3)" by (simp add: params_same_def)
  note sel = task_params_sel [OF t1] and sel2 = task_params_sel2 [OF t1]
  have zt: "tasks sample_aff_kernel 3 = zero_task" by (simp add: sample_aff_kernel_def zero_defs)
  have act: "cpu_active_mask ?k1 = {0, 2}" using ps by (simp add: params_same_def kfix_def sample_aff_kernel_def)
  have "params_same (set_cpus_allowed_common kenv_v5_17 3 (Cpumask_at {2}) 0 ?k1) ?k2"
    by (rule do_set_cpus_allowed_params [OF plain_kops_frame plain_aff_law])
  then have t2: "task_params (tasks ?k2 3) = task_params ((tasks ?k1 3)\<lparr>t_cpus_mask := {2}, t_nr_cpus_allowed := 1\<rparr>)"
    "pendings ?k2 = pendings ?k1"
    by (simp_all add: params_same_def kfix_def set_cpus_allowed_common_def flag_set_def mask_of_def upd_task_def)
  note s2 = task_params_sel [OF t2(1)] and s22 = task_params_sel2 [OF t2(1)]
  have f: "find (\<lambda>i. i \<in> {0, 2} \<and> i \<in> {2::nat}) [0..<64] = Some 2" by (simp add: upt_rec)
  have nw: "(0::u32) \<noteq> TASK_WAKING" by (simp add: task_state_defs)
  show ?thesis
    unfolding k__set_cpus_allowed_ptr_locked_def Let_def z
    using nw f
    by (simp add: sel2 sel zt zero_task_def flag_set_def mask_of_def is_migration_disabled_def plain_kops_def [THEN arg_cong, of task_cpu_possible_mask]
        plain_kops_def [THEN arg_cong, of cpumask_any_and_distribute] act affine_move_task_def s2 s22 affine_install_def task_on_rq_queued_def t2(2))
qed

theorem set_cpus_allowed_ptr_effect_witness:
  "t_cpus_mask (tasks (snd (k__set_cpus_allowed_ptr_locked kenv_v5_17 plain_kops 3 (Cpumask_at {2}) 0 7 sample_aff_kernel)) 3) = {2}"
  using set_cpus_allowed_ptr_effect [OF plain_kops_frame plain_aff_law, of 0 3 "Cpumask_at {2}" 7 sample_aff_kernel]
  by (simp add: sample_aff_result flag_set_def mask_of_def)

lemma sample_aff_step:
  "aff_step kenv_v5_17 plain_kops sample_aff_kernel
     (snd (k__set_cpus_allowed_ptr_locked kenv_v5_17 plain_kops 3 (Cpumask_at {2}) 0 7 sample_aff_kernel))"
  by (rule aff_step.change) (simp_all add: sample_aff_kernel_def zero_defs)

theorem affinity_refines_witness:
  "abs_step\<^sup>*\<^sup>* (proto sample_aff_kernel)
     (proto (snd (k__set_cpus_allowed_ptr_locked kenv_v5_17 plain_kops 3 (Cpumask_at {2}) 0 7 sample_aff_kernel)))"
  by (rule affinity_refines [OF plain_kops_frame plain_aff_law r_into_rtranclp [where r = "aff_step kenv_v5_17 plain_kops", OF sample_aff_step]])


subsection \<open>Setting and reading the mask\<close>

lemma set_cpus_allowed_mask:
  assumes "kops_frame x" and "aff_law e x" and "\<not> flag_set flags (SCA_MIGRATE_ENABLE e)" and "\<not> flag_set flags (SCA_MIGRATE_DISABLE e)"
    and "\<And>i k q. t_cpus_mask (tasks (wait_for_completion x i k) q) = t_cpus_mask (tasks k q)"
    and "k__set_cpus_allowed_ptr e x p m flags my k = (None, k')"
  shows "t_cpus_mask (tasks k' p) = mask_of (tasks k p) m"
proof -
  obtain r k1 where r: "k__set_cpus_allowed_ptr_locked e x p m flags my k = (r, k1)" by fastforce
  then have "r = Aff_ret None \<and> k' = k1 \<or> (\<exists>i. r = Aff_wait i \<and> k' = affine_wait x i k1)"
    using assms(6) by (auto simp: k__set_cpus_allowed_ptr_def split: aff_result.splits)
  then show ?thesis
    using set_cpus_allowed_ptr_effect_aux [OF assms(1-4), of p m my k] assms(5) by (auto simp: r affine_wait_def)
qed

lemma setaffinity_again_returns:
  assumes "wake_h e" and "kops_frame x" and "aff_law e x"
    and wait: "\<And>i k q. t_cpus_mask (tasks (wait_for_completion x i k) q) = t_cpus_mask (tasks k q)"
    and shrink: "\<And>m k. cpuset_cpus_allowed x p (snd (k__set_cpus_allowed_ptr e x p m (SCA_CHECK e OR SCA_USER e) my k)) \<subseteq> cpuset_cpus_allowed x p k"
  shows "finite (cpuset_cpus_allowed x p k) \<Longrightarrow> m \<subseteq> cpuset_cpus_allowed x p k \<Longrightarrow>
    \<exists>r k'. setaffinity_again e x p m my k = Some (r, k') \<and> (r = None \<longrightarrow> t_cpus_mask (tasks k' p) \<subseteq> cpuset_cpus_allowed x p k')"
proof (induction "card (cpuset_cpus_allowed x p k)" arbitrary: m k rule: less_induct)
  case less
  let ?f = "SCA_CHECK e OR SCA_USER e"
  obtain r k1 where r: "k__set_cpus_allowed_ptr e x p (Cpumask_at m) ?f my k = (r, k1)" by fastforce
  have sub: "cpuset_cpus_allowed x p k1 \<subseteq> cpuset_cpus_allowed x p k" using shrink [of "Cpumask_at m" k] by (simp add: r)
  have flags: "\<not> flag_set ?f (SCA_MIGRATE_ENABLE e)" "\<not> flag_set ?f (SCA_MIGRATE_DISABLE e)"
    by (simp_all add: flag_set_def wake_h.wake_h_simps [OF assms(1)])
  show ?case
  proof (cases r)
    case (Some err)
    then show ?thesis by (simp add: setaffinity_again.simps [of e x p m my k] r)
  next
    case None
    have m1: "t_cpus_mask (tasks k1 p) = m"
      using set_cpus_allowed_mask [OF assms(2,3) flags wait r [unfolded None]] by (simp add: mask_of_def)
    show ?thesis
    proof (cases "m \<subseteq> cpuset_cpus_allowed x p k1")
      case True
      then show ?thesis using m1 by (simp add: setaffinity_again.simps [of e x p m my k] r None)
    next
      case False
      have less': "cpuset_cpus_allowed x p k1 \<subset> cpuset_cpus_allowed x p k" using False sub less.prems by blast
      have "\<exists>r k'. setaffinity_again e x p (cpuset_cpus_allowed x p k1) my k1 = Some (r, k') \<and>
          (r = None \<longrightarrow> t_cpus_mask (tasks k' p) \<subseteq> cpuset_cpus_allowed x p k')"
        by (rule less.hyps [OF psubset_card_mono [OF less.prems(1) less'] finite_subset [OF sub less.prems(1)] subset_refl])
      then show ?thesis using False by (simp add: setaffinity_again.simps [of e x p m my k] r None)
    qed
  qed
qed

text \<open>
  C31.  Setting the affinity returns.  The label \<^verbatim>\<open>again\<close> is taken as often as a concurrent update shrinks the cpuset
  of the task, so with a finite cpuset that does not grow meanwhile the loop ends, and a successful call leaves the
  task a mask inside its cpuset, whatever mask was asked for.
\<close>

theorem sched_setaffinity_returns:
  assumes "wake_h e" and "kops_frame x" and "aff_law e x"
    and "\<And>i k q. t_cpus_mask (tasks (wait_for_completion x i k) q) = t_cpus_mask (tasks k q)"
    and "\<And>m k. cpuset_cpus_allowed x p (snd (k__set_cpus_allowed_ptr e x p m (SCA_CHECK e OR SCA_USER e) my k)) \<subseteq> cpuset_cpus_allowed x p k"
    and "finite (cpuset_cpus_allowed x p k)"
  shows "\<exists>r k'. k__sched_setaffinity e x d alloc_ok p m my k = Some (r, k') \<and>
    (r = None \<longrightarrow> t_cpus_mask (tasks k' p) \<subseteq> cpuset_cpus_allowed x p k')"
  using setaffinity_again_returns [OF assms(1-6), of "m \<inter> cpuset_cpus_allowed x p k"]
  by (simp add: k__sched_setaffinity_def Let_def split: option.split)

definition sample_cpuset_kops :: kops where
  "sample_cpuset_kops = plain_kops\<lparr>cpuset_cpus_allowed := \<lambda>_ _. {0, 2}\<rparr>"

lemma sample_cpuset_kops_laws: "kops_frame sample_cpuset_kops" "aff_law kenv_v5_17 sample_cpuset_kops"
  using plain_kops_frame plain_aff_law by (simp_all add: sample_cpuset_kops_def kops_frame_def aff_law_def)

theorem sched_setaffinity_returns_witness:
  "\<exists>r k'. k__sched_setaffinity kenv_v5_17 sample_cpuset_kops sample_sysops True 3 {2, 5} 7 sample_aff_kernel = Some (r, k') \<and>
    (r = None \<longrightarrow> t_cpus_mask (tasks k' 3) \<subseteq> {0, 2})"
  using sched_setaffinity_returns [OF v5_17_wake.wake_h_axioms sample_cpuset_kops_laws, of 3 7 sample_aff_kernel sample_sysops True "{2, 5}"]
  by (simp add: sample_cpuset_kops_def plain_kops_def [THEN arg_cong, of wait_for_completion])

end
