(* ===== verification/Schedule.thy ===== *)
theory Schedule
  imports Affinity
begin

text \<open>
  The main scheduler function of \<^verbatim>\<open>Project 2/core.c\<close> with its context switch, the callers of it, and the system
  call of \<^verbatim>\<open>Project 2/my_set_process_priority.c\<close> that gives a task a fixed priority, which \<^verbatim>\<open>__schedule\<close> stores in
  \<^verbatim>\<open>static_prio\<close> whenever it picks the task.

  A switch is modelled from the point of view of the CPU: \<open>k__schedule\<close> starts in the task that gives up the CPU
  and ends where the next task has finished the switch.  The parameter \<open>sw\<close> gives the state in which a task that was
  switched out goes on.  Hooks of other subsystems in the switch (tracing, \<^verbatim>\<open>perf\<close>, \<^verbatim>\<open>rseq\<close>, \<^verbatim>\<open>kcov\<close>, RCU, accounting, the
  high resolution tick and the switch of registers and page tables) do not touch the modelled state and are left out.
\<close>

subsection \<open>Switching tasks\<close>

definition prepare_task :: "tid \<Rightarrow> kernel \<Rightarrow> kernel" where
  "prepare_task next k = upd_task next (\<lambda>t. t\<lparr>t_on_cpu := True\<rparr>) k"

definition finish_task :: "tid \<Rightarrow> kernel \<Rightarrow> kernel" where
  "finish_task prev k = upd_task prev (\<lambda>t. t\<lparr>t_on_cpu := False\<rparr>) k"

text \<open>References to an address space, from \<^verbatim>\<open>linux/sched/mm.h\<close>: the structure is freed when the last one is dropped.\<close>

definition mmgrab :: "nat \<Rightarrow> kernel \<Rightarrow> kernel" where
  "mmgrab m k = k\<lparr>mm_count := (mm_count k)(m := mm_count k m + 1)\<rparr>"

definition mmdrop_sched :: "nat \<Rightarrow> kernel \<Rightarrow> kernel" where
  "mmdrop_sched m k = k\<lparr>mm_count := (mm_count k)(m := mm_count k m - 1)\<rparr>"

definition prepare_task_switch :: "cpu \<Rightarrow> tid \<Rightarrow> tid \<Rightarrow> kernel \<Rightarrow> kernel" where
  "prepare_task_switch c prev next k = prepare_task next k"

definition finish_lock_switch :: "kops \<Rightarrow> cpu \<Rightarrow> kernel \<Rightarrow> kernel" where
  "finish_lock_switch x c k = k__balance_callbacks x c k"

definition finish_task_switch :: "kops \<Rightarrow> tid \<Rightarrow> kernel \<Rightarrow> kernel" where
  "finish_task_switch x prev k =
     (let c = this_cpu k;
          mm = rq_prev_mm (rqs k c);
          k = upd_rq c (\<lambda>rq. rq\<lparr>rq_prev_mm := None\<rparr>) k;
          prev_state = t_state (tasks k prev);
          k = finish_task prev k;
          k = finish_lock_switch x c k;
          k = (case mm of Some m \<Rightarrow> mmdrop_sched m k | None \<Rightarrow> k)
      in if prev_state = TASK_DEAD
         then let k = (case op_task_dead x (t_sched_class (tasks k prev)) of Some f \<Rightarrow> f prev k | None \<Rightarrow> k)
              in put_dead_task x prev k
         else k)"

text \<open>\<open>None\<close> where the code would follow a null pointer.\<close>

definition switch_mm :: "cpu \<Rightarrow> tid \<Rightarrow> tid \<Rightarrow> kernel \<Rightarrow> kernel option" where
  "switch_mm c prev next k =
     (let active = t_active_mm (tasks k prev)
      in if t_mm (tasks k next) = None
         then let k = upd_task next (\<lambda>t. t\<lparr>t_active_mm := active\<rparr>) k
              in if t_mm (tasks k prev) \<noteq> None
                 then (case t_active_mm (tasks k prev) of None \<Rightarrow> None | Some m \<Rightarrow> Some (mmgrab m k))
                 else Some (upd_task prev (\<lambda>t. t\<lparr>t_active_mm := None\<rparr>) k)
         else if t_mm (tasks k prev) = None
         then Some (upd_task prev (\<lambda>t. t\<lparr>t_active_mm := None\<rparr>) (upd_rq c (\<lambda>rq. rq\<lparr>rq_prev_mm := active\<rparr>) k))
         else Some k)"

definition clear_skip :: "kenv \<Rightarrow> cpu \<Rightarrow> kernel \<Rightarrow> kernel" where
  "clear_skip e c k = upd_rq c (\<lambda>rq. rq\<lparr>rq_clock_update_flags := rq_clock_update_flags rq AND NOT (RQCF_ACT_SKIP e OR RQCF_REQ_SKIP e)\<rparr>) k"

definition context_switch :: "kenv \<Rightarrow> kops \<Rightarrow> cpu \<Rightarrow> tid \<Rightarrow> tid \<Rightarrow> kernel \<Rightarrow> kernel option" where
  "context_switch e x c prev next k =
     (case switch_mm c prev next (prepare_task_switch c prev next k) of
        None \<Rightarrow> None
      | Some k \<Rightarrow> Some (finish_task_switch x prev (clear_skip e c k)))"

subsection \<open>The main scheduler function\<close>

definition SM_NONE :: u32 where
  "SM_NONE = 0x0"

definition SM_PREEMPT :: u32 where
  "SM_PREEMPT = 0x1"

definition SM_MASK_PREEMPT :: u32 where
  "SM_MASK_PREEMPT = NOT 0"

text \<open>The previous task leaves the run queue unless it is preempted or has a signal pending.\<close>

definition schedule_block :: "kenv \<Rightarrow> kops \<Rightarrow> cpu \<Rightarrow> tid \<Rightarrow> kernel \<Rightarrow> kernel" where
  "schedule_block e x c prev k =
     (let prev_state = t_state (tasks k prev)
      in if signal_pending_state x prev_state prev k then upd_task prev (\<lambda>t. t\<lparr>t_state := TASK_RUNNING\<rparr>) k
         else
           let load = flag_set prev_state TASK_UNINTERRUPTIBLE \<and> \<not> flag_set prev_state TASK_NOLOAD \<and>
                      \<not> flag_set (t_flags (tasks k prev)) PF_FROZEN;
               k = upd_task prev (\<lambda>t. t\<lparr>t_sched_contributes_to_load := load\<rparr>) k;
               k = (if load then upd_rq c (\<lambda>rq. rq\<lparr>rq_nr_uninterruptible := rq_nr_uninterruptible rq + 1\<rparr>) k else k);
               k = deactivate_task e x c prev (DEQUEUE_SLEEP e OR DEQUEUE_NOCLOCK e) k
           in if t_in_iowait (tasks k prev) then upd_rq c (\<lambda>rq. rq\<lparr>rq_nr_iowait := rq_nr_iowait rq + 1\<rparr>) k else k)"

text \<open>The change of the project: a fixed priority becomes the static priority of the task that runs next.\<close>

definition apply_fixed_priority :: "task_struct \<Rightarrow> task_struct" where
  "apply_fixed_priority t =
     (if t_static_prio t \<noteq> 0 \<and> t_my_fixed_priority t \<ge> 101 \<and> t_my_fixed_priority t \<le> 139
      then t\<lparr>t_static_prio := t_my_fixed_priority t\<rparr> else t)"

definition schedule_switch :: "kenv \<Rightarrow> kops \<Rightarrow> cpu \<Rightarrow> bool \<Rightarrow> tid \<Rightarrow> tid \<Rightarrow> kernel \<Rightarrow> kernel option" where
  "schedule_switch e x c voluntary prev next k =
     (if prev \<noteq> next
      then
        let k = upd_rq c (\<lambda>rq. rq\<lparr>rq_nr_switches := rq_nr_switches rq + 1, rq_curr := next\<rparr>) k;
            k = upd_task prev (\<lambda>t. if voluntary then t\<lparr>t_nvcsw := t_nvcsw t + 1\<rparr> else t\<lparr>t_nivcsw := t_nivcsw t + 1\<rparr>) k;
            k = migrate_disable_switch e x c prev k
        in context_switch e x c prev next k
      else Some (k__balance_callbacks x c (clear_skip e c k)))"

definition k__schedule :: "kenv \<Rightarrow> kops \<Rightarrow> u32 \<Rightarrow> kernel \<Rightarrow> kernel option" where
  "k__schedule e x sched_mode k =
     (let c = this_cpu k;
          prev = rq_curr (rqs k c);
          k = upd_rq c (\<lambda>rq. rq\<lparr>rq_clock_update_flags := push_bit 1 (rq_clock_update_flags rq)\<rparr>) k;
          k = update_rq_clock e x c k;
          voluntary = (\<not> flag_set sched_mode SM_MASK_PREEMPT \<and> t_state (tasks k prev) \<noteq> 0);
          k = (if voluntary then schedule_block e x c prev k else k)
      in case pick_next_task e x c prev k of
           None \<Rightarrow> None
         | Some (next, k) \<Rightarrow>
             let k = (upd_task prev (\<lambda>t. t\<lparr>t_need_resched := False\<rparr>) k)\<lparr>preempt_need_resched := False\<rparr>;
                 k = upd_task next apply_fixed_priority k
             in schedule_switch e x c voluntary prev next k)"

subsection \<open>Callers of the scheduler\<close>

definition sched_submit_work :: "kops \<Rightarrow> tid \<Rightarrow> kernel \<Rightarrow> kernel" where
  "sched_submit_work x tsk k =
     (if task_is_running (tasks k tsk) then k
      else
        let flags = t_flags (tasks k tsk);
            k = (if flag_set flags (PF_WQ_WORKER OR PF_IO_WORKER)
                 then if flag_set flags PF_WQ_WORKER then wq_worker_sleeping x tsk k else io_wq_worker_sleeping x tsk k
                 else k)
        in if tsk_is_pi_blocked x tsk k then k
           else if blk_needs_flush_plug x tsk k then blk_flush_plug x tsk k
           else k)"

definition sched_update_worker :: "kops \<Rightarrow> tid \<Rightarrow> kernel \<Rightarrow> kernel" where
  "sched_update_worker x tsk k =
     (if flag_set (t_flags (tasks k tsk)) (PF_WQ_WORKER OR PF_IO_WORKER)
      then if flag_set (t_flags (tasks k tsk)) PF_WQ_WORKER then wq_worker_running x tsk k else io_wq_worker_running x tsk k
      else k)"

text \<open>The state in which a task that was switched out goes on, as a function of the state that it left.\<close>

type_synonym resume = "tid \<Rightarrow> kernel \<Rightarrow> kernel"

text \<open>One call of \<^verbatim>\<open>__schedule\<close> as the calling task sees it: it returns when the task runs again.\<close>

definition schedule_once :: "kenv \<Rightarrow> kops \<Rightarrow> resume \<Rightarrow> u32 \<Rightarrow> kernel \<Rightarrow> kernel option" where
  "schedule_once e x sw sched_mode k =
     (case k__schedule e x sched_mode k of
        None \<Rightarrow> None
      | Some k' \<Rightarrow> Some (if current k' = current k then k' else sw (current k) k'))"

definition need_resched :: "kernel \<Rightarrow> bool" where
  "need_resched k \<longleftrightarrow> t_need_resched (tasks k (current k))"

text \<open>The loops \<^verbatim>\<open>do { __schedule(mode); } while (need_resched())\<close>, which end when no new request is made.\<close>

partial_function (option) schedule_loop :: "kenv \<Rightarrow> kops \<Rightarrow> resume \<Rightarrow> u32 \<Rightarrow> kernel \<Rightarrow> kernel option" where
  "schedule_loop e x sw sched_mode k =
     (case schedule_once e x sw sched_mode k of
        None \<Rightarrow> None
      | Some k \<Rightarrow> if need_resched k then schedule_loop e x sw sched_mode k else Some k)"

definition schedule :: "kenv \<Rightarrow> kops \<Rightarrow> resume \<Rightarrow> kernel \<Rightarrow> kernel option" where
  "schedule e x sw k =
     (let tsk = current k
      in case schedule_loop e x sw SM_NONE (sched_submit_work x tsk k) of
           None \<Rightarrow> None
         | Some k \<Rightarrow> Some (sched_update_worker x tsk k))"

definition schedule_idle :: "kenv \<Rightarrow> kops \<Rightarrow> resume \<Rightarrow> kernel \<Rightarrow> kernel option" where
  "schedule_idle e x sw k = schedule_loop e x sw SM_NONE k"

definition schedule_preempt_disabled :: "kenv \<Rightarrow> kops \<Rightarrow> resume \<Rightarrow> kernel \<Rightarrow> kernel option" where
  "schedule_preempt_disabled e x sw k = schedule e x sw k"

definition preempt_schedule_common :: "kenv \<Rightarrow> kops \<Rightarrow> resume \<Rightarrow> kernel \<Rightarrow> kernel option" where
  "preempt_schedule_common e x sw k = schedule_loop e x sw SM_PREEMPT k"

definition preempt_schedule :: "kenv \<Rightarrow> kops \<Rightarrow> resume \<Rightarrow> kernel \<Rightarrow> kernel option" where
  "preempt_schedule e x sw k = (if \<not> preemptible x k then Some k else preempt_schedule_common e x sw k)"

definition preempt_schedule_notrace :: "kenv \<Rightarrow> kops \<Rightarrow> resume \<Rightarrow> kernel \<Rightarrow> kernel option" where
  "preempt_schedule_notrace e x sw k = (if \<not> preemptible x k then Some k else schedule_loop e x sw SM_PREEMPT k)"

text \<open>A dead task leaves the CPU for good: the state after the switch, in which it is never picked again.\<close>

definition do_task_dead :: "kenv \<Rightarrow> kops \<Rightarrow> kernel \<Rightarrow> kernel option" where
  "do_task_dead e x k =
     (let k = set_special_state TASK_DEAD k;
          k = upd_task (current k) (\<lambda>t. t\<lparr>t_flags := t_flags t OR PF_NOFREEZE\<rparr>) k
      in k__schedule e x SM_NONE k)"

definition do_sched_yield :: "kenv \<Rightarrow> kops \<Rightarrow> resume \<Rightarrow> kernel \<Rightarrow> kernel option" where
  "do_sched_yield e x sw k = schedule e x sw (op_yield_task x (t_sched_class (tasks k (current k))) (this_cpu k) k)"

definition sys_sched_yield :: "kenv \<Rightarrow> kops \<Rightarrow> resume \<Rightarrow> kernel \<Rightarrow> (int \<times> kernel) option" where
  "sys_sched_yield e x sw k = (case do_sched_yield e x sw k of None \<Rightarrow> None | Some k \<Rightarrow> Some (0, k))"

definition yield :: "kenv \<Rightarrow> kops \<Rightarrow> resume \<Rightarrow> kernel \<Rightarrow> kernel option" where
  "yield e x sw k = do_sched_yield e x sw (set_current_state TASK_RUNNING k)"

text \<open>\<^verbatim>\<open>task_running\<close> of \<^verbatim>\<open>sched/sched.h\<close> reads \<^verbatim>\<open>on_cpu\<close>.\<close>

definition yield_to :: "kenv \<Rightarrow> kops \<Rightarrow> resume \<Rightarrow> tid \<Rightarrow> bool \<Rightarrow> kernel \<Rightarrow> (int result \<times> kernel) option" where
  "yield_to e x sw p preempt k =
     (let curr = current k; c = this_cpu k; d = task_rq k p
      in if rq_nr_running (rqs k c) = 1 \<and> rq_nr_running (rqs k d) = 1 then Some (Inl ESRCH, k)
         else case op_yield_to_task x (t_sched_class (tasks k curr)) of
             None \<Rightarrow> Some (Inr 0, k)
           | Some yield_to_task \<Rightarrow>
               if t_sched_class (tasks k curr) \<noteq> t_sched_class (tasks k p) \<or> t_on_cpu (tasks k p) \<or> \<not> task_is_running (tasks k p)
               then Some (Inr 0, k)
               else case yield_to_task c p k of
                   (False, k) \<Rightarrow> Some (Inr 0, k)
                 | (True, k) \<Rightarrow>
                     (case schedule e x sw (if preempt \<and> c \<noteq> d then resched_curr d k else k) of
                        None \<Rightarrow> None
                      | Some k \<Rightarrow> Some (Inr 1, k)))"

definition io_schedule_prepare :: "kops \<Rightarrow> kernel \<Rightarrow> bool \<times> kernel" where
  "io_schedule_prepare x k =
     (let old_iowait = t_in_iowait (tasks k (current k));
          k = upd_task (current k) (\<lambda>t. t\<lparr>t_in_iowait := True\<rparr>) k
      in (old_iowait, blk_flush_plug x (current k) k))"

definition io_schedule_finish :: "bool \<Rightarrow> kernel \<Rightarrow> kernel" where
  "io_schedule_finish token k = upd_task (current k) (\<lambda>t. t\<lparr>t_in_iowait := token\<rparr>) k"

definition io_schedule :: "kenv \<Rightarrow> kops \<Rightarrow> resume \<Rightarrow> kernel \<Rightarrow> kernel option" where
  "io_schedule e x sw k =
     (let (token, k) = io_schedule_prepare x k
      in case schedule e x sw k of None \<Rightarrow> None | Some k \<Rightarrow> Some (io_schedule_finish token k))"

subsection \<open>The system call that sets a fixed priority\<close>

text \<open>The line that the call logs: the name, the number, the fixed priority, the static priority, the nice value and the virtual run time.\<close>

type_synonym priority_log = "string \<times> nat \<times> int \<times> int \<times> int \<times> u64"

definition my_set_process_priority :: "kenv \<Rightarrow> kops \<Rightarrow> resume \<Rightarrow> int \<Rightarrow> kernel \<Rightarrow> (int \<times> priority_log list \<times> kernel) option" where
  "my_set_process_priority e x sw priority k =
     (let task = current k
      in if priority < 101 \<or> priority > 139 then Some (0, [], k)
         else
           let k = upd_task task (\<lambda>t. t\<lparr>t_my_fixed_priority := priority\<rparr>) k
           in case schedule e x sw k of
                None \<Rightarrow> None
              | Some k \<Rightarrow>
                  let t = tasks k task
                  in Some (1, [(t_comm t, t_pid t, t_my_fixed_priority t, t_static_prio t, task_nice e t, se_vruntime (t_se t))], k))"


subsection \<open>Priority ranges and time slices\<close>

definition sys_sched_get_priority_max :: "kenv \<Rightarrow> int \<Rightarrow> int result" where
  "sys_sched_get_priority_max e policy =
     (if policy = SCHED_FIFO e \<or> policy = SCHED_RR e then Inr (MAX_RT_PRIO e - 1)
      else if policy = SCHED_DEADLINE e \<or> policy = SCHED_NORMAL e \<or> policy = SCHED_BATCH e \<or> policy = SCHED_IDLE e then Inr 0
      else Inl EINVAL)"

definition sys_sched_get_priority_min :: "kenv \<Rightarrow> int \<Rightarrow> int result" where
  "sys_sched_get_priority_min e policy =
     (if policy = SCHED_FIFO e \<or> policy = SCHED_RR e then Inr 1
      else if policy = SCHED_DEADLINE e \<or> policy = SCHED_NORMAL e \<or> policy = SCHED_BATCH e \<or> policy = SCHED_IDLE e then Inr 0
      else Inl EINVAL)"

text \<open>The time slice in clock ticks; a slice of 0 stands for no limit.\<close>

definition sched_rr_get_interval :: "kops \<Rightarrow> secops \<Rightarrow> sysops \<Rightarrow> kernel \<Rightarrow> int \<Rightarrow> nat result" where
  "sched_rr_get_interval x s d k pid =
     (if pid < 0 then Inl EINVAL
      else case find_process_by_pid d k (nat pid) of
          None \<Rightarrow> Inl ESRCH
        | Some p \<Rightarrow>
            (case security_task_getscheduler s p of
               Some err \<Rightarrow> Inl err
             | None \<Rightarrow>
                 (case get_rr_interval x (t_sched_class (tasks k p)) of
                    None \<Rightarrow> Inr 0
                  | Some f \<Rightarrow> Inr (f (task_rq k p) p k))))"

subsection \<open>The test program\<close>

text \<open>
  The measured part of \<^verbatim>\<open>Project 2/testProject2.c\<close>: slot 0 of the arrays of start and end times is taken without a
  call, then one slot per priority; \<open>test_loop\<close> gives the slots in order with the priority that is set for them.
\<close>

definition NUM_OF_PRIORITIES_TESTED :: nat where
  "NUM_OF_PRIORITIES_TESTED = 40"

function test_loop :: "nat \<Rightarrow> int \<Rightarrow> (nat \<times> int) list" where
  "test_loop index priority = (if priority \<le> 139 then (index, priority) # test_loop (index + 1) (priority + 1) else [])"
  by auto
termination by (relation "measure (\<lambda>(_, priority). nat (140 - priority))") auto

declare test_loop.simps [simp del]

text \<open>The lines of the report: the slot and the priority that is printed for it.\<close>

definition test_report :: "(nat \<times> int) list" where
  "test_report = map (\<lambda>i. (i, int i + 100)) [1..<NUM_OF_PRIORITIES_TESTED]"

subsection \<open>What a switch keeps\<close>

definition keep :: "kernel \<Rightarrow> kernel \<Rightarrow> bool" where
  "keep k k' \<longleftrightarrow> this_cpu k' = this_cpu k \<and> mm_count k' = mm_count k \<and>
     (\<forall>c. rq_curr (rqs k' c) = rq_curr (rqs k c) \<and> rq_prev_mm (rqs k' c) = rq_prev_mm (rqs k c) \<and>
       rq_idle (rqs k' c) = rq_idle (rqs k c)) \<and>
     (\<forall>p. task_fix (tasks k' p) = task_fix (tasks k p) \<and> is_task_rq_idle k' p = is_task_rq_idle k p)"

text \<open>What the callbacks after a switch leave alone.\<close>

definition switch_law :: "kops \<Rightarrow> bool" where
  "switch_law x \<longleftrightarrow> (\<forall>c k. keep k (k__balance_callbacks x c k)) \<and> (\<forall>p k. keep k (put_dead_task x p k)) \<and>
     (\<forall>s f p k. op_task_dead x s = Some f \<longrightarrow> keep k (f p k))"

lemma keep_refl [simp]: "keep k k"
  by (simp add: keep_def)

lemma keep_trans [trans]: "keep k k' \<Longrightarrow> keep k' k'' \<Longrightarrow> keep k k''"
  by (simp add: keep_def)

lemma keep_stat: "stat_frame k k' \<Longrightarrow> keep k k'"
  by (simp add: keep_def stat_frame_def)

lemma keep_params: 
  assumes "params_same k k'"
  shows "keep k k'"
proof -
  have "task_params (tasks k' p) = task_params (tasks k p)" for p using assms by (simp add: params_same_def)
  from task_params_sel [OF this] task_params_sel2 [OF this]
  have "task_fix (tasks k' p) = task_fix (tasks k p)" "t_cpu (tasks k' p) = t_cpu (tasks k p)" for p by (simp_all add: task_fix_def)
  then show ?thesis using assms by (simp add: keep_def params_same_def kfix_def is_task_rq_idle_def task_rq_def)
qed

lemma keep_upd_task:
  assumes "task_fix (f (tasks k p)) = task_fix (tasks k p)" and "t_cpu (f (tasks k p)) = t_cpu (tasks k p)"
  shows "keep k (upd_task p f k)"
  using assms by (simp add: keep_def upd_task_def is_task_rq_idle_def task_rq_def)

lemma keep_upd_rq:
  assumes "\<And>rq. rq_curr (f rq) = rq_curr rq" "\<And>rq. rq_prev_mm (f rq) = rq_prev_mm rq" "\<And>rq. rq_idle (f rq) = rq_idle rq"
  shows "keep k (upd_rq c f k)"
  using assms by (simp add: keep_def upd_rq_def is_task_rq_idle_def task_rq_def)

lemma keep_sel:
  assumes "keep k k'"
  shows "this_cpu k' = this_cpu k" "mm_count k' = mm_count k" "rq_curr (rqs k' c) = rq_curr (rqs k c)"
    "rq_prev_mm (rqs k' c) = rq_prev_mm (rqs k c)" "task_fix (tasks k' p) = task_fix (tasks k p)" "current k' = current k"
    "idle_wf k' = idle_wf k" "rq_idle (rqs k' c) = rq_idle (rqs k c)" "is_task_rq_idle k' p = is_task_rq_idle k p"
  using assms by (simp_all add: keep_def current_def idle_wf_def)

lemma keep_clock: "keep k (update_rq_clock e x c k)"
  by (rule keep_stat [OF pick_frame_stat [OF pick_frame_clock]])

lemma keep_schedule_block:
  assumes "kops_frame x"
  shows "keep k (schedule_block e x c prev k)"
proof -
  have t: "keep k (upd_task prev (\<lambda>t. t\<lparr>t_state := s\<rparr>) k)" "keep k (upd_task prev (\<lambda>t. t\<lparr>t_sched_contributes_to_load := b\<rparr>) k)"
    "keep k (upd_task prev (\<lambda>t. t\<lparr>t_on_rq := r\<rparr>) k)" for s b r k
    by (rule keep_upd_task; simp add: task_fix_def)+
  have r: "keep k (upd_rq c (\<lambda>rq. rq\<lparr>rq_nr_uninterruptible := f rq\<rparr>) k)" "keep k (upd_rq c (\<lambda>rq. rq\<lparr>rq_nr_iowait := f rq\<rparr>) k)" for f k
    by (rule keep_upd_rq; simp)+
  have d: "keep k (deactivate_task e x c prev f k)" for f k
    unfolding deactivate_task_def by (rule keep_trans [OF t(3) keep_params [OF params_same_dequeue [OF assms]]])
  let ?load = "flag_set (t_state (tasks k prev)) TASK_UNINTERRUPTIBLE \<and> \<not> flag_set (t_state (tasks k prev)) TASK_NOLOAD \<and>
      \<not> flag_set (t_flags (tasks k prev)) PF_FROZEN"
  define k1 where "k1 = upd_task prev (\<lambda>t. t\<lparr>t_sched_contributes_to_load := ?load\<rparr>) k"
  define k2 where "k2 = (if ?load then upd_rq c (\<lambda>rq. rq\<lparr>rq_nr_uninterruptible := rq_nr_uninterruptible rq + 1\<rparr>) k1 else k1)"
  define k3 where "k3 = deactivate_task e x c prev (DEQUEUE_SLEEP e OR DEQUEUE_NOCLOCK e) k2"
  have "keep k k1" unfolding k1_def by (rule t)
  also have "keep k1 k2" unfolding k2_def using r by simp
  also have "keep k2 k3" unfolding k3_def by (rule d)
  finally have k3: "keep k k3" .
  have "schedule_block e x c prev k = (if signal_pending_state x (t_state (tasks k prev)) prev k
      then upd_task prev (\<lambda>t. t\<lparr>t_state := TASK_RUNNING\<rparr>) k
      else if t_in_iowait (tasks k3 prev) then upd_rq c (\<lambda>rq. rq\<lparr>rq_nr_iowait := rq_nr_iowait rq + 1\<rparr>) k3 else k3)"
    unfolding schedule_block_def Let_def k1_def [symmetric] k2_def [symmetric] k3_def [symmetric] by (rule refl)
  then show ?thesis using t(1) k3 keep_trans [OF k3 r(2)] by simp
qed

lemma keep_migrate_disable_switch:
  assumes "kops_frame x" and "aff_law e x"
  shows "keep k (migrate_disable_switch e x c p k)"
proof -
  have c: "keep k (set_cpus_allowed_common e p m f k)" for m f
    unfolding set_cpus_allowed_common_def by (rule keep_upd_task) (simp_all add: task_fix_def)
  show ?thesis
    unfolding migrate_disable_switch_def
    using keep_trans [OF c keep_params [OF do_set_cpus_allowed_params [OF assms]]] by simp
qed

lemma schedule_shape:
  assumes "kops_frame x" and "pick_law x" and "idle_wf k" and "this_cpu k \<in> set (cpu_smt_mask x (this_cpu k))"
  shows "\<exists>next k1 v. keep k k1 \<and>
    k__schedule e x m k = schedule_switch e x (this_cpu k) v (current k) next (upd_task next apply_fixed_priority k1)"
proof -
  let ?c = "this_cpu k" and ?prev = "current k"
  define k1 where "k1 = update_rq_clock e x ?c (upd_rq ?c (\<lambda>rq. rq\<lparr>rq_clock_update_flags := push_bit 1 (rq_clock_update_flags rq)\<rparr>) k)"
  define v where "v = (\<not> flag_set m SM_MASK_PREEMPT \<and> t_state (tasks k1 ?prev) \<noteq> 0)"
  define k2 where "k2 = (if v then schedule_block e x ?c ?prev k1 else k1)"
  have "keep k k1" unfolding k1_def by (rule keep_trans [OF keep_upd_rq keep_clock]) simp_all
  also have "keep k1 k2" unfolding k2_def using keep_schedule_block [OF assms(1)] by simp
  finally have k2: "keep k k2" .
  then have wf: "idle_wf k2" using assms(3) keep_sel(7) by simp
  obtain next_task k3 where p: "pick_next_task e x ?c ?prev k2 = Some (next_task, k3)"
    using pick_next_task_some [OF assms(2) wf assms(4)] by (metis option.exhaust surj_pair)
  have k3: "keep k2 k3" using pick_next_task_sound [OF assms(2) wf assms(4) p] by (simp add: keep_stat)
  let ?k4 = "(upd_task ?prev (\<lambda>t. t\<lparr>t_need_resched := False\<rparr>) k3)\<lparr>preempt_need_resched := False\<rparr>"
  have "keep k3 (upd_task ?prev (\<lambda>t. t\<lparr>t_need_resched := False\<rparr>) k3)" by (rule keep_upd_task) (simp_all add: task_fix_def)
  moreover have "keep k (k\<lparr>preempt_need_resched := b\<rparr>)" for k b by (simp add: keep_def is_task_rq_idle_def task_rq_def)
  ultimately have k4: "keep k ?k4" using keep_trans [OF k2 keep_trans [OF k3 keep_trans]] by blast
  have "k__schedule e x m k = schedule_switch e x ?c v ?prev next_task (upd_task next_task apply_fixed_priority ?k4)"
    unfolding k__schedule_def Let_def current_def [symmetric] k1_def [symmetric] v_def [symmetric] k2_def [symmetric] p option.case prod.case
    by (rule refl)
  with k4 show ?thesis by blast
qed

text \<open>The parameters that decide when and for how long a task runs.\<close>

definition prio_of :: "task_struct \<Rightarrow> int \<times> int \<times> int \<times> nat \<times> int \<times> load_weight \<times> int" where
  "prio_of t = (t_static_prio t, t_prio t, t_normal_prio t, t_rt_priority t, t_policy t, se_load (t_se t), t_my_fixed_priority t)"

lemma task_fix_iff: "task_fix t = task_fix t' \<longleftrightarrow> prio_of t = prio_of t' \<and> t_core_cookie t = t_core_cookie t' \<and> t_mm t = t_mm t' \<and>
    t_active_mm t = t_active_mm t' \<and> t_on_cpu t = t_on_cpu t'"
  by (auto simp: task_fix_def prio_of_def)

lemma keep_mmdrop: "keep k k' \<Longrightarrow> keep (mmdrop_sched m k) (mmdrop_sched m k')"
proof -
  have "is_task_rq_idle (mmdrop_sched m k) p = is_task_rq_idle k p" for k p
    by (simp add: mmdrop_sched_def is_task_rq_idle_def task_rq_def)
  then show "keep k k' \<Longrightarrow> ?thesis" by (simp add: keep_def) (simp add: mmdrop_sched_def)
qed

lemma prio_of_upd [simp]: "prio_of (t\<lparr>t_on_cpu := b\<rparr>) = prio_of t" "prio_of (t\<lparr>t_active_mm := mm\<rparr>) = prio_of t"
  by (simp_all add: prio_of_def)

lemma keep_put_dead:
  assumes "switch_law x"
  shows "keep k (put_dead_task x prev (case op_task_dead x s of Some f \<Rightarrow> f prev k | None \<Rightarrow> k))"
proof -
  have "keep k (case op_task_dead x s of Some f \<Rightarrow> f prev k | None \<Rightarrow> k)"
    using assms by (simp add: switch_law_def split: option.split)
  then show ?thesis using assms keep_trans by (simp add: switch_law_def)
qed

lemma finish_task_switch_effect:
  assumes "switch_law x"
  shows "\<exists>k1. (let k2 = finish_task prev (upd_rq (this_cpu k) (\<lambda>rq. rq\<lparr>rq_prev_mm := None\<rparr>) k)
      in k1 = (case rq_prev_mm (rqs k (this_cpu k)) of Some m \<Rightarrow> mmdrop_sched m k2 | None \<Rightarrow> k2)) \<and>
    keep k1 (finish_task_switch x prev k)"
proof -
  let ?c = "this_cpu k"
  let ?drop = "\<lambda>k1. case rq_prev_mm (rqs k ?c) of Some m \<Rightarrow> mmdrop_sched m k1 | None \<Rightarrow> k1"
  define k1 where "k1 = finish_task prev (upd_rq ?c (\<lambda>rq. rq\<lparr>rq_prev_mm := None\<rparr>) k)"
  define k2 where "k2 = ?drop (finish_lock_switch x ?c k1)"
  have "keep k1 (finish_lock_switch x ?c k1)" using assms by (simp add: finish_lock_switch_def switch_law_def)
  then have k2: "keep (?drop k1) k2" by (simp add: k2_def keep_mmdrop split: option.split)
  have "keep k2 (finish_task_switch x prev k)"
    unfolding finish_task_switch_def Let_def k1_def [symmetric] k2_def [symmetric] using keep_put_dead [OF assms] by simp
  then have "keep (?drop k1) (finish_task_switch x prev k)" by (rule keep_trans [OF k2])
  then show ?thesis unfolding k1_def Let_def by blast
qed

text \<open>What a context switch does to the address spaces and to the marks of running tasks.\<close>

definition switch_effect :: "cpu \<Rightarrow> tid \<Rightarrow> tid \<Rightarrow> kernel \<Rightarrow> kernel \<Rightarrow> bool" where
  "switch_effect c prev next k k' \<longleftrightarrow> this_cpu k' = this_cpu k \<and>
     (\<forall>d. rq_curr (rqs k' d) = rq_curr (rqs k d) \<and> rq_prev_mm (rqs k' d) = (if d = c then None else rq_prev_mm (rqs k d)) \<and>
       rq_idle (rqs k' d) = rq_idle (rqs k d)) \<and>
     (\<forall>p. is_task_rq_idle k' p = is_task_rq_idle k p \<and> prio_of (tasks k' p) = prio_of (tasks k p) \<and> t_mm (tasks k' p) = t_mm (tasks k p) \<and>
       t_on_cpu (tasks k' p) = (p = next \<or> p \<noteq> prev \<and> t_on_cpu (tasks k p)) \<and>
       t_active_mm (tasks k' p) =
         (if p = next \<and> t_mm (tasks k next) = None then t_active_mm (tasks k prev)
          else if p = prev \<and> t_mm (tasks k prev) = None then None else t_active_mm (tasks k p))) \<and>
     (\<forall>m. mm_count k' m = mm_count k m
         + (if t_mm (tasks k next) = None \<and> t_mm (tasks k prev) \<noteq> None \<and> t_active_mm (tasks k prev) = Some m then 1 else 0)
         - (if t_mm (tasks k next) \<noteq> None \<and> t_mm (tasks k prev) = None \<and> t_active_mm (tasks k prev) = Some m then 1 else 0))"

lemma switch_mm_effect:
  assumes "prev \<noteq> next" and "rq_prev_mm (rqs k c) = None" and "t_mm (tasks k prev) \<noteq> None \<Longrightarrow> t_active_mm (tasks k prev) \<noteq> None"
  shows "\<exists>k'. switch_mm c prev next k = Some k' \<and> this_cpu k' = this_cpu k \<and>
    (\<forall>d. rq_curr (rqs k' d) = rq_curr (rqs k d) \<and>
       rq_prev_mm (rqs k' d) = (if d = c \<and> t_mm (tasks k next) \<noteq> None \<and> t_mm (tasks k prev) = None then t_active_mm (tasks k prev) else rq_prev_mm (rqs k d)) \<and>
       rq_idle (rqs k' d) = rq_idle (rqs k d)) \<and>
    (\<forall>p. is_task_rq_idle k' p = is_task_rq_idle k p \<and> prio_of (tasks k' p) = prio_of (tasks k p) \<and> t_mm (tasks k' p) = t_mm (tasks k p) \<and> t_on_cpu (tasks k' p) = t_on_cpu (tasks k p) \<and>
       t_active_mm (tasks k' p) =
         (if p = next \<and> t_mm (tasks k next) = None then t_active_mm (tasks k prev)
          else if p = prev \<and> t_mm (tasks k prev) = None then None else t_active_mm (tasks k p))) \<and>
    (\<forall>m. mm_count k' m = mm_count k m
       + (if t_mm (tasks k next) = None \<and> t_mm (tasks k prev) \<noteq> None \<and> t_active_mm (tasks k prev) = Some m then 1 else 0))"
  using assms
  by (cases "t_mm (tasks k next)"; cases "t_mm (tasks k prev)")
    (auto simp: switch_mm_def Let_def mmgrab_def upd_task_def upd_rq_def is_task_rq_idle_def task_rq_def)

lemma context_switch_effect:
  assumes "switch_law x" and "prev \<noteq> next" and "c = this_cpu k" and "rq_prev_mm (rqs k c) = None"
    and "t_mm (tasks k prev) \<noteq> None \<Longrightarrow> t_active_mm (tasks k prev) \<noteq> None"
  shows "\<exists>k'. context_switch e x c prev next k = Some k' \<and> switch_effect c prev next k k'"
proof -
  define k0 where "k0 = prepare_task_switch c prev next k"
  have k0: "this_cpu k0 = this_cpu k" "rqs k0 = rqs k" "mm_count k0 = mm_count k" "t_mm (tasks k0 p) = t_mm (tasks k p)"
    "t_active_mm (tasks k0 p) = t_active_mm (tasks k p)" "prio_of (tasks k0 p) = prio_of (tasks k p)"
    "t_on_cpu (tasks k0 p) = (p = next \<or> t_on_cpu (tasks k p))" "is_task_rq_idle k0 p = is_task_rq_idle k p" for p
    by (simp_all add: k0_def prepare_task_switch_def prepare_task_def upd_task_def is_task_rq_idle_def task_rq_def)
  obtain k1 where k1: "switch_mm c prev next k0 = Some k1" "this_cpu k1 = this_cpu k"
    "\<And>d. rq_curr (rqs k1 d) = rq_curr (rqs k d) \<and>
       rq_prev_mm (rqs k1 d) = (if d = c \<and> t_mm (tasks k next) \<noteq> None \<and> t_mm (tasks k prev) = None then t_active_mm (tasks k prev) else rq_prev_mm (rqs k d)) \<and>
       rq_idle (rqs k1 d) = rq_idle (rqs k d)"
    "\<And>p. is_task_rq_idle k1 p = is_task_rq_idle k p \<and> prio_of (tasks k1 p) = prio_of (tasks k p) \<and> t_mm (tasks k1 p) = t_mm (tasks k p) \<and> t_on_cpu (tasks k1 p) = (p = next \<or> t_on_cpu (tasks k p)) \<and>
       t_active_mm (tasks k1 p) =
         (if p = next \<and> t_mm (tasks k next) = None then t_active_mm (tasks k prev)
          else if p = prev \<and> t_mm (tasks k prev) = None then None else t_active_mm (tasks k p))"
    "\<And>m. mm_count k1 m = mm_count k m
       + (if t_mm (tasks k next) = None \<and> t_mm (tasks k prev) \<noteq> None \<and> t_active_mm (tasks k prev) = Some m then 1 else 0)"
    using switch_mm_effect [OF assms(2), of k0 c] assms(4,5) unfolding k0 by blast
  define k2 where "k2 = clear_skip e c k1"
  have k2: "keep k1 k2" unfolding k2_def clear_skip_def by (rule keep_upd_rq) simp_all
  obtain k3 where k3: "k3 = (case rq_prev_mm (rqs k2 c) of Some m \<Rightarrow> mmdrop_sched m (finish_task prev (upd_rq c (\<lambda>rq. rq\<lparr>rq_prev_mm := None\<rparr>) k2))
      | None \<Rightarrow> finish_task prev (upd_rq c (\<lambda>rq. rq\<lparr>rq_prev_mm := None\<rparr>) k2))" "keep k3 (finish_task_switch x prev k2)"
    using finish_task_switch_effect [OF assms(1), of prev k2] keep_sel(1) [OF k2] k1(2) assms(3) by (auto simp: Let_def)
  have "is_task_rq_idle k3 p = is_task_rq_idle k2 p" for p
    by (simp add: k3(1) mmdrop_sched_def finish_task_def upd_task_def upd_rq_def is_task_rq_idle_def task_rq_def split: option.split)
  then have "switch_effect c prev next k k3"
    using k1(2-5) keep_sel [OF k2] assms(2,4) unfolding switch_effect_def k3(1)
    by (auto simp: mmdrop_sched_def finish_task_def upd_task_def upd_rq_def task_fix_iff split: option.splits if_splits)
  then have "switch_effect c prev next k (finish_task_switch x prev k2)"
    using keep_sel [OF k3(2)] by (simp add: switch_effect_def task_fix_iff)
  then show ?thesis by (simp add: context_switch_def k0_def [symmetric] k1(1) k2_def)
qed

text \<open>What \<open>k__schedule\<close> does to priorities and to the running tasks.\<close>

definition sched_effect :: "tid \<Rightarrow> kernel \<Rightarrow> kernel \<Rightarrow> bool" where
  "sched_effect next k k' \<longleftrightarrow> this_cpu k' = this_cpu k \<and>
     (\<forall>d. rq_curr (rqs k' d) = (if d = this_cpu k then next else rq_curr (rqs k d))) \<and>
     (\<forall>p. prio_of (tasks k' p) = prio_of (if p = next then apply_fixed_priority (tasks k p) else tasks k p))"

text \<open>
  Between switches every running task is marked, no two CPUs run the same task, a user task runs in its own
  address space and a kernel thread in one that it has borrowed.
\<close>

definition switch_wf :: "cpu set \<Rightarrow> kernel \<Rightarrow> bool" where
  "switch_wf S k \<longleftrightarrow> idle_wf k \<and> (\<forall>c. rq_prev_mm (rqs k c) = None) \<and> inj_on (\<lambda>c. rq_curr (rqs k c)) S \<and>
     (\<forall>p. t_on_cpu (tasks k p) \<longleftrightarrow> (\<exists>c \<in> S. rq_curr (rqs k c) = p)) \<and>
     (\<forall>p m. t_mm (tasks k p) = Some m \<longrightarrow> t_active_mm (tasks k p) = Some m) \<and>
     (\<forall>c \<in> S. t_active_mm (tasks k (rq_curr (rqs k c))) \<noteq> None)"

text \<open>The references to an address space that CPUs hold because they run a kernel thread in it.\<close>

definition borrows :: "kernel \<Rightarrow> nat \<Rightarrow> cpu \<Rightarrow> bool" where
  "borrows k m c \<longleftrightarrow> t_mm (tasks k (rq_curr (rqs k c))) = None \<and> t_active_mm (tasks k (rq_curr (rqs k c))) = Some m"

definition lazy_refs :: "cpu set \<Rightarrow> kernel \<Rightarrow> nat \<Rightarrow> int" where
  "lazy_refs S k m = (\<Sum>c \<in> S. of_bool (borrows k m c))"

lemma prio_of_apply: "prio_of t = prio_of t' \<Longrightarrow> prio_of (apply_fixed_priority t) = prio_of (apply_fixed_priority t')"
  by (simp add: prio_of_def apply_fixed_priority_def)

lemma apply_fixed_sel [simp]: "t_mm (apply_fixed_priority t) = t_mm t" "t_active_mm (apply_fixed_priority t) = t_active_mm t"
  "t_on_cpu (apply_fixed_priority t) = t_on_cpu t" "t_cpu (apply_fixed_priority t) = t_cpu t"
  by (simp_all add: apply_fixed_priority_def)

lemma switch_effect_keep:
  assumes "keep k0 k" and "switch_effect c prev next k k'"
  shows "switch_effect c prev next k0 k'"
  using assms(2) keep_sel [OF assms(1)] by (simp add: switch_effect_def task_fix_iff)

lemma schedule_switch_effect:
  assumes "kops_frame x" and "aff_law e x" and "switch_law x" and "keep k k1" and "rq_prev_mm (rqs k (this_cpu k)) = None"
    and "t_mm (tasks k (current k)) \<noteq> None \<Longrightarrow> t_active_mm (tasks k (current k)) \<noteq> None"
  shows "\<exists>k'. schedule_switch e x (this_cpu k) v (current k) next (upd_task next apply_fixed_priority k1) = Some k' \<and> sched_effect next k k' \<and>
    (if next = current k then keep (upd_task next apply_fixed_priority k) k'
     else switch_effect (this_cpu k) (current k) next (upd_rq (this_cpu k) (\<lambda>rq. rq\<lparr>rq_curr := next\<rparr>) (upd_task next apply_fixed_priority k)) k')"
proof -
  let ?c = "this_cpu k" and ?prev = "current k"
  let ?set = "upd_task next apply_fixed_priority" and ?cur = "upd_rq ?c (\<lambda>rq. rq\<lparr>rq_curr := next\<rparr>)"
  have prio: "prio_of (apply_fixed_priority (tasks k1 p)) = prio_of (apply_fixed_priority (tasks k p))" for p
    using keep_sel(5) [OF assms(4)] by (intro prio_of_apply) (simp add: task_fix_iff)
  have idle: "is_task_rq_idle (?set k2) p = is_task_rq_idle k2 p" "is_task_rq_idle (?cur k2) p = is_task_rq_idle k2 p" for k2 p
    by (simp_all add: is_task_rq_idle_def task_rq_def upd_task_def upd_rq_def)
  have k2: "keep (?set k) (?set k1)"
    using keep_sel [OF assms(4)] prio [of "next"] idle(1)
    by (simp add: keep_def task_fix_iff) (simp add: upd_task_def apply_fixed_priority_def)
  show ?thesis
  proof (cases "next = ?prev")
    case True
    let ?k' = "k__balance_callbacks x ?c (clear_skip e ?c (?set k1))"
    have "keep (?set k1) (clear_skip e ?c (?set k1))" unfolding clear_skip_def by (rule keep_upd_rq) simp_all
    then have k': "keep (?set k) ?k'" using assms(3) keep_trans [OF k2 keep_trans] by (auto simp: switch_law_def)
    moreover have "sched_effect next k ?k'"
      using keep_sel [OF k'] True by (auto simp: sched_effect_def task_fix_iff current_def) (auto simp: upd_task_def)
    ultimately show ?thesis using True by (auto simp: schedule_switch_def)
  next
    case False
    define k3 where "k3 = migrate_disable_switch e x ?c ?prev (upd_task ?prev (\<lambda>t. if v then t\<lparr>t_nvcsw := t_nvcsw t + 1\<rparr> else t\<lparr>t_nivcsw := t_nivcsw t + 1\<rparr>)
        (upd_rq ?c (\<lambda>rq. rq\<lparr>rq_nr_switches := rq_nr_switches rq + 1, rq_curr := next\<rparr>) (?set k1)))"
    have "keep (?cur (?set k)) (?cur (?set k1))"
      using k2 idle(2) by (simp add: keep_def) (simp add: upd_rq_def)
    also have "keep (?cur (?set k1)) (upd_rq ?c (\<lambda>rq. rq\<lparr>rq_nr_switches := rq_nr_switches rq + 1, rq_curr := next\<rparr>) (?set k1))"
      by (simp add: keep_def upd_rq_def is_task_rq_idle_def task_rq_def)
    also have "keep \<dots> (upd_task ?prev (\<lambda>t. if v then t\<lparr>t_nvcsw := t_nvcsw t + 1\<rparr> else t\<lparr>t_nivcsw := t_nivcsw t + 1\<rparr>) \<dots>)"
      by (rule keep_upd_task) (simp_all add: task_fix_def)
    also have "keep \<dots> k3" unfolding k3_def by (rule keep_migrate_disable_switch [OF assms(1,2)])
    finally have k3: "keep (?cur (?set k)) k3" .
    have pre: "?c = this_cpu k3" "rq_prev_mm (rqs k3 ?c) = None"
      "t_mm (tasks k3 ?prev) \<noteq> None \<Longrightarrow> t_active_mm (tasks k3 ?prev) \<noteq> None"
      using keep_sel [OF k3] assms(5,6) False by (simp_all add: task_fix_iff) (simp add: upd_rq_def upd_task_def)
    obtain k' where k': "context_switch e x ?c ?prev next k3 = Some k'" "switch_effect ?c ?prev next k3 k'"
      using context_switch_effect [OF assms(3) False [symmetric] pre] by blast
    have eff: "switch_effect ?c ?prev next (?cur (?set k)) k'" by (rule switch_effect_keep [OF k3 k'(2)])
    then have "sched_effect next k k'"
      by (auto simp: sched_effect_def switch_effect_def) (auto simp: upd_rq_def upd_task_def)
    then show ?thesis using False eff k'(1) by (auto simp: schedule_switch_def Let_def k3_def)
  qed
qed

text \<open>
  A call of \<open>k__schedule\<close> never fails, and its effect is that of applying the fixed priority of the next task,
  followed by a context switch if the next task is another one.
\<close>

lemma schedule_effect:
  assumes "kops_frame x" and "pick_law x" and "aff_law e x" and "switch_law x" and "idle_wf k"
    and "this_cpu k \<in> set (cpu_smt_mask x (this_cpu k))" and "rq_prev_mm (rqs k (this_cpu k)) = None"
    and "t_mm (tasks k (current k)) \<noteq> None \<Longrightarrow> t_active_mm (tasks k (current k)) \<noteq> None"
  shows "\<exists>k' next. k__schedule e x m k = Some k' \<and> sched_effect next k k' \<and>
    (if next = current k then keep (upd_task next apply_fixed_priority k) k'
     else switch_effect (this_cpu k) (current k) next (upd_rq (this_cpu k) (\<lambda>rq. rq\<lparr>rq_curr := next\<rparr>) (upd_task next apply_fixed_priority k)) k')"
proof -
  obtain nx k1 v where k1: "keep k k1"
    and eq: "k__schedule e x m k = schedule_switch e x (this_cpu k) v (current k) nx (upd_task nx apply_fixed_priority k1)"
    using schedule_shape [OF assms(1,2,5,6)] by blast
  show ?thesis using schedule_switch_effect [OF assms(1,3,4) k1 assms(7,8), of v nx] unfolding eq by blast
qed

lemma lazy_refs_split: "finite S \<Longrightarrow> c \<in> S \<Longrightarrow> lazy_refs S k m = of_bool (borrows k m c) + (\<Sum>d \<in> S - {c}. of_bool (borrows k m d))"
  unfolding lazy_refs_def by (rule sum.remove)

lemma switch_wf_same:
  assumes "keep (upd_task next apply_fixed_priority k) k'" and "switch_wf S k"
  shows "switch_wf S k'" and "mm_count k' m - lazy_refs S k' m = mm_count k m - lazy_refs S k m"
proof -
  let ?k = "upd_task next apply_fixed_priority k"
  have k: "tasks ?k p = (if p = next then apply_fixed_priority (tasks k p) else tasks k p)" "rqs ?k = rqs k" "mm_count ?k = mm_count k"
    "is_task_rq_idle ?k p = is_task_rq_idle k p" for p
    by (simp_all add: upd_task_def is_task_rq_idle_def task_rq_def)
  then have wf: "idle_wf ?k = idle_wf k" by (simp add: idle_wf_def)
  have t: "t_mm (tasks k' p) = t_mm (tasks k p)" "t_active_mm (tasks k' p) = t_active_mm (tasks k p)"
    "t_on_cpu (tasks k' p) = t_on_cpu (tasks k p)" for p
    using keep_sel(5) [OF assms(1), of p] by (simp_all add: task_fix_iff k)
  show "switch_wf S k'" using assms(2) keep_sel [OF assms(1)] by (simp add: switch_wf_def t k wf)
  show "mm_count k' m - lazy_refs S k' m = mm_count k m - lazy_refs S k m"
    using keep_sel [OF assms(1)] by (simp add: lazy_refs_def borrows_def t k)
qed

lemma switch_wf_switch:
  fixes k nx
  defines "c \<equiv> this_cpu k" and "prev \<equiv> current k"
  assumes "switch_effect c prev nx (upd_rq c (\<lambda>rq. rq\<lparr>rq_curr := nx\<rparr>) (upd_task nx apply_fixed_priority k)) k'"
    and "switch_wf S k" and "finite S" and "c \<in> S" and "nx \<noteq> prev" and "\<forall>d \<in> S - {c}. rq_curr (rqs k d) \<noteq> nx"
  shows "switch_wf S k'" and "mm_count k' m - lazy_refs S k' m = mm_count k m - lazy_refs S k m"
proof -
  let ?k = "upd_rq c (\<lambda>rq. rq\<lparr>rq_curr := nx\<rparr>) (upd_task nx apply_fixed_priority k)"
  have k: "tasks ?k p = (if p = nx then apply_fixed_priority (tasks k p) else tasks k p)" "rqs ?k d = (if d = c then (rqs k c)\<lparr>rq_curr := nx\<rparr> else rqs k d)"
    "mm_count ?k = mm_count k" "is_task_rq_idle ?k p = is_task_rq_idle k p" for p d
    by (simp_all add: upd_task_def upd_rq_def is_task_rq_idle_def task_rq_def)
  have cur: "rq_curr (rqs k' d) = (if d = c then nx else rq_curr (rqs k d))" for d
    using assms(3) unfolding switch_effect_def k by simp
  have t: "t_mm (tasks k' p) = t_mm (tasks k p)" "t_on_cpu (tasks k' p) = (p = nx \<or> p \<noteq> prev \<and> t_on_cpu (tasks k p))"
    "t_active_mm (tasks k' p) = (if p = nx \<and> t_mm (tasks k nx) = None then t_active_mm (tasks k prev)
      else if p = prev \<and> t_mm (tasks k prev) = None then None else t_active_mm (tasks k p))" for p
    using assms(3,7) unfolding switch_effect_def k by simp_all
  have count: "mm_count k' m = mm_count k m
      + (if t_mm (tasks k nx) = None \<and> t_mm (tasks k prev) \<noteq> None \<and> t_active_mm (tasks k prev) = Some m then 1 else 0)
      - (if t_mm (tasks k nx) \<noteq> None \<and> t_mm (tasks k prev) = None \<and> t_active_mm (tasks k prev) = Some m then 1 else 0)"
    using assms(3,7) unfolding switch_effect_def k by simp
  have "rq_idle (rqs k' d) = rq_idle (rqs k d)" "is_task_rq_idle k' p = is_task_rq_idle k p" for d p
    using assms(3) by (cases "d = c"; simp add: switch_effect_def k(2,4))+
  moreover have "rq_prev_mm (rqs k' d) = (if d = c then None else rq_prev_mm (rqs k d))" for d
    using assms(3) by (simp add: switch_effect_def k(2))
  ultimately have wf: "idle_wf k' = idle_wf k" "\<And>d. rq_prev_mm (rqs k' d) = (if d = c then None else rq_prev_mm (rqs k d))"
    by (simp_all add: idle_wf_def)
  have prev: "prev = rq_curr (rqs k c)" by (simp add: prev_def c_def current_def)
  have other: "rq_curr (rqs k d) \<noteq> prev" "rq_curr (rqs k d) \<noteq> nx" if "d \<in> S" "d \<noteq> c" for d
    using that assms(4,6,8) by (auto simp: switch_wf_def prev dest: inj_onD)
  have mm: "t_mm (tasks k p) = Some n \<Longrightarrow> t_active_mm (tasks k p) = Some n" for p n using assms(4) by (simp add: switch_wf_def)
  have act: "t_active_mm (tasks k (rq_curr (rqs k d))) \<noteq> None" if "d \<in> S" for d using assms(4) that by (simp add: switch_wf_def)
  have inj: "inj_on (\<lambda>d. rq_curr (rqs k' d)) S"
    using assms(4) other by (auto simp: switch_wf_def inj_on_def cur)
  have on: "t_on_cpu (tasks k' p) \<longleftrightarrow> (\<exists>d \<in> S. rq_curr (rqs k' d) = p)" for p
  proof -
    have "(\<exists>d \<in> S. rq_curr (rqs k' d) = p) \<longleftrightarrow> p = nx \<or> (\<exists>d \<in> S - {c}. rq_curr (rqs k d) = p)"
      using assms(6) by (auto simp: cur)
    moreover have "t_on_cpu (tasks k p) \<longleftrightarrow> (\<exists>d \<in> S. rq_curr (rqs k d) = p)" using assms(4) by (simp add: switch_wf_def)
    ultimately show ?thesis using other prev by (auto simp: t(2))
  qed
  have user: "t_active_mm (tasks k' p) = Some n" if "t_mm (tasks k' p) = Some n" for p n
    using that mm [of p n] by (auto simp: t)
  have active: "t_active_mm (tasks k' (rq_curr (rqs k' d))) \<noteq> None" if "d \<in> S" for d
    using that act [of d] act [OF assms(6)] other [of d] mm [of nx] assms(7)
    by (cases "t_mm (tasks k nx)") (auto simp: cur t(3) prev)
  show "switch_wf S k'"
    using assms(4) inj on user active by (simp add: switch_wf_def wf)
  have "borrows k' m d = borrows k m d" if "d \<in> S - {c}" for d
    using that other [of d] by (simp add: borrows_def cur t)
  then have "(\<Sum>d \<in> S - {c}. of_bool (borrows k' m d)) = (\<Sum>d \<in> S - {c}. (of_bool (borrows k m d) :: int))"
    by (intro sum.cong) simp_all
  moreover have "mm_count k' m - of_bool (borrows k' m c) = mm_count k m - of_bool (borrows k m c)"
    using mm [of nx] assms(7) act [OF assms(6)] by (auto simp: borrows_def cur t prev [symmetric] count)
  ultimately show "mm_count k' m - lazy_refs S k' m = mm_count k m - lazy_refs S k m"
    by (simp add: lazy_refs_split [OF assms(5,6)])
qed

text \<open>
  Steps of the scheduler: some CPU calls \<open>k__schedule\<close> and gets a task that does not run elsewhere, or something
  else happens that neither switches tasks nor changes what \<open>keep\<close> compares.
\<close>

inductive sched_step :: "kenv \<Rightarrow> kops \<Rightarrow> cpu set \<Rightarrow> kernel \<Rightarrow> kernel \<Rightarrow> bool" for e x S where
  switch: "c \<in> S \<Longrightarrow> k__schedule e x m (k\<lparr>this_cpu := c\<rparr>) = Some k' \<Longrightarrow>
    \<forall>d \<in> S - {c}. rq_curr (rqs k d) \<noteq> current k' \<Longrightarrow> sched_step e x S k k'"
| other: "keep k k' \<Longrightarrow> sched_step e x S k k'"

lemma sched_step_wf:
  assumes "kops_frame x" and "pick_law x" and "aff_law e x" and "switch_law x" and "finite S"
    and "\<And>c. c \<in> S \<Longrightarrow> c \<in> set (cpu_smt_mask x c)" and "sched_step e x S k k'" and "switch_wf S k"
  shows "switch_wf S k' \<and> mm_count k' m - lazy_refs S k' m = mm_count k m - lazy_refs S k m"
  using assms(7)
proof cases
  case (switch c sm)
  let ?k = "k\<lparr>this_cpu := c\<rparr>"
  have wf: "switch_wf S ?k" "lazy_refs S ?k m = lazy_refs S k m"
    using assms(8) by (simp_all add: switch_wf_def lazy_refs_def borrows_def idle_wf_def is_task_rq_idle_def task_rq_def)
  have pre: "idle_wf ?k" "this_cpu ?k \<in> set (cpu_smt_mask x (this_cpu ?k))" "rq_prev_mm (rqs ?k (this_cpu ?k)) = None"
    "t_mm (tasks ?k (current ?k)) \<noteq> None \<Longrightarrow> t_active_mm (tasks ?k (current ?k)) \<noteq> None"
    using wf(1) assms(6) [OF switch(1)] by (auto simp: switch_wf_def)
  obtain k'' nx where k'': "k__schedule e x sm ?k = Some k''" "sched_effect nx ?k k''"
    "if nx = current ?k then keep (upd_task nx apply_fixed_priority ?k) k''
     else switch_effect (this_cpu ?k) (current ?k) nx (upd_rq (this_cpu ?k) (\<lambda>rq. rq\<lparr>rq_curr := nx\<rparr>) (upd_task nx apply_fixed_priority ?k)) k''"
    using schedule_effect [OF assms(1-4) pre, of sm] by blast
  then have eq: "k'' = k'" using switch(2) by simp
  have "current k' = nx" using k''(2) by (simp add: sched_effect_def current_def eq)
  then have free: "\<forall>d \<in> S - {c}. rq_curr (rqs ?k d) \<noteq> nx" using switch(3) by simp
  show ?thesis
  proof (cases "nx = current ?k")
    case True
    then have "keep (upd_task nx apply_fixed_priority ?k) k'" using k''(3) eq by simp
    then show ?thesis using switch_wf_same [OF _ wf(1)] by (simp add: wf(2))
  next
    case False
    then have "switch_effect (this_cpu ?k) (current ?k) nx (upd_rq (this_cpu ?k) (\<lambda>rq. rq\<lparr>rq_curr := nx\<rparr>) (upd_task nx apply_fixed_priority ?k)) k'"
      using k''(3) eq by simp
    from switch_wf_switch [OF this wf(1) assms(5) _ False] free switch(1) show ?thesis by (simp add: wf(2))
  qed
next
  case other
  have t: "t_mm (tasks k' p) = t_mm (tasks k p)" "t_active_mm (tasks k' p) = t_active_mm (tasks k p)"
    "t_on_cpu (tasks k' p) = t_on_cpu (tasks k p)" for p
    using keep_sel(5) [OF other, of p] by (simp_all add: task_fix_iff)
  then show ?thesis using assms(8) keep_sel [OF other] by (simp add: switch_wf_def lazy_refs_def borrows_def)
qed

lemma sched_steps_wf:
  assumes "kops_frame x" and "pick_law x" and "aff_law e x" and "switch_law x" and "finite S"
    and "\<And>c. c \<in> S \<Longrightarrow> c \<in> set (cpu_smt_mask x c)" and "(sched_step e x S)\<^sup>*\<^sup>* k k'" and "switch_wf S k"
  shows "switch_wf S k' \<and> mm_count k' m - lazy_refs S k' m = mm_count k m - lazy_refs S k m"
  using assms(7)
proof (induction rule: rtranclp_induct)
  case base
  then show ?case using assms(8) by simp
next
  case (step k1 k2)
  then show ?case using sched_step_wf [OF assms(1-6), of k1 k2 m] by simp
qed

lemma lazy_refs_pos: "finite S \<Longrightarrow> c \<in> S \<Longrightarrow> borrows k m c \<Longrightarrow> lazy_refs S k m \<ge> 1"
  by (simp add: lazy_refs_split [of S c])

text \<open>
  C32.  Lazy address spaces are never freed in use.  Kernel threads run in the address space of the task before
  them, and the context switch takes a reference for each CPU that starts to do so and drops it when the CPU
  returns to a user task.  In every state that the scheduler reaches from one where the counters cover the
  CPUs that borrow an address space, they still do, so an address space that some CPU uses has a reference;
  the references held by everyone else are neither lost nor invented.
\<close>

theorem lazy_mm_refcount:
  assumes "kops_frame x" and "pick_law x" and "aff_law e x" and "switch_law x" and "finite S"
    and "\<And>c. c \<in> S \<Longrightarrow> c \<in> set (cpu_smt_mask x c)" and "(sched_step e x S)\<^sup>*\<^sup>* k k'" and "switch_wf S k"
    and "\<And>m. lazy_refs S k m \<le> mm_count k m"
  shows "switch_wf S k' \<and> (\<forall>m. mm_count k' m - lazy_refs S k' m = mm_count k m - lazy_refs S k m \<and>
    (\<forall>c \<in> S. borrows k' m c \<longrightarrow> mm_count k' m \<ge> 1))"
proof -
  have wf: "switch_wf S k'" and eq: "mm_count k' m - lazy_refs S k' m = mm_count k m - lazy_refs S k m" for m
    using sched_steps_wf [OF assms(1-8), of m] by simp_all
  have "mm_count k' m \<ge> 1" if "c \<in> S" "borrows k' m c" for c m
    using lazy_refs_pos [OF assms(5) that] eq [of m] assms(9) [of m] by linarith
  then show ?thesis using wf eq by blast
qed

text \<open>One call of \<open>k__schedule\<close> under the laws.\<close>

lemma schedule_sched_effect:
  assumes "kops_frame x" and "pick_law x" and "aff_law e x" and "switch_law x" and "switch_wf S k"
    and "this_cpu k \<in> set (cpu_smt_mask x (this_cpu k))"
  shows "\<exists>k'. k__schedule e x m k = Some k' \<and> sched_effect (current k') k k'"
proof -
  have "idle_wf k" "rq_prev_mm (rqs k (this_cpu k)) = None" "t_mm (tasks k (current k)) \<noteq> None \<Longrightarrow> t_active_mm (tasks k (current k)) \<noteq> None"
    using assms(5) by (auto simp: switch_wf_def)
  from schedule_effect [OF assms(1-4) this(1) assms(6) this(2-3), of m]
  obtain k' nx where k': "k__schedule e x m k = Some k'" "sched_effect nx k k'" by blast
  then have "current k' = nx" by (simp add: sched_effect_def current_def)
  with k' show ?thesis by blast
qed

text \<open>
  C2.  The fixed priority of the project.  Each call of \<^verbatim>\<open>__schedule\<close> returns, makes some task the current one of the
  CPU and, if that task has a fixed priority between 101 and 139 and its static priority is not 0, stores the
  fixed priority as its static priority.  Nothing else about priorities changes, for this task or for any other: its
  effective and normal priority, its real time priority, its policy and the load weight that the fair class
  divides time by are what they were.
\<close>

theorem schedule_fixed_priority:
  assumes "kops_frame x" and "pick_law x" and "aff_law e x" and "switch_law x" and "switch_wf S k"
    and "this_cpu k \<in> set (cpu_smt_mask x (this_cpu k))"
  shows "\<exists>k'. k__schedule e x m k = Some k' \<and>
    (let old = tasks k (current k'); new = tasks k' (current k')
     in t_static_prio new = (if t_static_prio old \<noteq> 0 \<and> t_my_fixed_priority old \<in> {101..139} then t_my_fixed_priority old else t_static_prio old) \<and>
        t_prio new = t_prio old \<and> t_normal_prio new = t_normal_prio old \<and> t_rt_priority new = t_rt_priority old \<and>
        t_policy new = t_policy old \<and> se_load (t_se new) = se_load (t_se old) \<and> t_my_fixed_priority new = t_my_fixed_priority old) \<and>
    (\<forall>p. p = current k' \<or> prio_of (tasks k' p) = prio_of (tasks k p))"
  using schedule_sched_effect [OF assms, of m] by (auto simp: sched_effect_def Let_def prio_of_def apply_fixed_priority_def)

subsection \<open>Setting a fixed priority\<close>

definition worker_law :: "kops \<Rightarrow> bool" where
  "worker_law x \<longleftrightarrow> (\<forall>p k. keep k (wq_worker_sleeping x p k) \<and> keep k (io_wq_worker_sleeping x p k) \<and>
     keep k (wq_worker_running x p k) \<and> keep k (io_wq_worker_running x p k) \<and> keep k (blk_flush_plug x p k))"

text \<open>
  How a task that gave up the CPU in a state goes on in another: it is picked by some later call of
  \<open>k__schedule\<close>, and nobody changed its priorities in between.
\<close>

definition resumes :: "kenv \<Rightarrow> kops \<Rightarrow> cpu set \<Rightarrow> tid \<Rightarrow> kernel \<Rightarrow> kernel \<Rightarrow> bool" where
  "resumes e x S p k k' \<longleftrightarrow> (\<exists>k1 k2 m. switch_wf S k1 \<and> this_cpu k1 \<in> S \<and> prio_of (tasks k1 p) = prio_of (tasks k p) \<and>
     k__schedule e x m k1 = Some k2 \<and> current k2 = p \<and> keep k2 k')"

lemma keep_submit_work: "worker_law x \<Longrightarrow> keep k (sched_submit_work x p k)"
proof -
  assume w: "worker_law x"
  let ?k1 = "if flag_set (t_flags (tasks k p)) (PF_WQ_WORKER OR PF_IO_WORKER)
    then if flag_set (t_flags (tasks k p)) PF_WQ_WORKER then wq_worker_sleeping x p k else io_wq_worker_sleeping x p k else k"
  have k1: "keep k ?k1" using w by (simp add: worker_law_def)
  moreover have "keep k (blk_flush_plug x p ?k1)" by (rule keep_trans [OF k1]) (use w in \<open>simp add: worker_law_def\<close>)
  ultimately show ?thesis unfolding sched_submit_work_def Let_def by simp
qed

lemma keep_update_worker: "worker_law x \<Longrightarrow> keep k (sched_update_worker x p k)"
  by (simp add: sched_update_worker_def worker_law_def)

lemma keep_switch_wf: "keep k k' \<Longrightarrow> switch_wf S k' = switch_wf S k"
  using keep_sel [of k k'] by (simp add: switch_wf_def task_fix_iff)

lemma schedule_returns:
  assumes "kops_frame x" and "pick_law x" and "aff_law e x" and "switch_law x" and "worker_law x" and "switch_wf S k"
    and "this_cpu k \<in> S" and "\<And>c. c \<in> S \<Longrightarrow> c \<in> set (cpu_smt_mask x c)"
    and "\<And>k1. k__schedule e x SM_NONE (sched_submit_work x (current k) k) = Some k1 \<Longrightarrow> current k1 \<noteq> current k \<Longrightarrow>
      resumes e x S (current k) k1 (sw (current k) k1)"
    and "\<And>k1. schedule_once e x sw SM_NONE (sched_submit_work x (current k) k) = Some k1 \<Longrightarrow> \<not> need_resched k1"
  shows "\<exists>k'. schedule e x sw k = Some k' \<and> prio_of (tasks k' (current k)) = prio_of (apply_fixed_priority (tasks k (current k)))"
proof -
  let ?p = "current k"
  define k0 where "k0 = sched_submit_work x ?p k"
  have k0: "keep k k0" unfolding k0_def by (rule keep_submit_work [OF assms(5)])
  have wf0: "switch_wf S k0" "this_cpu k0 \<in> set (cpu_smt_mask x (this_cpu k0))" "current k0 = ?p"
    using keep_switch_wf [OF k0] keep_sel [OF k0] assms(6,7,8) by simp_all
  obtain k1 where k1: "k__schedule e x SM_NONE k0 = Some k1" "sched_effect (current k1) k0 k1"
    using schedule_sched_effect [OF assms(1-4) wf0(1,2)] by blast
  define k2 where "k2 = (if current k1 = ?p then k1 else sw ?p k1)"
  have once: "schedule_once e x sw SM_NONE k0 = Some k2" by (simp add: schedule_once_def k1(1) wf0(3) k2_def)
  have p0: "prio_of (tasks k0 ?p) = prio_of (tasks k ?p)" using keep_sel(5) [OF k0] by (simp add: task_fix_iff)
  have "prio_of (tasks k2 ?p) = prio_of (apply_fixed_priority (tasks k ?p))"
  proof (cases "current k1 = ?p")
    case True
    then show ?thesis using k1(2) prio_of_apply [OF p0] by (simp add: sched_effect_def k2_def)
  next
    case False
    then obtain k3 k4 m where r: "switch_wf S k3" "this_cpu k3 \<in> S" "prio_of (tasks k3 ?p) = prio_of (tasks k1 ?p)"
      "k__schedule e x m k3 = Some k4" "current k4 = ?p" "keep k4 (sw ?p k1)"
      using assms(9) k1(1) by (auto simp: k0_def resumes_def)
    have "prio_of (tasks k3 ?p) = prio_of (tasks k ?p)" using k1(2) False p0 r(3) by (auto simp: sched_effect_def)
    moreover have "prio_of (tasks k4 ?p) = prio_of (apply_fixed_priority (tasks k3 ?p))"
      using schedule_sched_effect [OF assms(1-4) r(1) assms(8) [OF r(2)], of m] r(4,5) by (auto simp: sched_effect_def)
    ultimately show ?thesis
      using keep_sel(5) [OF r(6), of ?p] prio_of_apply [of "tasks k3 ?p" "tasks k ?p"] False by (simp add: k2_def task_fix_iff)
  qed
  moreover have "keep k2 (sched_update_worker x ?p k2)" by (rule keep_update_worker [OF assms(5)])
  moreover have "schedule_loop e x sw SM_NONE k0 = Some k2"
    using once assms(10) [folded k0_def] by (simp add: schedule_loop.simps [of e x sw SM_NONE k0])
  ultimately show ?thesis
    using keep_sel(5) [of k2 "sched_update_worker x ?p k2" ?p] by (simp add: schedule_def Let_def k0_def [symmetric] task_fix_iff)
qed

text \<open>
  C3.  The system call of the project.  A priority outside 101..139 is refused with the result 0 and changes nothing.
  Otherwise the call gives up the CPU and, when the task runs again, returns 1 with the priority stored as its
  fixed and as its static priority, and logs it together with the nice value that it corresponds to.  The call
  changes neither the effective nor the normal priority nor the load weight of the task.
\<close>

theorem my_set_process_priority_effect:
  fixes e x sw priority k
  defines "task \<equiv> current k"
  defines "k0 \<equiv> sched_submit_work x task (upd_task task (\<lambda>t. t\<lparr>t_my_fixed_priority := priority\<rparr>) k)"
  assumes "prio_h e" and "kops_frame x" and "pick_law x" and "aff_law e x" and "switch_law x" and "worker_law x" and "switch_wf S k"
    and "this_cpu k \<in> S" and "\<And>c. c \<in> S \<Longrightarrow> c \<in> set (cpu_smt_mask x c)" and "t_static_prio (tasks k task) \<noteq> 0"
    and "\<And>k1. k__schedule e x SM_NONE k0 = Some k1 \<Longrightarrow> current k1 \<noteq> task \<Longrightarrow> resumes e x S task k1 (sw task k1)"
    and "\<And>k1. schedule_once e x sw SM_NONE k0 = Some k1 \<Longrightarrow> \<not> need_resched k1"
  shows "if priority \<in> {101..139}
    then \<exists>comm pid vruntime k'.
      my_set_process_priority e x sw priority k = Some (1, [(comm, pid, priority, priority, priority - 120, vruntime)], k') \<and>
      t_my_fixed_priority (tasks k' task) = priority \<and> t_static_prio (tasks k' task) = priority \<and>
      t_prio (tasks k' task) = t_prio (tasks k task) \<and> t_normal_prio (tasks k' task) = t_normal_prio (tasks k task) \<and>
      se_load (t_se (tasks k' task)) = se_load (t_se (tasks k task))
    else my_set_process_priority e x sw priority k = Some (0, [], k)"
proof (cases "priority \<in> {101..139}")
  case True
  let ?k = "upd_task task (\<lambda>t. t\<lparr>t_my_fixed_priority := priority\<rparr>) k"
  have cur: "current ?k = task" by (simp add: task_def current_def upd_task_def)
  have idle: "is_task_rq_idle ?k q = is_task_rq_idle k q" for q by (simp add: is_task_rq_idle_def task_rq_def)
  have wf: "switch_wf S ?k" using assms(9) by (auto simp: switch_wf_def idle_wf_def idle)
  have this_cpu: "this_cpu ?k \<in> S" using assms(10) by (simp add: upd_task_def)
  obtain k' where k': "schedule e x sw ?k = Some k'" "prio_of (tasks k' task) = prio_of (apply_fixed_priority (tasks ?k task))"
    using schedule_returns [where sw = sw, OF assms(4-8) wf this_cpu assms(11), unfolded cur, folded k0_def] assms(13,14) by blast
  have "prio_of (tasks k' task) = prio_of ((tasks k task)\<lparr>t_my_fixed_priority := priority, t_static_prio := priority\<rparr>)"
    using k'(2) True assms(12) by (simp add: apply_fixed_priority_def)
  then show ?thesis
    using True k'(1) by (simp add: my_set_process_priority_def Let_def task_def [symmetric] prio_of_def task_nice_def prio_h.PRIO_TO_NICE [OF assms(3)])
next
  case False
  then show ?thesis by (auto simp: my_set_process_priority_def)
qed

subsection \<open>A concrete machine\<close>

text \<open>One CPU that runs task 2, a user task, and whose idle task is 9; with \<open>plain_kops\<close> the idle task is always picked.\<close>

definition sample_sched_kernel :: "tid \<Rightarrow> kernel" where
  "sample_sched_kernel idle = zero_kernel\<lparr>tasks := (\<lambda>p. zero_task\<lparr>t_static_prio := 120, t_prio := 120, t_normal_prio := 120,
       t_my_fixed_priority := 110, t_on_cpu := (p = 2), t_mm := (if p = 2 then Some 5 else None),
       t_active_mm := (if p = 2 then Some 5 else None)\<rparr>),
     rqs := (\<lambda>_. zero_rq\<lparr>rq_curr := 2, rq_idle := idle\<rparr>), mm_count := (\<lambda>m. if m = 5 then 1 else 0)\<rparr>"

lemma sample_sched_wf: "switch_wf {0} (sample_sched_kernel i)" "this_cpu (sample_sched_kernel i) = 0" "current (sample_sched_kernel i) = 2"
  by (auto simp: switch_wf_def sample_sched_kernel_def zero_defs idle_wf_def is_task_rq_idle_def task_rq_def current_def)

lemma plain_laws: "pick_law plain_kops" "switch_law plain_kops" "worker_law plain_kops" "c \<in> set (cpu_smt_mask plain_kops c)"
  by (auto simp: pick_law_def switch_law_def worker_law_def plain_kops_def find_Some_iff)

lemma plain_pick_ops: "op_balance plain_kops s c p k = (False, k)" "op_put_prev_task plain_kops s c p k = k"
  "op_pick_next_task plain_kops s c k = (if s = idle_sched_class then Some (rq_idle (rqs k c)) else None, k)"
  "pick_next_task_fair plain_kops c p k = (No_task, k)" "pick_next_task_idle plain_kops c k = (rq_idle (rqs k c), k)"
  by (simp_all add: plain_kops_def)

lemma plain_pick_idle: "k__pick_next_task plain_kops c prev k = Some (rq_idle (rqs k c), k)"
proof -
  have "balance_classes plain_kops c p ss k = k" for p ss k by (induction ss) (simp_all add: plain_pick_ops)
  then show ?thesis
    by (simp add: k__pick_next_task_def pick_slow_def put_prev_task_balance_def put_prev_task_def sched_classes_def plain_pick_ops)
qed

lemma plain_schedule:
  assumes "switch_wf {0} k" and "this_cpu k = 0" and "\<not> k__sched_core_enabled k" and "flag_set m SM_MASK_PREEMPT \<or> t_state (tasks k (current k)) = 0"
  shows "\<exists>k'. k__schedule kenv_v5_17 plain_kops m k = Some k' \<and> sched_effect (rq_idle (rqs k 0)) k k'"
proof -
  define k1 where "k1 = update_rq_clock kenv_v5_17 plain_kops 0 (upd_rq 0 (\<lambda>rq. rq\<lparr>rq_clock_update_flags := push_bit 1 (rq_clock_update_flags rq)\<rparr>) k)"
  have k1: "keep k k1" unfolding k1_def by (rule keep_trans [OF keep_upd_rq keep_clock]) simp_all
  have t: "tasks k1 = tasks k" "k__sched_core_enabled k1 = k__sched_core_enabled k"
    by (simp_all add: k1_def update_rq_clock_def update_rq_clock_task_def Let_def upd_rq_def case_prod_unfold)
  let ?k2 = "(upd_task (current k) (\<lambda>t. t\<lparr>t_need_resched := False\<rparr>) k1)\<lparr>preempt_need_resched := False\<rparr>"
  have "keep k1 (upd_task (current k) (\<lambda>t. t\<lparr>t_need_resched := False\<rparr>) k1)" by (rule keep_upd_task) (simp_all add: task_fix_def)
  also have "keep \<dots> ?k2" by (simp add: keep_def is_task_rq_idle_def task_rq_def)
  finally have k2: "keep k ?k2" by (rule keep_trans [OF k1])
  have "k__schedule kenv_v5_17 plain_kops m k =
      schedule_switch kenv_v5_17 plain_kops (this_cpu k) False (current k) (rq_idle (rqs k 0)) (upd_task (rq_idle (rqs k 0)) apply_fixed_priority ?k2)"
    using assms(3,4) keep_sel(8) [OF k1, of 0]
    unfolding k__schedule_def Let_def assms(2) k1_def [symmetric] current_def [symmetric]
    by (auto simp: t pick_next_task_def sched_core_enabled_def plain_pick_idle current_def assms(2))
  moreover have "rq_prev_mm (rqs k (this_cpu k)) = None" "t_mm (tasks k (current k)) \<noteq> None \<Longrightarrow> t_active_mm (tasks k (current k)) \<noteq> None"
    using assms(1) by (auto simp: switch_wf_def)
  ultimately show ?thesis using schedule_switch_effect [OF plain_kops_frame plain_aff_law plain_laws(2) k2] by metis
qed

theorem schedule_fixed_priority_witness:
  "\<exists>k'. k__schedule kenv_v5_17 plain_kops SM_PREEMPT (sample_sched_kernel 9) = Some k' \<and>
    t_static_prio (tasks k' (current k')) = 110 \<and> t_prio (tasks k' (current k')) = 120"
proof -
  have "t_static_prio (tasks (sample_sched_kernel 9) p) = 120 \<and> t_my_fixed_priority (tasks (sample_sched_kernel 9) p) = 110 \<and>
      t_prio (tasks (sample_sched_kernel 9) p) = 120" for p by (simp add: sample_sched_kernel_def)
  then show ?thesis
    using schedule_fixed_priority [OF plain_kops_frame plain_laws(1) plain_aff_law plain_laws(2) sample_sched_wf(1) plain_laws(4), of SM_PREEMPT 9]
    by (auto simp: Let_def)
qed

theorem lazy_mm_refcount_witness:
  "\<exists>k'. sched_step kenv_v5_17 plain_kops {0} (sample_sched_kernel 9) k' \<and> current k' = 9 \<and>
    switch_wf {0} k' \<and> mm_count k' 5 - lazy_refs {0} k' 5 = 1"
proof -
  let ?k = "sample_sched_kernel 9"
  have "?k\<lparr>this_cpu := 0\<rparr> = ?k" by (simp add: sample_sched_kernel_def zero_defs)
  moreover obtain k' where k': "k__schedule kenv_v5_17 plain_kops SM_PREEMPT ?k = Some k'" "sched_effect 9 ?k k'"
    using plain_schedule [OF sample_sched_wf(1,2), of 9 SM_PREEMPT]
    by (auto simp: sample_sched_kernel_def zero_kernel_def flag_set_def SM_PREEMPT_def SM_MASK_PREEMPT_def)
  ultimately have step: "sched_step kenv_v5_17 plain_kops {0} ?k k'" using sched_step.switch [of 0 "{0}" kenv_v5_17 plain_kops SM_PREEMPT ?k k'] by simp
  have refs: "lazy_refs {0} ?k m \<le> mm_count ?k m" "mm_count ?k 5 - lazy_refs {0} ?k 5 = 1" for m
    by (simp_all add: lazy_refs_def borrows_def sample_sched_kernel_def)
  have "switch_wf {0} k' \<and> mm_count k' 5 - lazy_refs {0} k' 5 = 1"
    using lazy_mm_refcount [where e = kenv_v5_17 and x = plain_kops and S = "{0}" and k = ?k and k' = k', OF plain_kops_frame plain_laws(1) plain_aff_law plain_laws(2) _ plain_laws(4) _ sample_sched_wf(1) refs(1)]
      r_into_rtranclp [where r = "sched_step kenv_v5_17 plain_kops {0}", OF step] refs(2) by simp
  moreover have "current k' = 9" using k'(2) by (simp add: sched_effect_def current_def sample_sched_wf(2))
  ultimately show ?thesis using step by blast
qed

text \<open>Task 2 runs again when a CPU has nothing but it to run.\<close>

definition sample_resume :: resume where
  "sample_resume p k = upd_task p (\<lambda>t. t\<lparr>t_need_resched := False\<rparr>) (the (k__schedule kenv_v5_17 plain_kops SM_PREEMPT
     ((sample_sched_kernel 2)\<lparr>tasks := (\<lambda>q. (tasks k p)\<lparr>t_on_cpu := (q = 2), t_cpu := 0, t_mm := None, t_active_mm := Some 5\<rparr>)\<rparr>)))"

lemma sample_resume_law: "resumes kenv_v5_17 plain_kops {0} 2 k (sample_resume 2 k)" "\<not> need_resched (sample_resume 2 k)"
proof -
  let ?k1 = "(sample_sched_kernel 2)\<lparr>tasks := (\<lambda>q. (tasks k 2)\<lparr>t_on_cpu := (q = 2), t_cpu := 0, t_mm := None, t_active_mm := Some 5\<rparr>)\<rparr>"
  have wf: "switch_wf {0} ?k1" "this_cpu ?k1 = 0" "\<not> k__sched_core_enabled ?k1"
    by (auto simp: switch_wf_def sample_sched_kernel_def zero_defs idle_wf_def is_task_rq_idle_def task_rq_def)
  obtain k2 where k2: "k__schedule kenv_v5_17 plain_kops SM_PREEMPT ?k1 = Some k2" "sched_effect 2 ?k1 k2"
    using plain_schedule [OF wf, of SM_PREEMPT] by (auto simp: sample_sched_kernel_def flag_set_def SM_PREEMPT_def SM_MASK_PREEMPT_def)
  have cur: "current k2 = 2" using k2(2) by (simp add: sched_effect_def current_def wf(2))
  have eq: "sample_resume 2 k = upd_task 2 (\<lambda>t. t\<lparr>t_need_resched := False\<rparr>) k2" by (simp add: sample_resume_def k2(1))
  have "keep k2 (sample_resume 2 k)" unfolding eq by (rule keep_upd_task) (simp_all add: task_fix_def)
  moreover have "prio_of (tasks ?k1 2) = prio_of (tasks k 2)" by (simp add: prio_of_def)
  ultimately show "resumes kenv_v5_17 plain_kops {0} 2 k (sample_resume 2 k)"
    unfolding resumes_def using wf(1,2) k2(1) cur by (intro exI [of _ ?k1] exI [of _ k2] exI [of _ SM_PREEMPT]) simp
  show "\<not> need_resched (sample_resume 2 k)" using cur by (simp add: need_resched_def eq current_def upd_task_def)
qed

theorem my_set_process_priority_effect_witness:
  "\<exists>comm pid vruntime k'. my_set_process_priority kenv_v5_17 plain_kops sample_resume 130 (sample_sched_kernel 9) =
      Some (1, [(comm, pid, 130, 130, 10, vruntime)], k') \<and> t_static_prio (tasks k' 2) = 130 \<and> t_prio (tasks k' 2) = 120"
proof -
  let ?k = "sample_sched_kernel 9"
  let ?k1 = "upd_task 2 (\<lambda>t. t\<lparr>t_my_fixed_priority := 130\<rparr>) ?k"
  have k0: "sched_submit_work plain_kops 2 ?k1 = ?k1"
    by (simp add: sched_submit_work_def task_is_running_def sample_sched_kernel_def zero_defs TASK_RUNNING_def)
  have "switch_wf {0} ?k1 \<and> this_cpu ?k1 = 0 \<and> \<not> k__sched_core_enabled ?k1 \<and> current ?k1 = 2 \<and> t_state (tasks ?k1 (current ?k1)) = 0 \<and> rq_idle (rqs ?k1 0) = 9"
    by (auto simp: switch_wf_def sample_sched_kernel_def zero_defs idle_wf_def is_task_rq_idle_def task_rq_def current_def upd_task_def)
  then have k1: "switch_wf {0} ?k1" "this_cpu ?k1 = 0" "\<not> k__sched_core_enabled ?k1" "current ?k1 = 2" "t_state (tasks ?k1 (current ?k1)) = 0" "rq_idle (rqs ?k1 0) = 9"
    by blast+
  obtain k2 where k2: "k__schedule kenv_v5_17 plain_kops SM_NONE ?k1 = Some k2" "sched_effect 9 ?k1 k2"
    using plain_schedule [OF k1(1-3), of SM_NONE] k1(5,6) by auto
  have "current k2 = 9" using k2(2) k1(2) by (simp add: sched_effect_def current_def)
  then have quiet: "\<not> need_resched k3" if "schedule_once kenv_v5_17 plain_kops sample_resume SM_NONE ?k1 = Some k3" for k3
    using that sample_resume_law(2) k1(4) by (auto simp: schedule_once_def k2(1))
  have t: "t_static_prio (tasks ?k 2) \<noteq> 0" "t_prio (tasks ?k 2) = 120" by (simp_all add: sample_sched_kernel_def)
  have "if (130::int) \<in> {101..139}
    then \<exists>comm pid vruntime k'.
      my_set_process_priority kenv_v5_17 plain_kops sample_resume 130 ?k = Some (1, [(comm, pid, 130, 130, 130 - 120, vruntime)], k') \<and>
      t_my_fixed_priority (tasks k' (current ?k)) = 130 \<and> t_static_prio (tasks k' (current ?k)) = 130 \<and>
      t_prio (tasks k' (current ?k)) = t_prio (tasks ?k (current ?k)) \<and> t_normal_prio (tasks k' (current ?k)) = t_normal_prio (tasks ?k (current ?k)) \<and>
      se_load (t_se (tasks k' (current ?k))) = se_load (t_se (tasks ?k (current ?k)))
    else my_set_process_priority kenv_v5_17 plain_kops sample_resume 130 ?k = Some (0, [], ?k)"
    by (rule my_set_process_priority_effect [where S = "{0}", OF v5_17_prio.prio_h_axioms plain_kops_frame plain_laws(1) plain_aff_law plain_laws(2,3)
          sample_sched_wf(1) _ plain_laws(4)])
       (use quiet t(1) in \<open>simp_all add: sample_sched_wf k0 sample_resume_law(1)\<close>)
  then show ?thesis using t(2) by (auto simp: sample_sched_wf(3))
qed

text \<open>
  The priorities that \<^verbatim>\<open>sched_get_priority_min\<close> and \<^verbatim>\<open>sched_get_priority_max\<close> report are exactly those that the validation of
  \<^verbatim>\<open>sched_setscheduler\<close> lets through for the policy, and both calls refuse what is not a policy.
\<close>

theorem sched_priority_range_exact:
  assumes "prio_h e" and "policy_h e" and "\<not> dl_policy e policy" and "sa_flags attr = 0"
  shows "if valid_policy e policy
    then \<exists>lo hi. sys_sched_get_priority_min e policy = Inr lo \<and> sys_sched_get_priority_max e policy = Inr hi \<and>
      (setscheduler_valid e d attr policy = None \<longleftrightarrow> int (sa_priority attr) \<in> {lo..hi})
    else sys_sched_get_priority_min e policy = Inl EINVAL \<and> sys_sched_get_priority_max e policy = Inl EINVAL"
  using assms(3,4)
  by (auto simp: sys_sched_get_priority_min_def sys_sched_get_priority_max_def setscheduler_valid_def
      prio_h.prio_h_simps [OF assms(1)] policy_h.policy_h_simps [OF assms(2)])

theorem sched_priority_range_exact_witness:
  "\<exists>lo hi. sys_sched_get_priority_min kenv_v5_17 2 = Inr lo \<and> sys_sched_get_priority_max kenv_v5_17 2 = Inr hi \<and>
    (setscheduler_valid kenv_v5_17 sample_sysops \<lparr>sa_size = 48, sa_policy = 2, sa_flags = 0, sa_nice = 0, sa_priority = 99,
       sa_runtime = 0, sa_deadline = 0, sa_period = 0, sa_util_min = 0, sa_util_max = 0\<rparr> 2 = None \<longleftrightarrow> 99 \<in> {lo..hi})"
  using sched_priority_range_exact [OF v5_17_prio.prio_h_axioms v5_17_policy.policy_h_axioms, of 2
      "\<lparr>sa_size = 48, sa_policy = 2, sa_flags = 0, sa_nice = 0, sa_priority = 99,
       sa_runtime = 0, sa_deadline = 0, sa_period = 0, sa_util_min = 0, sa_util_max = 0\<rparr>" sample_sysops]
  by (simp add: v5_17_policy.policy_h_simps)

lemma test_loop_eq: "test_loop i (int n + 100) = map (\<lambda>j. (i + (j - n), int j + 100)) [n..<40]" if "n \<le> 40"
  using that
proof (induction "40 - n" arbitrary: i n)
  case 0
  then show ?case by (simp add: test_loop.simps)
next
  case (Suc m)
  then have "n < 40" and IH: "test_loop (i + 1) (int (Suc n) + 100) = map (\<lambda>j. (i + 1 + (j - Suc n), int j + 100)) [Suc n..<40]"
    using Suc.hyps(1) [of "Suc n" "i + 1"] by simp_all
  moreover have "map (\<lambda>j. (i + 1 + (j - Suc n), int j + 100)) [Suc n..<40] = map (\<lambda>j. (i + (j - n), int j + 100)) [Suc n..<40]"
    by auto
  ultimately show ?case by (subst test_loop.simps) (simp add: upt_conv_Cons add.commute)
qed

text \<open>
   The test program stays inside its arrays and measures what it reports: the slots of the measured loop are the slots
  1 to 39 of arrays of 40 elements, each with the priority that the report prints for it, and the system call
  accepts every one of these priorities, so that the message about a refused priority is never printed.
\<close>

theorem test_program_slots:
  "test_loop 1 101 = test_report \<and>
   list_all (\<lambda>(i, p). i < NUM_OF_PRIORITIES_TESTED \<and> 101 \<le> p \<and> p \<le> 139) (test_loop 1 101) \<and>
   distinct (map fst (test_loop 1 101))"
proof -
  have "test_loop 1 101 = map (\<lambda>j. (j, int j + 100)) [1..<40]" using test_loop_eq [of 1 1] by (auto cong: map_cong)
  then show ?thesis by (auto simp: test_report_def NUM_OF_PRIORITIES_TESTED_def list_all_iff comp_def)
qed

end
