(* ===== verification/Wakeup.thy ===== *)
theory Wakeup
  imports Schedule
begin

text \<open>
  Wakeups, \<^verbatim>\<open>Project 2/core.c\<close> lines 884 to 966, 3083 to 3900 and 3984 to 4224: choosing a CPU for a task that
  wakes up, waking it directly or through the wake list of another CPU, queues of wakeups that are done later,
  swapping two tasks, and waiting until a task is off its CPU.

  A function that ends in \<^verbatim>\<open>BUG()\<close> returns \<open>None\<close>.  Statistics (\<^verbatim>\<open>ttwu_stat\<close>), tracing, delay accounting and
  pressure stall information are left out.
\<close>

subsection \<open>CPU masks\<close>

text \<open>\<^verbatim>\<open>nr_cpu_ids\<close> is one more than the last possible CPU; \<^verbatim>\<open>for_each_cpu\<close> visits the members below it in order.\<close>

definition nr_cpu_ids :: "kernel \<Rightarrow> nat" where
  "nr_cpu_ids k = foldr (\<lambda>c n. max (Suc c) n) (possible_cpus k) 0"

definition each_cpu :: "kernel \<Rightarrow> cpu set \<Rightarrow> cpu list" where
  "each_cpu k m = filter (\<lambda>c. c \<in> m) [0..<nr_cpu_ids k]"

definition cpumask_any :: "kernel \<Rightarrow> cpu set \<Rightarrow> cpu" where
  "cpumask_any k m = (case each_cpu k m of [] \<Rightarrow> nr_cpu_ids k | c # _ \<Rightarrow> c)"

subsection \<open>Swapping two tasks\<close>

definition k__migrate_swap_task :: "kenv \<Rightarrow> kops \<Rightarrow> tid \<Rightarrow> cpu \<Rightarrow> kernel \<Rightarrow> kernel" where
  "k__migrate_swap_task e x p c k =
     (if task_on_rq_queued (tasks k p)
      then let src = task_rq k p;
               k = deactivate_task e x src p 0 k;
               k = set_task_cpu x p c k;
               k = activate_task e x c p 0 k
           in check_preempt_curr e x c p 0 k
      else upd_task p (\<lambda>t. t\<lparr>t_wake_cpu := c\<rparr>) k)"

record migration_swap_arg =
  ms_src_task :: tid
  ms_dst_task :: tid
  ms_src_cpu :: cpu
  ms_dst_cpu :: cpu

definition migrate_swap_stop :: "kenv \<Rightarrow> kops \<Rightarrow> migration_swap_arg \<Rightarrow> kernel \<Rightarrow> errno option \<times> kernel" where
  "migrate_swap_stop e x arg k =
     (if ms_src_cpu arg \<notin> cpu_active_mask k \<or> ms_dst_cpu arg \<notin> cpu_active_mask k then (Some EAGAIN, k)
      else if task_rq k (ms_dst_task arg) \<noteq> ms_dst_cpu arg then (Some EAGAIN, k)
      else if task_rq k (ms_src_task arg) \<noteq> ms_src_cpu arg then (Some EAGAIN, k)
      else if ms_dst_cpu arg \<notin> task_cpus_ptr (tasks k (ms_src_task arg)) then (Some EAGAIN, k)
      else if ms_src_cpu arg \<notin> task_cpus_ptr (tasks k (ms_dst_task arg)) then (Some EAGAIN, k)
      else let k = k__migrate_swap_task e x (ms_src_task arg) (ms_dst_cpu arg) k;
               k = k__migrate_swap_task e x (ms_dst_task arg) (ms_src_cpu arg) k
           in (None, k))"

text \<open>\<open>stop_two_cpus\<close>, outside these files, runs a function while both CPUs are stopped.\<close>

type_synonym stop_two = "cpu \<Rightarrow> cpu \<Rightarrow> (kernel \<Rightarrow> errno option \<times> kernel) \<Rightarrow> kernel \<Rightarrow> errno option \<times> kernel"

definition migrate_swap :: "kenv \<Rightarrow> kops \<Rightarrow> stop_two \<Rightarrow> tid \<Rightarrow> tid \<Rightarrow> cpu \<Rightarrow> cpu \<Rightarrow> kernel \<Rightarrow> errno option \<times> kernel" where
  "migrate_swap e x stop_two_cpus cur p target_cpu curr_cpu k =
     (let arg = \<lparr>ms_src_task = cur, ms_dst_task = p, ms_src_cpu = curr_cpu, ms_dst_cpu = target_cpu\<rparr>
      in if ms_src_cpu arg = ms_dst_cpu arg then (Some EINVAL, k)
         else if ms_src_cpu arg \<notin> cpu_active_mask k \<or> ms_dst_cpu arg \<notin> cpu_active_mask k then (Some EINVAL, k)
         else if ms_dst_cpu arg \<notin> task_cpus_ptr (tasks k (ms_src_task arg)) then (Some EINVAL, k)
         else if ms_src_cpu arg \<notin> task_cpus_ptr (tasks k (ms_dst_task arg)) then (Some EINVAL, k)
         else stop_two_cpus (ms_dst_cpu arg) (ms_src_cpu arg) (migrate_swap_stop e x arg) k)"

subsection \<open>Waiting until a task is inactive\<close>

text \<open>
  What other CPUs do meanwhile is in the arguments: \<open>relax\<close> is the state after \<^verbatim>\<open>cpu_relax\<close>, \<open>lock\<close> after waiting for
  the lock of the run queue and \<open>timeout\<close> after sleeping for a tick.  The inner busy loop starts over at the same
  test as the outer one.
\<close>

definition LONG_MIN :: u64 where
  "LONG_MIN = 0x8000000000000000"

partial_function (option) wait_task_inactive ::
  "(kernel \<Rightarrow> kernel) \<Rightarrow> (kernel \<Rightarrow> kernel) \<Rightarrow> (kernel \<Rightarrow> kernel) \<Rightarrow> tid \<Rightarrow> u32 \<Rightarrow> kernel \<Rightarrow> (u64 \<times> kernel) option" where
  "wait_task_inactive relax lock timeout p match_state k =
     (if t_on_cpu (tasks k p)
      then if match_state \<noteq> 0 \<and> t_state (tasks k p) \<noteq> match_state then Some (0, k)
           else wait_task_inactive relax lock timeout p match_state (relax k)
      else let k = lock k;
               running = t_on_cpu (tasks k p);
               queued = task_on_rq_queued (tasks k p);
               ncsw = (if match_state = 0 \<or> t_state (tasks k p) = match_state
                       then of_nat (t_nvcsw (tasks k p)) OR LONG_MIN else 0)
           in if ncsw = 0 then Some (0, k)
              else if running then wait_task_inactive relax lock timeout p match_state (relax k)
              else if queued
              then wait_task_inactive relax lock timeout p match_state (timeout (set_current_state TASK_UNINTERRUPTIBLE k))
              else Some (ncsw, k))"

definition kick_process :: "tid \<Rightarrow> kernel \<Rightarrow> kernel" where
  "kick_process p k = (let c = task_rq k p in if c \<noteq> this_cpu k \<and> task_curr k p then smp_send_reschedule c k else k)"

subsection \<open>Choosing a CPU\<close>

datatype fallback_state = fb_cpuset | fb_possible | fb_fail

text \<open>The body of the endless loop for a state in which no CPU of the mask is allowed: the next state, or \<open>None\<close> at \<^verbatim>\<open>BUG()\<close>.\<close>

definition fallback_possible :: "kenv \<Rightarrow> kops \<Rightarrow> tid \<Rightarrow> kernel \<Rightarrow> fallback_state \<times> kernel" where
  "fallback_possible e x p k = (fb_fail, do_set_cpus_allowed e x p (Cpumask_at (task_cpu_possible_mask x p)) k)"

definition fallback_next :: "kenv \<Rightarrow> kops \<Rightarrow> tid \<Rightarrow> fallback_state \<Rightarrow> kernel \<Rightarrow> (fallback_state \<times> kernel) option" where
  "fallback_next e x p state k =
     (case state of
        fb_cpuset \<Rightarrow> let (ok, k) = cpuset_cpus_allowed_fallback x p k
                    in if ok then Some (fb_possible, k) else Some (fallback_possible e x p k)
      | fb_possible \<Rightarrow> Some (fallback_possible e x p k)
      | fb_fail \<Rightarrow> None)"

definition fallback_rank :: "fallback_state \<Rightarrow> nat" where
  "fallback_rank state = (case state of fb_cpuset \<Rightarrow> 2 | fb_possible \<Rightarrow> 1 | fb_fail \<Rightarrow> 0)"

lemma fallback_next_rank: "fallback_next e x p state k = Some (state', k') \<Longrightarrow> fallback_rank state' < fallback_rank state"
  by (auto simp: fallback_next_def fallback_rank_def fallback_possible_def split: fallback_state.splits prod.splits if_splits)

function fallback_loop :: "kenv \<Rightarrow> kops \<Rightarrow> tid \<Rightarrow> fallback_state \<Rightarrow> kernel \<Rightarrow> (cpu \<times> kernel) option" where
  "fallback_loop e x p state k =
     (case find (is_cpu_allowed x k p) (each_cpu k (task_cpus_ptr (tasks k p))) of
        Some dest_cpu \<Rightarrow> Some (dest_cpu, k)
      | None \<Rightarrow> (case fallback_next e x p state k of None \<Rightarrow> None | Some (state', k') \<Rightarrow> fallback_loop e x p state' k'))"
  by pat_completeness auto
termination
  by (relation "measure (\<lambda>(e, x, p, state, k). fallback_rank state)") (auto dest: fallback_next_rank)

declare fallback_loop.simps [simp del]

definition select_fallback_rq :: "kenv \<Rightarrow> kops \<Rightarrow> cpu \<Rightarrow> tid \<Rightarrow> kernel \<Rightarrow> (cpu \<times> kernel) option" where
  "select_fallback_rq e x c p k =
     (case (case cpu_to_node x c of None \<Rightarrow> None | Some nid \<Rightarrow> find (is_cpu_allowed x k p) (cpumask_of_node x nid)) of
        Some dest_cpu \<Rightarrow> Some (dest_cpu, k)
      | None \<Rightarrow> fallback_loop e x p fb_cpuset k)"

definition select_task_rq :: "kenv \<Rightarrow> kops \<Rightarrow> tid \<Rightarrow> cpu \<Rightarrow> u32 \<Rightarrow> kernel \<Rightarrow> (cpu \<times> kernel) option" where
  "select_task_rq e x p c wake_flags k =
     (let t = tasks k p;
          c = (if t_nr_cpus_allowed t > 1 \<and> \<not> is_migration_disabled t
               then op_select_task_rq x (t_sched_class t) p c wake_flags k
               else cpumask_any k (task_cpus_ptr t))
      in if \<not> is_cpu_allowed x k p c then select_fallback_rq e x (task_rq k p) p k else Some (c, k))"

definition sched_set_stop_task :: "kenv \<Rightarrow> kops \<Rightarrow> secops \<Rightarrow> sysops \<Rightarrow> cpu \<Rightarrow> tid option \<Rightarrow> kernel \<Rightarrow> kernel" where
  "sched_set_stop_task e x s d c stop k =
     (let old_stop = rq_stop (rqs k c);
          k = (case stop of
                 None \<Rightarrow> k
               | Some p \<Rightarrow> let k = snd (sched_setscheduler_nocheck e x s d p (SCHED_FIFO e) (MAX_RT_PRIO e - 1) k)
                          in upd_task p (\<lambda>t. t\<lparr>t_sched_class := stop_sched_class\<rparr>) k);
          k = upd_rq c (\<lambda>rq. rq\<lparr>rq_stop := stop\<rparr>) k
      in case old_stop of None \<Rightarrow> k | Some p \<Rightarrow> upd_task p (\<lambda>t. t\<lparr>t_sched_class := rt_sched_class\<rparr>) k)"

subsection \<open>Waking a task\<close>

definition ttwu_do_wakeup :: "kenv \<Rightarrow> kops \<Rightarrow> cpu \<Rightarrow> tid \<Rightarrow> u32 \<Rightarrow> kernel \<Rightarrow> kernel" where
  "ttwu_do_wakeup e x c p wake_flags k =
     (let k = check_preempt_curr e x c p wake_flags k;
          k = upd_task p (\<lambda>t. t\<lparr>t_state := TASK_RUNNING\<rparr>) k;
          k = (case op_task_woken x (t_sched_class (tasks k p)) of None \<Rightarrow> k | Some f \<Rightarrow> f c p k);
          rq = rqs k c
      in if rq_idle_stamp rq \<noteq> 0
         then let delta = rq_clock rq - rq_idle_stamp rq;
                  mx = 2 * rq_max_idle_balance_cost rq;
                  avg = update_avg x (rq_avg_idle rq) delta;
                  avg = (if avg > mx then mx else avg)
              in upd_rq c (\<lambda>rq. rq\<lparr>rq_avg_idle := avg, rq_wake_stamp := jiffies x k, rq_wake_avg_idle := avg div 2,
                   rq_idle_stamp := 0\<rparr>) k
         else k)"

definition ttwu_do_activate :: "kenv \<Rightarrow> kops \<Rightarrow> cpu \<Rightarrow> tid \<Rightarrow> u32 \<Rightarrow> kernel \<Rightarrow> kernel" where
  "ttwu_do_activate e x c p wake_flags k =
     (let en_flags = ENQUEUE_WAKEUP e OR ENQUEUE_NOCLOCK e;
          k = (if t_sched_contributes_to_load (tasks k p)
               then upd_rq c (\<lambda>rq. rq\<lparr>rq_nr_uninterruptible := rq_nr_uninterruptible rq - 1\<rparr>) k else k);
          (en_flags, k) =
            (if flag_set wake_flags (WF_MIGRATED e) then (en_flags OR ENQUEUE_MIGRATED e, k)
             else if t_in_iowait (tasks k p)
             then (en_flags, upd_rq (task_rq k p) (\<lambda>rq. rq\<lparr>rq_nr_iowait := rq_nr_iowait rq - 1\<rparr>) k)
             else (en_flags, k));
          k = activate_task e x c p en_flags k
      in ttwu_do_wakeup e x c p wake_flags k)"

definition ttwu_runnable :: "kenv \<Rightarrow> kops \<Rightarrow> tid \<Rightarrow> u32 \<Rightarrow> kernel \<Rightarrow> bool \<times> kernel" where
  "ttwu_runnable e x p wake_flags k =
     (let c = task_rq k p
      in if task_on_rq_queued (tasks k p)
         then (True, ttwu_do_wakeup e x c p wake_flags (update_rq_clock e x c k))
         else (False, k))"

text \<open>One entry of the wake list, and the function that the IPI of \<^verbatim>\<open>__smp_call_single_queue\<close> runs on the list it took.\<close>

definition wait_cpu :: "kops \<Rightarrow> tid \<Rightarrow> kernel \<Rightarrow> kernel" where
  "wait_cpu x p k = (if t_on_cpu (tasks k p) then wait_off_cpu x p k else k)"

definition ttwu_pending_entry :: "kenv \<Rightarrow> kops \<Rightarrow> cpu \<Rightarrow> tid \<Rightarrow> kernel \<Rightarrow> kernel" where
  "ttwu_pending_entry e x c p k =
     (let k = wait_cpu x p k;
          k = (if task_rq k p \<noteq> c then set_task_cpu x p c k else k)
      in ttwu_do_activate e x c p (if t_sched_remote_wakeup (tasks k p) then WF_MIGRATED e else 0) k)"

definition sched_ttwu_pending :: "kenv \<Rightarrow> kops \<Rightarrow> tid list \<Rightarrow> kernel \<Rightarrow> kernel" where
  "sched_ttwu_pending e x llist k =
     (let c = this_cpu k
      in if llist = [] then k
         else let k = upd_rq c (\<lambda>rq. rq\<lparr>rq_ttwu_pending := False\<rparr>) k;
                  k = update_rq_clock e x c k
              in fold (ttwu_pending_entry e x c) llist k)"

definition send_call_function_single_ipi :: "kops \<Rightarrow> cpu \<Rightarrow> kernel \<Rightarrow> kernel" where
  "send_call_function_single_ipi x c k =
     (let (polling, k) = set_nr_if_polling (rq_idle (rqs k c)) k
      in if \<not> polling then arch_send_call_function_single_ipi x c k else k)"

definition k__ttwu_queue_wakelist :: "kenv \<Rightarrow> kops \<Rightarrow> tid \<Rightarrow> cpu \<Rightarrow> u32 \<Rightarrow> kernel \<Rightarrow> kernel" where
  "k__ttwu_queue_wakelist e x p c wake_flags k =
     (let k = upd_task p (\<lambda>t. t\<lparr>t_sched_remote_wakeup := flag_set wake_flags (WF_MIGRATED e)\<rparr>) k;
          k = upd_rq c (\<lambda>rq. rq\<lparr>rq_ttwu_pending := True\<rparr>) k
      in smp_call_single_queue x c p k)"

definition is_idle_task :: "task_struct \<Rightarrow> bool" where
  "is_idle_task t \<longleftrightarrow> flag_set (t_flags t) PF_IDLE"

definition wake_up_if_idle :: "cpu \<Rightarrow> kernel \<Rightarrow> kernel" where
  "wake_up_if_idle c k =
     (if \<not> is_idle_task (tasks k (rq_curr (rqs k c))) then k
      else if is_idle_task (tasks k (rq_curr (rqs k c))) then resched_curr c k
      else k)"

definition cpus_share_cache :: "kops \<Rightarrow> cpu \<Rightarrow> cpu \<Rightarrow> bool" where
  "cpus_share_cache x this that = (if this = that then True else sd_llc_id x this = sd_llc_id x that)"

definition ttwu_queue_cond :: "kenv \<Rightarrow> kops \<Rightarrow> kernel \<Rightarrow> cpu \<Rightarrow> u32 \<Rightarrow> bool" where
  "ttwu_queue_cond e x k c wake_flags =
     (if c \<notin> cpu_active_mask k then False
      else if \<not> cpus_share_cache x (this_cpu k) c then True
      else if flag_set wake_flags (WF_ON_CPU e) \<and> rq_nr_running (rqs k c) \<le> 1 then True
      else False)"

definition ttwu_queue_wakelist :: "kenv \<Rightarrow> kops \<Rightarrow> tid \<Rightarrow> cpu \<Rightarrow> u32 \<Rightarrow> kernel \<Rightarrow> bool \<times> kernel" where
  "ttwu_queue_wakelist e x p c wake_flags k =
     (if sched_feat_TTWU_QUEUE x \<and> ttwu_queue_cond e x k c wake_flags
      then if c = this_cpu k then (False, k) else (True, k__ttwu_queue_wakelist e x p c wake_flags k)
      else (False, k))"

definition ttwu_queue :: "kenv \<Rightarrow> kops \<Rightarrow> tid \<Rightarrow> cpu \<Rightarrow> u32 \<Rightarrow> kernel \<Rightarrow> kernel" where
  "ttwu_queue e x p c wake_flags k =
     (let (queued, k) = ttwu_queue_wakelist e x p c wake_flags k
      in if queued then k else ttwu_do_activate e x c p wake_flags (update_rq_clock e x c k))"

definition ttwu_state_match :: "kernel \<Rightarrow> tid \<Rightarrow> u32 \<Rightarrow> bool" where
  "ttwu_state_match k p state \<longleftrightarrow> flag_set (t_state (tasks k p)) state"

text \<open>The part of \<^verbatim>\<open>try_to_wake_up\<close> that finds a CPU for a task that is off its CPU and queues it there.\<close>

definition ttwu_place :: "kenv \<Rightarrow> kops \<Rightarrow> tid \<Rightarrow> u32 \<Rightarrow> kernel \<Rightarrow> kernel option" where
  "ttwu_place e x p wake_flags k =
     (case select_task_rq e x p (t_wake_cpu (tasks k p)) (wake_flags OR WF_TTWU e) k of
        None \<Rightarrow> None
      | Some (c, k) \<Rightarrow>
          let (wake_flags, k) =
                (if task_rq k p \<noteq> c
                 then let k = (if t_in_iowait (tasks k p)
                               then upd_rq (task_rq k p) (\<lambda>rq. rq\<lparr>rq_nr_iowait := rq_nr_iowait rq - 1\<rparr>) k else k)
                      in (wake_flags OR WF_MIGRATED e, set_task_cpu x p c k)
                 else (wake_flags, k))
          in Some (ttwu_queue e x p c wake_flags k))"

definition try_to_wake_up :: "kenv \<Rightarrow> kops \<Rightarrow> tid \<Rightarrow> u32 \<Rightarrow> u32 \<Rightarrow> kernel \<Rightarrow> (bool \<times> kernel) option" where
  "try_to_wake_up e x p state wake_flags k =
     (if p = current k
      then if \<not> ttwu_state_match k p state then Some (False, k)
           else Some (True, upd_task p (\<lambda>t. t\<lparr>t_state := TASK_RUNNING\<rparr>) k)
      else if \<not> ttwu_state_match k p state then Some (False, k)
      else let (woken, k) = (if t_on_rq (tasks k p) \<noteq> NOT_ON_RQ then ttwu_runnable e x p wake_flags k else (False, k))
           in if woken then Some (True, k)
              else let k = upd_task p (\<lambda>t. t\<lparr>t_state := TASK_WAKING\<rparr>) k;
                       (queued, k) = (if t_on_cpu (tasks k p)
                                      then ttwu_queue_wakelist e x p (task_rq k p) (wake_flags OR WF_ON_CPU e) k
                                      else (False, k))
                   in if queued then Some (True, k)
                      else map_option (Pair True) (ttwu_place e x p wake_flags (wait_cpu x p k)))"

definition wake_up_process :: "kenv \<Rightarrow> kops \<Rightarrow> tid \<Rightarrow> kernel \<Rightarrow> (bool \<times> kernel) option" where
  "wake_up_process e x p k = try_to_wake_up e x p TASK_NORMAL 0 k"

definition wake_up_state :: "kenv \<Rightarrow> kops \<Rightarrow> tid \<Rightarrow> u32 \<Rightarrow> kernel \<Rightarrow> (bool \<times> kernel) option" where
  "wake_up_state e x p state k = try_to_wake_up e x p state 0 k"

definition default_wake_function :: "kenv \<Rightarrow> kops \<Rightarrow> tid \<Rightarrow> u32 \<Rightarrow> u32 \<Rightarrow> kernel \<Rightarrow> (bool \<times> kernel) option" where
  "default_wake_function e x curr_private mode wake_flags k = try_to_wake_up e x curr_private mode wake_flags k"

subsection \<open>Wake queues\<close>

text \<open>
  \<^verbatim>\<open>struct wake_q_head\<close>: the first node, and where the last pointer is: \<open>None\<close> for \<^verbatim>\<open>first\<close> itself, otherwise the
  task whose \<^verbatim>\<open>wake_q.next\<close> it is.
\<close>

record wake_q_head =
  wq_first :: wake_q_node
  wq_lastp :: "tid option"

definition wake_q_init :: wake_q_head where
  "wake_q_init = \<lparr>wq_first = WAKE_Q_TAIL, wq_lastp = None\<rparr>"

definition k__wake_q_add :: "wake_q_head \<Rightarrow> tid \<Rightarrow> kernel \<Rightarrow> bool \<times> wake_q_head \<times> kernel" where
  "k__wake_q_add head task k =
     (if t_wake_q (tasks k task) \<noteq> WQ_NULL then (False, head, k)
      else let k = upd_task task (\<lambda>t. t\<lparr>t_wake_q := WAKE_Q_TAIL\<rparr>) k;
               (head, k) = (case wq_lastp head of
                              None \<Rightarrow> (head\<lparr>wq_first := WQ_node task\<rparr>, k)
                            | Some q \<Rightarrow> (head, upd_task q (\<lambda>t. t\<lparr>t_wake_q := WQ_node task\<rparr>) k))
           in (True, head\<lparr>wq_lastp := Some task\<rparr>, k))"

text \<open>References to a task are counted; freeing the structure at the last one is not modelled.\<close>

definition get_task_struct :: "tid \<Rightarrow> kernel \<Rightarrow> kernel" where
  "get_task_struct p = upd_task p (\<lambda>t. t\<lparr>t_usage := t_usage t + 1\<rparr>)"

definition put_task_struct :: "tid \<Rightarrow> kernel \<Rightarrow> kernel" where
  "put_task_struct p = upd_task p (\<lambda>t. t\<lparr>t_usage := t_usage t - 1\<rparr>)"

definition wake_q_add :: "wake_q_head \<Rightarrow> tid \<Rightarrow> kernel \<Rightarrow> wake_q_head \<times> kernel" where
  "wake_q_add head task k =
     (let (added, head, k) = k__wake_q_add head task k in (head, if added then get_task_struct task k else k))"

definition wake_q_add_safe :: "wake_q_head \<Rightarrow> tid \<Rightarrow> kernel \<Rightarrow> wake_q_head \<times> kernel" where
  "wake_q_add_safe head task k =
     (let (added, head, k) = k__wake_q_add head task k in (head, if \<not> added then put_task_struct task k else k))"

text \<open>Reading through a null pointer is \<open>None\<close>, like a \<^verbatim>\<open>BUG()\<close>.\<close>

definition wake_one :: "kenv \<Rightarrow> kops \<Rightarrow> tid \<Rightarrow> kernel \<Rightarrow> kernel option" where
  "wake_one e x task k =
     map_option (\<lambda>(_, k). put_task_struct task k) (wake_up_process e x task (upd_task task (\<lambda>t. t\<lparr>t_wake_q := WQ_NULL\<rparr>) k))"

partial_function (option) wake_up_nodes :: "kenv \<Rightarrow> kops \<Rightarrow> wake_q_node \<Rightarrow> kernel \<Rightarrow> kernel option" where
  "wake_up_nodes e x node k =
     (case node of
        WAKE_Q_TAIL \<Rightarrow> Some k
      | WQ_NULL \<Rightarrow> None
      | WQ_node task \<Rightarrow>
          (case wake_one e x task k of
             None \<Rightarrow> None
           | Some k' \<Rightarrow> wake_up_nodes e x (t_wake_q (tasks k task)) k'))"

definition wake_up_q :: "kenv \<Rightarrow> kops \<Rightarrow> wake_q_head \<Rightarrow> kernel \<Rightarrow> kernel option" where
  "wake_up_q e x head k = wake_up_nodes e x (wq_first head) k"

subsection \<open>What a wakeup leaves alone\<close>

text \<open>
  A task apart from the CPU it is on: the callback \<^verbatim>\<open>task_woken\<close> of the real-time and deadline classes may push
  queued tasks to other CPUs that they are allowed on.
\<close>

definition task_place :: "task_struct \<Rightarrow> task_struct" where
  "task_place t = task_params (t\<lparr>t_cpu := 0, t_wake_cpu := 0\<rparr>)"

definition rest_same :: "kernel \<Rightarrow> kernel \<Rightarrow> bool" where
  "rest_same k k' \<longleftrightarrow> (\<forall>c. rq_curr (rqs k' c) = rq_curr (rqs k c)) \<and> this_cpu k' = this_cpu k \<and> kfix k' = kfix k \<and>
     (\<forall>q. t_wake_q (tasks k' q) = t_wake_q (tasks k q) \<and> t_usage (tasks k' q) = t_usage (tasks k q))"

definition others_same :: "tid \<Rightarrow> kernel \<Rightarrow> kernel \<Rightarrow> bool" where
  "others_same p k k' \<longleftrightarrow> rest_same k k' \<and> (\<forall>q. q \<noteq> p \<longrightarrow> task_place (tasks k' q) = task_place (tasks k q))"

definition pushes :: "kops \<Rightarrow> kernel \<Rightarrow> kernel \<Rightarrow> bool" where
  "pushes x k k' \<longleftrightarrow> rest_same k k' \<and> (\<forall>q. task_place (tasks k' q) = task_place (tasks k q) \<and>
     (t_cpu (tasks k' q) = t_cpu (tasks k q) \<or> is_cpu_allowed x k' q (t_cpu (tasks k' q))))"

definition wake_law :: "kenv \<Rightarrow> kops \<Rightarrow> bool" where
  "wake_law e x \<longleftrightarrow>
     (\<forall>s f c p k. op_task_woken x s = Some f \<longrightarrow> pushes x k (f c p k)) \<and>
     (\<forall>c p k. sched_frame k (smp_call_single_queue x c p k) \<and>
        rq_wake_list (rqs (smp_call_single_queue x c p k) c) = rq_wake_list (rqs k c) @ [p]) \<and>
     (\<forall>p k. params_same (upd_task p (\<lambda>t. t\<lparr>t_on_cpu := False\<rparr>) k) (wait_off_cpu x p k)) \<and>
     (\<forall>p k. params_same k (snd (cpuset_cpus_allowed_fallback x p k)) \<or>
        (\<exists>m. params_same (set_cpus_allowed_common e p (Cpumask_at m) 0 k) (snd (cpuset_cpus_allowed_fallback x p k))))"

lemma rest_same_trans: "rest_same k k' \<Longrightarrow> rest_same k' k'' \<Longrightarrow> rest_same k k''"
  by (simp add: rest_same_def)

lemma others_same_refl [simp]: "others_same p k k"
  by (simp add: others_same_def rest_same_def)

lemma others_same_trans: "others_same p k k' \<Longrightarrow> others_same p k' k'' \<Longrightarrow> others_same p k k''"
  by (simp add: others_same_def) (blast intro: rest_same_trans)

lemma task_place_params: "task_params t = task_params t' \<Longrightarrow> task_place t = task_place t'"
proof -
  assume eq: "task_params t = task_params t'"
  have "task_place t = (task_params t)\<lparr>t_cpu := 0, t_wake_cpu := 0\<rparr>" for t by (simp add: task_place_def task_params_def task_core_def)
  then show ?thesis using eq by simp
qed

lemma params_rest_same: "params_same k k' \<Longrightarrow> rest_same k k'"
  unfolding params_same_def rest_same_def using task_params_sel2(14,15) by blast

lemma params_others_same: "params_same k k' \<Longrightarrow> others_same p k k'"
  unfolding others_same_def using params_rest_same task_place_params unfolding params_same_def by blast

lemma pushes_others_same: "pushes x k k' \<Longrightarrow> others_same p k k'"
  by (simp add: pushes_def others_same_def)

lemma others_same_upd:
  "(\<And>t. t_wake_q (f t) = t_wake_q t \<and> t_usage (f t) = t_usage t) \<Longrightarrow> others_same p k (upd_task p f k)"
  by (simp add: others_same_def rest_same_def upd_task_def kfix_def)

text \<open>The fields that say whether a CPU is allowed, and the state of a task, do not depend on its place.\<close>

lemma task_place_sel:
  assumes "task_place t = task_place t'"
  shows "t_state t = t_state t'" "t_on_rq t = t_on_rq t'" "t_cpus_mask t = t_cpus_mask t'" "t_cpus_ptr t = t_cpus_ptr t'"
    "t_migration_disabled t = t_migration_disabled t'" "t_flags t = t_flags t'"
  using task_params_sel(8) [OF assms [unfolded task_place_def]] task_params_sel2(1,2,3,5,7) [OF assms [unfolded task_place_def]]
  by simp_all

lemma is_cpu_allowed_cong:
  assumes "t_cpus_mask (tasks k' p) = t_cpus_mask (tasks k p)" "t_cpus_ptr (tasks k' p) = t_cpus_ptr (tasks k p)"
    "t_migration_disabled (tasks k' p) = t_migration_disabled (tasks k p)" "t_flags (tasks k' p) = t_flags (tasks k p)"
    "kfix k' = kfix k"
  shows "is_cpu_allowed x k' p = is_cpu_allowed x k p"
proof -
  have kf: "cpu_online_mask k' = cpu_online_mask k" "cpu_active_mask k' = cpu_active_mask k" using assms(5) by (simp_all add: kfix_def)
  show ?thesis
    unfolding fun_eq_iff is_cpu_allowed_def Let_def task_cpus_ptr_def mask_of_def is_migration_disabled_def assms(1-4) kf by (rule allI, rule refl)
qed

lemma is_cpu_allowed_params: "params_same k k' \<Longrightarrow> is_cpu_allowed x k' p = is_cpu_allowed x k p"
  unfolding params_same_def using task_params_sel2(1,2,3,7) by (intro is_cpu_allowed_cong) blast+

subsection \<open>The chosen CPU\<close>

text \<open>A change of nothing but the mask of one task.\<close>

definition mask_change :: "tid \<Rightarrow> kernel \<Rightarrow> kernel \<Rightarrow> bool" where
  "mask_change p k k' \<longleftrightarrow> (\<exists>m n. params_same (upd_task p (\<lambda>t. t\<lparr>t_cpus_mask := m, t_nr_cpus_allowed := n\<rparr>) k) k')"

lemma mask_change_params: "params_same k k' \<Longrightarrow> mask_change p k k'"
proof -
  assume ps: "params_same k k'"
  have "upd_task p (\<lambda>t. t\<lparr>t_cpus_mask := t_cpus_mask (tasks k p), t_nr_cpus_allowed := t_nr_cpus_allowed (tasks k p)\<rparr>) k = k"
    by (simp add: upd_task_def)
  then have "params_same (upd_task p (\<lambda>t. t\<lparr>t_cpus_mask := t_cpus_mask (tasks k p), t_nr_cpus_allowed := t_nr_cpus_allowed (tasks k p)\<rparr>) k) k'"
    using ps by (rule ssubst)
  then show ?thesis unfolding mask_change_def by blast
qed

lemma mask_change_common: 
  assumes "params_same (set_cpus_allowed_common e p m 0 k) k'"
  shows "mask_change p k k'"
proof -
  have "set_cpus_allowed_common e p m 0 k =
      upd_task p (\<lambda>t. t\<lparr>t_cpus_mask := mask_of (tasks k p) m, t_nr_cpus_allowed := card (mask_of (tasks k p) m)\<rparr>) k"
    by (simp add: set_cpus_allowed_common_def upd_task_def)
  then show ?thesis unfolding mask_change_def using assms by auto
qed

lemma mask_change_trans:
  assumes "mask_change p k k'" and "mask_change p k' k''"
  shows "mask_change p k k''"
proof -
  obtain m n m' n' where 1: "params_same (upd_task p (\<lambda>t. t\<lparr>t_cpus_mask := m, t_nr_cpus_allowed := n\<rparr>) k) k'"
    and 2: "params_same (upd_task p (\<lambda>t. t\<lparr>t_cpus_mask := m', t_nr_cpus_allowed := n'\<rparr>) k') k''"
    using assms by (auto simp: mask_change_def)
  have "params_same (upd_task p (\<lambda>t. t\<lparr>t_cpus_mask := m', t_nr_cpus_allowed := n'\<rparr>) (upd_task p (\<lambda>t. t\<lparr>t_cpus_mask := m, t_nr_cpus_allowed := n\<rparr>) k))
      (upd_task p (\<lambda>t. t\<lparr>t_cpus_mask := m', t_nr_cpus_allowed := n'\<rparr>) k')"
    by (rule params_same_upd_task [OF 1]) (simp add: task_params_def task_core_def)
  from params_same_trans [OF this 2] show ?thesis by (auto simp: mask_change_def upd_task_def)
qed

lemma mask_change_effect:
  assumes "mask_change p k k'"
  shows "others_same p k k'" "t_state (tasks k' p) = t_state (tasks k p)" "t_cpu (tasks k' p) = t_cpu (tasks k p)"
    "t_cpus_ptr (tasks k' p) = t_cpus_ptr (tasks k p)" "t_migration_disabled (tasks k' p) = t_migration_disabled (tasks k p)"
    "t_flags (tasks k' p) = t_flags (tasks k p)" "kfix k' = kfix k"
proof -
  obtain m n where ps: "params_same (upd_task p (\<lambda>t. t\<lparr>t_cpus_mask := m, t_nr_cpus_allowed := n\<rparr>) k) k'"
    using assms by (auto simp: mask_change_def)
  show "others_same p k k'" using others_same_trans [OF others_same_upd params_others_same [OF ps]] by simp
  have eq: "task_params (tasks k' p) = task_params ((tasks k p)\<lparr>t_cpus_mask := m, t_nr_cpus_allowed := n\<rparr>)"
    using ps by (simp add: params_same_def)
  show "t_state (tasks k' p) = t_state (tasks k p)" "t_cpu (tasks k' p) = t_cpu (tasks k p)"
    "t_cpus_ptr (tasks k' p) = t_cpus_ptr (tasks k p)" "t_migration_disabled (tasks k' p) = t_migration_disabled (tasks k p)"
    "t_flags (tasks k' p) = t_flags (tasks k p)"
    using task_params_sel(9) [OF eq] task_params_sel2(2,3,5,7) [OF eq] by simp_all
  show "kfix k' = kfix k" using ps by (simp add: params_same_def kfix_def upd_task_def)
qed

lemma fallback_next_change:
  assumes "kops_frame x" and "aff_law e x" and "wake_law e x" and "fallback_next e x p state k = Some (state', k')"
  shows "mask_change p k k'"
proof -
  have do: "mask_change p k (do_set_cpus_allowed e x p m k)" for m k
    unfolding do_set_cpus_allowed_def by (rule mask_change_common [OF do_set_cpus_allowed_params [OF assms(1,2)]])
  have cs: "mask_change p k (snd (cpuset_cpus_allowed_fallback x p k))"
    using assms(3) mask_change_params mask_change_common unfolding wake_law_def by blast
  show ?thesis
    using assms(4) do cs mask_change_trans [OF cs do]
    by (auto simp: fallback_next_def fallback_possible_def split: fallback_state.splits prod.splits if_splits)
qed

lemma fallback_loop_ok:
  assumes "kops_frame x" and "aff_law e x" and "wake_law e x" and "fallback_loop e x p state k = Some (d, k')"
  shows "is_cpu_allowed x k' p d \<and> mask_change p k k'"
  using assms(4)
proof (induction "fallback_rank state" arbitrary: state k rule: less_induct)
  case less
  show ?case
  proof (cases "find (is_cpu_allowed x k p) (each_cpu k (task_cpus_ptr (tasks k p)))")
    case None
    then obtain s1 k1 where n: "fallback_next e x p state k = Some (s1, k1)" and l: "fallback_loop e x p s1 k1 = Some (d, k')"
      using less.prems by (subst (asm) fallback_loop.simps) (auto split: option.splits)
    from less.hyps [OF fallback_next_rank [OF n] l] fallback_next_change [OF assms(1-3) n]
    show ?thesis using mask_change_trans by blast
  next
    case (Some c)
    then have "fallback_loop e x p state k = Some (c, k)" by (subst fallback_loop.simps) simp
    then have "c = d" "k' = k" using less.prems by simp_all
    moreover have "is_cpu_allowed x k p c" using Some by (auto simp: find_Some_iff)
    ultimately show ?thesis by (simp add: mask_change_params)
  qed
qed

lemma each_cpu_iff: "c \<in> set (each_cpu k m) \<longleftrightarrow> c < nr_cpu_ids k \<and> c \<in> m"
  by (auto simp: each_cpu_def)

lemma possible_below: "c \<in> set (possible_cpus k) \<Longrightarrow> c < nr_cpu_ids k"
proof -
  have "c \<in> set cs \<Longrightarrow> c < foldr (\<lambda>c n. max (Suc c) n) cs 0" for cs by (induction cs) auto
  then show "c \<in> set (possible_cpus k) \<Longrightarrow> c < nr_cpu_ids k" by (simp add: nr_cpu_ids_def)
qed

text \<open>A CPU that a task can always fall back to.\<close>

definition refuge :: "kops \<Rightarrow> tid \<Rightarrow> kernel \<Rightarrow> cpu \<Rightarrow> bool" where
  "refuge x p k c \<longleftrightarrow> c \<in> set (possible_cpus k) \<and> c \<in> task_cpu_possible_mask x p \<and> c \<in> cpu_online_mask k \<and>
     c \<in> cpu_active_mask k \<and> \<not> cpu_dying x c \<and> t_cpus_ptr (tasks k p) = Own_cpus_mask \<and> t_migration_disabled (tasks k p) = 0"

lemma refuge_change: "mask_change p k k' \<Longrightarrow> refuge x p k' c = refuge x p k c"
  using mask_change_effect [of p k k'] by (simp add: refuge_def kfix_def)

lemma refuge_allowed:
  assumes "refuge x p k c" and "t_cpus_mask (tasks k p) = task_cpu_possible_mask x p"
  shows "is_cpu_allowed x k p c" "c \<in> set (each_cpu k (task_cpus_ptr (tasks k p)))"
  using assms possible_below [of c k]
  by (auto simp: refuge_def is_cpu_allowed_def is_migration_disabled_def task_cpus_ptr_def mask_of_def each_cpu_iff)

lemma do_set_possible:
  assumes "kops_frame x" and "aff_law e x"
  shows "t_cpus_mask (tasks (do_set_cpus_allowed e x p (Cpumask_at m) k) p) = m"
proof -
  have "params_same (set_cpus_allowed_common e p (Cpumask_at m) 0 k) (do_set_cpus_allowed e x p (Cpumask_at m) k)"
    unfolding do_set_cpus_allowed_def by (rule do_set_cpus_allowed_params [OF assms])
  then have "task_params (tasks (do_set_cpus_allowed e x p (Cpumask_at m) k) p) = task_params (tasks (set_cpus_allowed_common e p (Cpumask_at m) 0 k) p)"
    by (simp add: params_same_def)
  from task_params_sel2(1) [OF this] show ?thesis by (simp add: set_cpus_allowed_common_def upd_task_def mask_of_def)
qed

lemma fallback_next_some: "state \<noteq> fb_fail \<Longrightarrow> \<exists>s1 k1. fallback_next e x p state k = Some (s1, k1)"
  by (cases state) (auto simp: fallback_next_def fallback_possible_def split: prod.split)

lemma fallback_next_fail:
  assumes "kops_frame x" and "aff_law e x" and "fallback_next e x p state k = Some (s1, k1)"
  shows "s1 = fb_fail \<longrightarrow> t_cpus_mask (tasks k1 p) = task_cpu_possible_mask x p"
  using assms(3) do_set_possible [OF assms(1,2)]
  by (auto simp: fallback_next_def fallback_possible_def split: fallback_state.splits prod.splits if_splits)

text \<open>In the last state the mask is that of the possible CPUs, so the loop ends before \<^verbatim>\<open>BUG()\<close>.\<close>

lemma fallback_loop_total:
  assumes "kops_frame x" and "aff_law e x" and "wake_law e x" and "refuge x p k c"
    and "state = fb_fail \<longrightarrow> t_cpus_mask (tasks k p) = task_cpu_possible_mask x p"
  shows "\<exists>d k'. fallback_loop e x p state k = Some (d, k')"
  using assms(4,5)
proof (induction "fallback_rank state" arbitrary: state k rule: less_induct)
  case less
  show ?case
  proof (cases "find (is_cpu_allowed x k p) (each_cpu k (task_cpus_ptr (tasks k p)))")
    case None
    then have "state \<noteq> fb_fail" using refuge_allowed [of x p k c] less.prems by (auto simp: find_None_iff)
    then obtain s1 k1 where n: "fallback_next e x p state k = Some (s1, k1)"
      and f: "s1 = fb_fail \<longrightarrow> t_cpus_mask (tasks k1 p) = task_cpu_possible_mask x p"
      using fallback_next_some [of state e x p k] fallback_next_fail [OF assms(1,2)] by blast
    have "refuge x p k1 c" using less.prems(1) refuge_change [OF fallback_next_change [OF assms(1-3) n]] by simp
    from less.hyps [OF fallback_next_rank [OF n] this f] n None show ?thesis by (subst fallback_loop.simps) simp
  next
    case (Some d)
    then show ?thesis by (subst fallback_loop.simps) simp
  qed
qed

lemma select_fallback_rq_ok:
  assumes "kops_frame x" and "aff_law e x" and "wake_law e x" and "select_fallback_rq e x c p k = Some (d, k')"
  shows "is_cpu_allowed x k' p d \<and> mask_change p k k'"
  using assms(4) fallback_loop_ok [OF assms(1-3)]
  by (auto simp: select_fallback_rq_def find_Some_iff mask_change_params split: option.splits)

lemma select_task_rq_ok:
  assumes "kops_frame x" and "aff_law e x" and "wake_law e x" and "select_task_rq e x p c fl k = Some (d, k')"
  shows "is_cpu_allowed x k' p d \<and> mask_change p k k'"
  using assms(4) select_fallback_rq_ok [OF assms(1-3)]
  by (auto simp: select_task_rq_def Let_def mask_change_params split: if_splits)

lemma select_task_rq_total:
  assumes "kops_frame x" and "aff_law e x" and "wake_law e x" and "refuge x p k r"
  shows "\<exists>d k'. select_task_rq e x p c fl k = Some (d, k')"
  using fallback_loop_total [OF assms, of fb_cpuset]
  by (auto simp: select_task_rq_def select_fallback_rq_def Let_def split: option.split)

subsection \<open>The woken task\<close>

text \<open>What activation gives: the task runs and is queued, on the CPU it was placed on or on one it was pushed to.\<close>

definition activated :: "kops \<Rightarrow> tid \<Rightarrow> kernel \<Rightarrow> kernel \<Rightarrow> bool" where
  "activated x p k k' \<longleftrightarrow> others_same p k k' \<and> t_state (tasks k' p) = TASK_RUNNING \<and>
     (t_cpu (tasks k' p) = t_cpu (tasks k p) \<or> is_cpu_allowed x k' p (t_cpu (tasks k' p))) \<and>
     is_cpu_allowed x k' p = is_cpu_allowed x k p"

lemma params_activated:
  assumes "params_same k0 k" and "activated x p k k'"
  shows "activated x p k0 k'"
proof -
  have "t_cpu (tasks k p) = t_cpu (tasks k0 p)" using assms(1) unfolding params_same_def using task_params_sel(9) by blast
  then show ?thesis
    using assms(2) others_same_trans [OF params_others_same [OF assms(1)]] is_cpu_allowed_params [OF assms(1)]
    by (auto simp: activated_def)
qed

lemma task_woken_pushes: "wake_law e x \<Longrightarrow> pushes x k (case op_task_woken x s of None \<Rightarrow> k | Some f \<Rightarrow> f c p k)"
  by (cases "op_task_woken x s") (simp_all add: wake_law_def pushes_def [of x k k] rest_same_def)

lemma ttwu_do_wakeup_effect:
  assumes "kops_frame x" and "wake_law e x"
  shows "activated x p k (ttwu_do_wakeup e x c p fl k)"
    "t_on_rq (tasks (ttwu_do_wakeup e x c p fl k) p) = t_on_rq (tasks k p)"
proof -
  let ?k1 = "check_preempt_curr e x c p fl k"
  let ?k2 = "upd_task p (\<lambda>t. t\<lparr>t_state := TASK_RUNNING\<rparr>) ?k1"
  let ?k3 = "case op_task_woken x (t_sched_class (tasks ?k2 p)) of None \<Rightarrow> ?k2 | Some f \<Rightarrow> f c p ?k2"
  let ?k4 = "ttwu_do_wakeup e x c p fl k"
  have ps1: "params_same k ?k1" by (rule sched_frame_params [OF sched_frame_check_preempt [OF assms(1)]])
  then have t1: "task_params (tasks ?k1 q) = task_params (tasks k q)" for q by (simp add: params_same_def)
  have o2: "others_same p k ?k2" by (rule others_same_trans [OF params_others_same [OF ps1] others_same_upd]) simp
  have p3: "pushes x ?k2 ?k3"
    by (rule task_woken_pushes [OF assms(2)])
  have ps4: "params_same ?k3 ?k4"
    unfolding ttwu_do_wakeup_def Let_def by (auto intro: params_same_upd_rq)
  then have t4: "task_params (tasks ?k4 q) = task_params (tasks ?k3 q)" for q by (simp add: params_same_def)
  have pl: "task_place (tasks ?k3 p) = task_place (tasks ?k2 p)" using p3 by (simp add: pushes_def)
  have kf: "kfix ?k4 = kfix k"
    using p3 ps4 ps1 by (simp add: pushes_def rest_same_def params_same_def) (simp add: kfix_def upd_task_def)
  have al4: "is_cpu_allowed x ?k4 p = is_cpu_allowed x ?k3 p" by (rule is_cpu_allowed_params [OF ps4])
  have al: "is_cpu_allowed x ?k4 p = is_cpu_allowed x k p"
    using task_place_sel(3-6) [OF pl] task_params_sel2(1,2,3,7) [OF t4] task_params_sel2(1,2,3,7) [OF t1] kf
    by (intro is_cpu_allowed_cong) (simp_all add: upd_task_def)
  have "others_same p k ?k4"
    by (rule others_same_trans [OF o2 others_same_trans [OF pushes_others_same [OF p3] params_others_same [OF ps4]]])
  moreover have "t_state (tasks ?k4 p) = TASK_RUNNING"
    using task_place_sel(1) [OF pl] task_params_sel2(5) [OF t4] by simp
  moreover have "t_cpu (tasks ?k3 p) = t_cpu (tasks ?k2 p) \<or> is_cpu_allowed x ?k3 p (t_cpu (tasks ?k3 p))"
    using p3 unfolding pushes_def by blast
  then have "t_cpu (tasks ?k4 p) = t_cpu (tasks k p) \<or> is_cpu_allowed x ?k4 p (t_cpu (tasks ?k4 p))"
    unfolding task_params_sel(9) [OF t4] al4 using task_params_sel(9) [OF t1] by simp
  ultimately show "activated x p k ?k4" using al by (simp add: activated_def)
  show "t_on_rq (tasks ?k4 p) = t_on_rq (tasks k p)"
    using task_place_sel(2) [OF pl] task_params_sel(8) [OF t4] task_params_sel(8) [OF t1] by simp
qed

lemma ttwu_do_activate_effect:
  assumes "kops_frame x" and "wake_law e x"
  shows "activated x p k (ttwu_do_activate e x c p fl k)"
    "t_on_rq (tasks (ttwu_do_activate e x c p fl k) p) = TASK_ON_RQ_QUEUED"
proof -
  have dec: "params_same k (upd_rq d (\<lambda>rq. rq\<lparr>rq_nr_uninterruptible := f rq\<rparr>) k)"
    "params_same k (upd_rq d (\<lambda>rq. rq\<lparr>rq_nr_iowait := g rq\<rparr>) k)" for d f g k
    by (rule params_same_upd_rq, simp)+
  obtain k1 en where ps: "params_same k k1" and eq: "ttwu_do_activate e x c p fl k = ttwu_do_wakeup e x c p fl (activate_task e x c p en k1)"
  proof -
    let ?k0 = "if t_sched_contributes_to_load (tasks k p)
      then upd_rq c (\<lambda>rq. rq\<lparr>rq_nr_uninterruptible := rq_nr_uninterruptible rq - 1\<rparr>) k else k"
    let ?k1 = "if \<not> flag_set fl (WF_MIGRATED e) \<and> t_in_iowait (tasks ?k0 p)
      then upd_rq (task_rq ?k0 p) (\<lambda>rq. rq\<lparr>rq_nr_iowait := rq_nr_iowait rq - 1\<rparr>) ?k0 else ?k0"
    have "params_same k ?k0" using dec(1) by simp
    moreover have "params_same ?k0 ?k1" using dec(2) by simp
    ultimately have "params_same k ?k1" by (rule params_same_trans)
    moreover have "\<exists>en. ttwu_do_activate e x c p fl k = ttwu_do_wakeup e x c p fl (activate_task e x c p en ?k1)"
      unfolding ttwu_do_activate_def Let_def by (auto split: if_split)
    ultimately show ?thesis using that by blast
  qed
  let ?q = "\<lambda>t. t\<lparr>t_on_rq := TASK_ON_RQ_QUEUED\<rparr>"
  let ?k2 = "activate_task e x c p en k1"
  have "params_same (upd_task p ?q k1) ?k2" unfolding activate_task_def
    by (rule params_same_upd_task [OF params_same_enqueue [OF assms(1)]]) (simp add: task_params_def task_core_def)
  from params_activated [OF this ttwu_do_wakeup_effect(1) [OF assms]]
  have pe: "activated x p (upd_task p ?q k1) (ttwu_do_wakeup e x c p fl ?k2)" .
  have "activated x p k1 (ttwu_do_wakeup e x c p fl ?k2)"
  proof -
    have "others_same p k1 (upd_task p ?q k1)" by (rule others_same_upd) simp
    moreover have "is_cpu_allowed x (upd_task p ?q k1) p = is_cpu_allowed x k1 p"
      by (rule is_cpu_allowed_cong) (simp_all add: upd_task_def kfix_def)
    moreover have "t_cpu (tasks (upd_task p ?q k1) p) = t_cpu (tasks k1 p)" by simp
    ultimately show ?thesis using pe others_same_trans unfolding activated_def by metis
  qed
  from params_activated [OF ps this] show "activated x p k (ttwu_do_activate e x c p fl k)" by (simp add: eq)
  show "t_on_rq (tasks (ttwu_do_activate e x c p fl k) p) = TASK_ON_RQ_QUEUED"
    unfolding eq ttwu_do_wakeup_effect(2) [OF assms] by (simp add: activate_task_def)
qed

lemma wait_cpu_params:
  assumes "wake_law e x"
  shows "params_same (upd_task p (\<lambda>t. t\<lparr>t_on_cpu := False\<rparr>) k) (wait_cpu x p k)"
proof (cases "t_on_cpu (tasks k p)")
  case False
  then have "(tasks k p)\<lparr>t_on_cpu := False\<rparr> = tasks k p" by (cases "tasks k p") simp
  then have "upd_task p (\<lambda>t. t\<lparr>t_on_cpu := False\<rparr>) k = k" by (simp add: upd_task_def)
  then show ?thesis using False by (simp add: wait_cpu_def)
qed (use assms in \<open>simp add: wait_cpu_def wake_law_def\<close>)

text \<open>A task that is left on the wake list of the CPU it was assigned to.\<close>

definition listed :: "tid \<Rightarrow> kernel \<Rightarrow> kernel \<Rightarrow> bool" where
  "listed p k k' \<longleftrightarrow> others_same p k k' \<and> t_state (tasks k' p) = TASK_WAKING \<and>
     p \<in> set (rq_wake_list (rqs k' (t_cpu (tasks k' p)))) \<and> t_cpu (tasks k' p) \<noteq> this_cpu k'"

lemma ttwu_queue_wakelist_effect:
  assumes "wake_law e x" and "ttwu_queue_wakelist e x p c fl k = (True, k')" and "t_state (tasks k p) = TASK_WAKING"
    and "t_cpu (tasks k p) = c"
  shows "listed p k k'" "is_cpu_allowed x k' p = is_cpu_allowed x k p" "t_cpu (tasks k' p) = c"
proof -
  let ?f = "\<lambda>t. t\<lparr>t_sched_remote_wakeup := flag_set fl (WF_MIGRATED e)\<rparr>"
  let ?k1 = "upd_rq c (\<lambda>rq. rq\<lparr>rq_ttwu_pending := True\<rparr>) (upd_task p ?f k)"
  have eq: "k' = smp_call_single_queue x c p ?k1" and c: "c \<noteq> this_cpu k"
    using assms(2) by (auto simp: ttwu_queue_wakelist_def k__ttwu_queue_wakelist_def split: if_splits)
  have sf: "sched_frame ?k1 k'" and l: "rq_wake_list (rqs k' c) = rq_wake_list (rqs ?k1 c) @ [p]"
    using assms(1) by (simp_all add: eq wake_law_def)
  have "params_same (upd_task p ?f k) ?k1" by (rule params_same_upd_rq) simp
  note ps = params_same_trans [OF this sched_frame_params [OF sf]]
  then have t: "task_params (tasks k' p) = task_params (?f (tasks k p))" by (simp add: params_same_def)
  have o: "others_same p k k'" by (rule others_same_trans [OF others_same_upd params_others_same [OF ps]]) simp
  show cpu: "t_cpu (tasks k' p) = c" using task_params_sel(9) [OF t] assms(4) by simp
  have "this_cpu k' = this_cpu k" using o by (simp add: others_same_def rest_same_def)
  then show "listed p k k'"
    using o cpu c l task_params_sel2(5) [OF t] assms(3) by (simp add: listed_def)
  show "is_cpu_allowed x k' p = is_cpu_allowed x k p"
    using is_cpu_allowed_params [OF ps] is_cpu_allowed_cong [of "upd_task p ?f k" p k] by (simp add: upd_task_def kfix_def)
qed

lemma ttwu_queue_effect:
  assumes "kops_frame x" and "wake_law e x" and "t_state (tasks k p) = TASK_WAKING" and "t_cpu (tasks k p) = c"
    and "is_cpu_allowed x k p c"
  shows "let k' = ttwu_queue e x p c fl k
    in is_cpu_allowed x k' p (t_cpu (tasks k' p)) \<and>
       (activated x p k k' \<and> t_on_rq (tasks k' p) = TASK_ON_RQ_QUEUED \<or> listed p k k')"
proof (cases "fst (ttwu_queue_wakelist e x p c fl k)")
  case True
  then obtain k1 where "ttwu_queue_wakelist e x p c fl k = (True, k1)" by (cases "ttwu_queue_wakelist e x p c fl k") simp
  from ttwu_queue_wakelist_effect [OF assms(2) this assms(3,4)] this show ?thesis using assms(5) by (simp add: ttwu_queue_def)
next
  case False
  then have eq: "ttwu_queue e x p c fl k = ttwu_do_activate e x c p fl (update_rq_clock e x c k)"
    by (auto simp: ttwu_queue_def ttwu_queue_wakelist_def split: if_splits)
  have ps: "params_same k (update_rq_clock e x c k)" by (intro sched_frame_params) simp
  from params_activated [OF ps ttwu_do_activate_effect(1) [OF assms(1,2)]]
  have a: "activated x p k (ttwu_queue e x p c fl k)" unfolding eq .
  then have "is_cpu_allowed x (ttwu_queue e x p c fl k) p (t_cpu (tasks (ttwu_queue e x p c fl k) p))"
    using assms(4,5) by (auto simp: activated_def)
  then show ?thesis using a ttwu_do_activate_effect(2) [OF assms(1,2)] by (simp add: eq)
qed

text \<open>The outcome of a wakeup that had to find a CPU.\<close>

definition placed :: "tid \<Rightarrow> kernel \<Rightarrow> bool" where
  "placed p k \<longleftrightarrow>
     (if t_state (tasks k p) = TASK_WAKING
      then p \<in> set (rq_wake_list (rqs k (t_cpu (tasks k p)))) \<and> t_cpu (tasks k p) \<noteq> this_cpu k
      else t_state (tasks k p) = TASK_RUNNING \<and> t_on_rq (tasks k p) = TASK_ON_RQ_QUEUED)"

lemma ttwu_place_effect:
  assumes "kops_frame x" and "aff_law e x" and "wake_law e x" and "t_state (tasks k p) = TASK_WAKING"
    and "ttwu_place e x p fl k = Some k'"
  shows "others_same p k k' \<and> placed p k' \<and> is_cpu_allowed x k' p (t_cpu (tasks k' p))"
proof -
  obtain c k1 where sel: "select_task_rq e x p (t_wake_cpu (tasks k p)) (fl OR WF_TTWU e) k = Some (c, k1)"
    using assms(5) by (auto simp: ttwu_place_def split: option.splits)
  from select_task_rq_ok [OF assms(1-3) sel] have al: "is_cpu_allowed x k1 p c" and ch: "mask_change p k k1" by auto
  note ce = mask_change_effect [OF ch]
  obtain k2 fl' where o2: "others_same p k1 k2" and al2: "is_cpu_allowed x k2 p = is_cpu_allowed x k1 p"
    and s2: "t_state (tasks k2 p) = t_state (tasks k1 p)" and c2: "t_cpu (tasks k2 p) = c"
    and k': "k' = ttwu_queue e x p c fl' k2"
  proof (cases "task_rq k1 p = c")
    case True
    then show ?thesis using that [of k1 fl] assms(5) sel by (simp add: ttwu_place_def task_rq_def)
  next
    case False
    let ?ka = "if t_in_iowait (tasks k1 p) then upd_rq (task_rq k1 p) (\<lambda>rq. rq\<lparr>rq_nr_iowait := rq_nr_iowait rq - 1\<rparr>) k1 else k1"
    let ?f = "\<lambda>t. t\<lparr>t_cpu := c, t_wake_cpu := c\<rparr>"
    have a: "params_same k1 ?ka" by (auto intro: params_same_upd_rq)
    have "params_same (upd_task p ?f k1) (upd_task p ?f ?ka)"
      by (rule params_same_upd_task [OF a]) (simp add: task_params_def task_core_def)
    note b = params_same_trans [OF this set_task_cpu_params [OF assms(2)]]
    then have t: "task_params (tasks (set_task_cpu x p c ?ka) p) = task_params (?f (tasks k1 p))" by (simp add: params_same_def)
    have "others_same p k1 (set_task_cpu x p c ?ka)"
      by (rule others_same_trans [OF others_same_upd params_others_same [OF b]]) simp
    moreover have "is_cpu_allowed x (set_task_cpu x p c ?ka) p = is_cpu_allowed x k1 p"
      using is_cpu_allowed_params [OF b] is_cpu_allowed_cong [of "upd_task p ?f k1" p k1] by (simp add: upd_task_def kfix_def)
    moreover have "t_state (tasks (set_task_cpu x p c ?ka) p) = t_state (tasks k1 p)" "t_cpu (tasks (set_task_cpu x p c ?ka) p) = c"
      using task_params_sel2(5) [OF t] task_params_sel(9) [OF t] by simp_all
    moreover have "k' = ttwu_queue e x p c (fl OR WF_MIGRATED e) (set_task_cpu x p c ?ka)"
      using False assms(5) sel by (simp add: ttwu_place_def Let_def)
    ultimately show ?thesis using that by blast
  qed
  have o: "others_same p k k2" by (rule others_same_trans [OF ce(1) o2])
  have "t_state (tasks k2 p) = TASK_WAKING" using s2 ce(2) assms(4) by simp
  from ttwu_queue_effect [OF assms(1,3) this c2, of fl'] al al2
  have q: "is_cpu_allowed x k' p (t_cpu (tasks k' p))"
    "activated x p k2 k' \<and> t_on_rq (tasks k' p) = TASK_ON_RQ_QUEUED \<or> listed p k2 k'" by (simp_all add: k' Let_def)
  then have "others_same p k2 k'" by (auto simp: activated_def listed_def)
  with q show ?thesis using others_same_trans [OF o] by (auto simp: placed_def activated_def listed_def TASK_WAKING_def TASK_RUNNING_def)
qed

lemma ttwu_place_total:
  assumes "kops_frame x" and "aff_law e x" and "wake_law e x" and "refuge x p k r"
  shows "\<exists>k'. ttwu_place e x p fl k = Some k'"
  using select_task_rq_total [OF assms, of "t_wake_cpu (tasks k p)" "fl OR WF_TTWU e"] by (auto simp: ttwu_place_def Let_def split: prod.split)

lemma ttwu_asleep_effect:
  assumes "kops_frame x" and "aff_law e x" and "wake_law e x" and "p \<noteq> current k" and "flag_set (t_state (tasks k p)) state"
    and "t_on_rq (tasks k p) \<noteq> TASK_ON_RQ_QUEUED" and "try_to_wake_up e x p state fl k = Some (b, k')"
  shows "b \<and> others_same p k k' \<and> placed p k' \<and> (\<not> t_on_cpu (tasks k p) \<longrightarrow> is_cpu_allowed x k' p (t_cpu (tasks k' p)))"
proof -
  let ?k1 = "upd_task p (\<lambda>t. t\<lparr>t_state := TASK_WAKING\<rparr>) k"
  let ?q = "if t_on_cpu (tasks k p) then ttwu_queue_wakelist e x p (task_rq k p) (fl OR WF_ON_CPU e) ?k1 else (False, ?k1)"
  have nr: "\<not> task_on_rq_queued (tasks k p)" using assms(6) by (simp add: task_on_rq_queued_def)
  have eq: "(if fst ?q then Some (True, snd ?q) else map_option (Pair True) (ttwu_place e x p fl (wait_cpu x p (snd ?q)))) = Some (b, k')"
    using assms(4,5,7) nr
    by (simp add: try_to_wake_up_def ttwu_state_match_def ttwu_runnable_def Let_def task_rq_def case_prod_beta split: if_splits)
  have o1: "others_same p k ?k1" by (rule others_same_upd) simp
  show ?thesis
  proof (cases "fst ?q")
    case True
    then have oc: "t_on_cpu (tasks k p)" and "ttwu_queue_wakelist e x p (task_rq k p) (fl OR WF_ON_CPU e) ?k1 = (True, k')"
      and "b" using eq by (auto split: if_splits simp: prod_eq_iff)
    from ttwu_queue_wakelist_effect(1) [OF assms(3) this(2)] have "listed p ?k1 k'" by (simp add: task_rq_def)
    then show ?thesis using oc \<open>b\<close> others_same_trans [OF o1] by (auto simp: listed_def placed_def TASK_WAKING_def TASK_RUNNING_def)
  next
    case False
    then have q: "snd ?q = ?k1" by (auto simp: ttwu_queue_wakelist_def split: if_splits)
    let ?k2 = "wait_cpu x p ?k1"
    have b: "b" and pl: "ttwu_place e x p fl ?k2 = Some k'" using eq False unfolding q by auto
    have ps: "params_same (upd_task p (\<lambda>t. t\<lparr>t_on_cpu := False\<rparr>) ?k1) ?k2" by (rule wait_cpu_params [OF assms(3)])
    have "others_same p ?k1 (upd_task p (\<lambda>t. t\<lparr>t_on_cpu := False\<rparr>) ?k1)" by (rule others_same_upd) simp
    from others_same_trans [OF o1 others_same_trans [OF this params_others_same [OF ps]]] have o2: "others_same p k ?k2" .
    have "task_params (tasks ?k2 p) = task_params ((tasks ?k1 p)\<lparr>t_on_cpu := False\<rparr>)" using ps by (simp add: params_same_def)
    from task_params_sel2(5) [OF this] have "t_state (tasks ?k2 p) = TASK_WAKING" by simp
    from ttwu_place_effect [OF assms(1-3) this pl] b show ?thesis using others_same_trans [OF o2] by blast
  qed
qed

lemma ttwu_queued_effect:
  assumes "kops_frame x" and "wake_law e x" and "p \<noteq> current k" and "flag_set (t_state (tasks k p)) state"
    and "t_on_rq (tasks k p) = TASK_ON_RQ_QUEUED"
  shows "\<exists>k'. try_to_wake_up e x p state fl k = Some (True, k') \<and> activated x p k k' \<and> t_on_rq (tasks k' p) = TASK_ON_RQ_QUEUED"
proof -
  let ?k1 = "update_rq_clock e x (task_rq k p) k"
  let ?k' = "ttwu_do_wakeup e x (task_rq k p) p fl ?k1"
  have eq: "try_to_wake_up e x p state fl k = Some (True, ?k')"
    using assms(3-5) by (simp add: try_to_wake_up_def ttwu_state_match_def ttwu_runnable_def task_on_rq_queued_def Let_def)
  have ps: "params_same k ?k1" by (intro sched_frame_params) simp
  then have "t_on_rq (tasks ?k1 p) = t_on_rq (tasks k p)" unfolding params_same_def using task_params_sel(8) by blast
  then have "t_on_rq (tasks ?k' p) = TASK_ON_RQ_QUEUED" using ttwu_do_wakeup_effect(2) [OF assms(1,2)] assms(5) by simp
  with eq show ?thesis using params_activated [OF ps ttwu_do_wakeup_effect(1) [OF assms(1,2)]] by blast
qed

text \<open>Every successful wakeup leaves the other tasks alone and ends the sleep of the task.\<close>

lemma try_to_wake_up_ok:
  assumes "kops_frame x" and "aff_law e x" and "wake_law e x" and "try_to_wake_up e x p state fl k = Some (b, k')"
  shows "others_same p k k' \<and> b = flag_set (t_state (tasks k p)) state \<and>
    (b \<longrightarrow> t_state (tasks k' p) \<in> {TASK_RUNNING, TASK_WAKING}) \<and> (\<not> b \<longrightarrow> k' = k)"
proof (cases "flag_set (t_state (tasks k p)) state")
  case False
  then show ?thesis using assms(4) by (simp add: try_to_wake_up_def ttwu_state_match_def split: if_splits)
next
  case m: True
  consider "p = current k" | "p \<noteq> current k" "t_on_rq (tasks k p) = TASK_ON_RQ_QUEUED" | "p \<noteq> current k" "t_on_rq (tasks k p) \<noteq> TASK_ON_RQ_QUEUED"
    by blast
  then show ?thesis
  proof cases
    case 1
    then have "b" "k' = upd_task p (\<lambda>t. t\<lparr>t_state := TASK_RUNNING\<rparr>) k"
      using assms(4) m by (simp_all add: try_to_wake_up_def ttwu_state_match_def)
    moreover have "others_same p k (upd_task p (\<lambda>t. t\<lparr>t_state := TASK_RUNNING\<rparr>) k)" by (rule others_same_upd) simp
    ultimately show ?thesis using m by simp
  next
    case 2
    from ttwu_queued_effect [OF assms(1,3) 2(1) m 2(2), of fl] m show ?thesis using assms(4) by (auto simp: activated_def)
  next
    case 3
    from ttwu_asleep_effect [OF assms(1-3) 3(1) m 3(2) assms(4)] m show ?thesis by (auto simp: placed_def split: if_splits)
  qed
qed

lemma try_to_wake_up_total:
  assumes "kops_frame x" and "aff_law e x" and "wake_law e x" and "refuge x p k r"
  shows "\<exists>b k'. try_to_wake_up e x p state fl k = Some (b, k')"
proof -
  let ?k1 = "upd_task p (\<lambda>t. t\<lparr>t_state := TASK_WAKING\<rparr>) k"
  have ps: "params_same (upd_task p (\<lambda>t. t\<lparr>t_on_cpu := False\<rparr>) ?k1) (wait_cpu x p ?k1)" by (rule wait_cpu_params [OF assms(3)])
  then have t: "task_params (tasks (wait_cpu x p ?k1) p) = task_params ((tasks ?k1 p)\<lparr>t_on_cpu := False\<rparr>)"
    and kf: "kfix (wait_cpu x p ?k1) = kfix k" by (simp_all add: params_same_def kfix_def upd_task_def)
  have "refuge x p (wait_cpu x p ?k1) r"
    using assms(4) task_params_sel2(2,3) [OF t] kf by (simp add: refuge_def kfix_def)
  then obtain k2 where p: "ttwu_place e x p fl (wait_cpu x p ?k1) = Some k2" using ttwu_place_total [OF assms(1-3)] by blast
  show ?thesis
  proof (cases "p = current k \<or> \<not> flag_set (t_state (tasks k p)) state")
    case True
    then show ?thesis by (auto simp: try_to_wake_up_def ttwu_state_match_def)
  next
    case False
    then show ?thesis using ttwu_queued_effect [OF assms(1,3), of p k state fl] p
      by (cases "t_on_rq (tasks k p) = TASK_ON_RQ_QUEUED")
        (auto simp: try_to_wake_up_def ttwu_state_match_def ttwu_runnable_def ttwu_queue_wakelist_def Let_def task_on_rq_queued_def split: if_split)
  qed
qed

subsection \<open>The wake list of a CPU\<close>

lemma ttwu_pending_entry_effect:
  assumes "kops_frame x" and "aff_law e x" and "wake_law e x"
  shows "others_same p k (ttwu_pending_entry e x c p k)" "t_state (tasks (ttwu_pending_entry e x c p k) p) = TASK_RUNNING"
    "t_on_rq (tasks (ttwu_pending_entry e x c p k) p) = TASK_ON_RQ_QUEUED"
proof -
  let ?k1 = "wait_cpu x p k"
  let ?k2 = "if task_rq ?k1 p \<noteq> c then set_task_cpu x p c ?k1 else ?k1"
  have "others_same p k (upd_task p (\<lambda>t. t\<lparr>t_on_cpu := False\<rparr>) k)" by (rule others_same_upd) simp
  from others_same_trans [OF this params_others_same [OF wait_cpu_params [OF assms(3)]]] have o1: "others_same p k ?k1" .
  have "others_same p ?k1 (upd_task p (\<lambda>t. t\<lparr>t_cpu := c, t_wake_cpu := c\<rparr>) ?k1)" by (rule others_same_upd) simp
  from others_same_trans [OF this params_others_same [OF set_task_cpu_params [OF assms(2)]]] have "others_same p ?k1 ?k2" by simp
  note o2 = others_same_trans [OF o1 this]
  have eq: "ttwu_pending_entry e x c p k = ttwu_do_activate e x c p (if t_sched_remote_wakeup (tasks ?k2 p) then WF_MIGRATED e else 0) ?k2"
    by (simp add: ttwu_pending_entry_def Let_def)
  note a = ttwu_do_activate_effect [OF assms(1,3), where p = p and k = ?k2 and c = c and
      fl = "if t_sched_remote_wakeup (tasks ?k2 p) then WF_MIGRATED e else 0", folded eq]
  show "others_same p k (ttwu_pending_entry e x c p k)" "t_state (tasks (ttwu_pending_entry e x c p k) p) = TASK_RUNNING"
    using a(1) others_same_trans [OF o2] by (simp_all add: activated_def)
  show "t_on_rq (tasks (ttwu_pending_entry e x c p k) p) = TASK_ON_RQ_QUEUED" by (rule a(2))
qed

definition runs :: "kernel \<Rightarrow> tid \<Rightarrow> bool" where
  "runs k p \<longleftrightarrow> t_state (tasks k p) = TASK_RUNNING \<and> t_on_rq (tasks k p) = TASK_ON_RQ_QUEUED"

lemma runs_others: "others_same q k k' \<Longrightarrow> p \<noteq> q \<Longrightarrow> runs k' p = runs k p"
  unfolding others_same_def runs_def using task_place_sel(1,2) by metis

lemma ttwu_pending_fold:
  assumes "kops_frame x" and "aff_law e x" and "wake_law e x" and "p \<in> set ps \<or> runs k p"
  shows "runs (fold (ttwu_pending_entry e x c) ps k) p"
  using assms(4)
proof (induction ps arbitrary: k)
  case (Cons q ps)
  have "runs (ttwu_pending_entry e x c q k) q" using ttwu_pending_entry_effect(2,3) [OF assms(1-3)] by (simp add: runs_def)
  then have "p \<in> set ps \<or> runs (ttwu_pending_entry e x c q k) p"
    using Cons.prems runs_others [OF ttwu_pending_entry_effect(1) [OF assms(1-3)], of p q] by (cases "p = q") auto
  from Cons.IH [OF this] show ?case by simp
qed simp

lemma ttwu_pending_ok:
  assumes "kops_frame x" and "aff_law e x" and "wake_law e x" and "p \<in> set ps"
  shows "runs (sched_ttwu_pending e x ps k) p"
proof -
  have "ps \<noteq> []" using assms(4) by auto
  then show ?thesis using ttwu_pending_fold [OF assms(1-3), of p ps] assms(4) by (simp add: sched_ttwu_pending_def Let_def)
qed

subsection \<open>Wake queues are lists\<close>

text \<open>The tasks on the chain of nodes from \<open>n\<close>, and a head that stands for a list of tasks.\<close>

primrec wq_path :: "kernel \<Rightarrow> wake_q_node \<Rightarrow> tid list \<Rightarrow> bool" where
  "wq_path k n [] \<longleftrightarrow> n = WAKE_Q_TAIL"
| "wq_path k n (t # ts) \<longleftrightarrow> n = WQ_node t \<and> wq_path k (t_wake_q (tasks k t)) ts"

definition wq_rel :: "wake_q_head \<Rightarrow> kernel \<Rightarrow> tid list \<Rightarrow> bool" where
  "wq_rel head k ts \<longleftrightarrow> distinct ts \<and> wq_path k (wq_first head) ts \<and> wq_lastp head = (if ts = [] then None else Some (last ts))"

lemma wq_rel_init: "wq_rel wake_q_init k []"
  by (simp add: wq_rel_def wake_q_init_def)

lemma wq_path_cong: "(\<And>t. t \<in> set ts \<Longrightarrow> t_wake_q (tasks k' t) = t_wake_q (tasks k t)) \<Longrightarrow> wq_path k' n ts = wq_path k n ts"
  by (induction ts arbitrary: n) auto

lemma wq_path_queued: "wq_path k n ts \<Longrightarrow> t \<in> set ts \<Longrightarrow> t_wake_q (tasks k t) \<noteq> WQ_NULL"
proof (induction ts arbitrary: n)
  case (Cons a ts)
  show ?case
  proof (cases "t = a")
    case True
    then show ?thesis using Cons.prems by (cases ts) auto
  qed (use Cons in auto)
qed simp

lemma wq_path_extend:
  assumes "wq_path k n ts" and "distinct ts" and "ts \<noteq> []" and "t_wake_q (tasks k' t) = WAKE_Q_TAIL"
    and "t_wake_q (tasks k' (last ts)) = WQ_node t"
    and "\<And>u. u \<in> set ts \<Longrightarrow> u \<noteq> last ts \<Longrightarrow> t_wake_q (tasks k' u) = t_wake_q (tasks k u)"
  shows "wq_path k' n (ts @ [t])"
  using assms
proof (induction ts arbitrary: n)
  case (Cons a ts)
  show ?case
  proof (cases "ts = []")
    case False
    then have "last ts \<noteq> a" using Cons.prems(2) by (metis distinct.simps(2) last_in_set)
    then have "t_wake_q (tasks k' a) = t_wake_q (tasks k a)" using Cons.prems(6) [of a] False by auto
    then show ?thesis using Cons.IH [of "t_wake_q (tasks k a)"] Cons.prems False by simp
  qed (use Cons.prems in simp)
qed simp

lemma wake_q_add_rel:
  assumes "wq_rel head k ts"
  shows "case wake_q_add head t k of (head', k') \<Rightarrow>
    wq_rel head' k' (if t_wake_q (tasks k t) = WQ_NULL then ts @ [t] else ts) \<and>
    (\<forall>q. t_usage (tasks k' q) = t_usage (tasks k q) + of_bool (q = t \<and> t_wake_q (tasks k t) = WQ_NULL)) \<and>
    (\<forall>q. t_wake_q (tasks k' q) = WQ_NULL \<longleftrightarrow> t_wake_q (tasks k q) = WQ_NULL \<and> q \<noteq> t)"
proof (cases "t_wake_q (tasks k t) = WQ_NULL")
  case False
  then show ?thesis using assms by (auto simp: wake_q_add_def k__wake_q_add_def)
next
  case True
  have d: "distinct ts" and pa: "wq_path k (wq_first head) ts" and l: "wq_lastp head = (if ts = [] then None else Some (last ts))"
    using assms by (simp_all add: wq_rel_def)
  have nt: "t \<notin> set ts" using wq_path_queued [OF pa] True by blast
  show ?thesis
  proof (cases "ts = []")
    case True
    then show ?thesis using \<open>t_wake_q (tasks k t) = WQ_NULL\<close> l
      by (auto simp: wake_q_add_def k__wake_q_add_def get_task_struct_def wq_rel_def)
  next
    case ne: False
    then have lt: "last ts \<in> set ts" "last ts \<noteq> t" using nt by (auto dest: last_in_set)
    have lq: "t_wake_q (tasks k (last ts)) \<noteq> WQ_NULL" by (rule wq_path_queued [OF pa lt(1)])
    let ?k1 = "get_task_struct t (upd_task (last ts) (\<lambda>u. u\<lparr>t_wake_q := WQ_node t\<rparr>) (upd_task t (\<lambda>u. u\<lparr>t_wake_q := WAKE_Q_TAIL\<rparr>) k))"
    have "wq_path ?k1 (wq_first head) (ts @ [t])"
      using nt lt by (intro wq_path_extend [OF pa d ne]) (auto simp: get_task_struct_def)
    then show ?thesis using True l ne d nt lt lq
      by (simp add: wake_q_add_def k__wake_q_add_def wq_rel_def get_task_struct_def)
  qed
qed

text \<open>The tasks of a list are woken one after the other.\<close>

fun wake_all :: "kenv \<Rightarrow> kops \<Rightarrow> tid list \<Rightarrow> kernel \<Rightarrow> kernel option" where
  "wake_all e x [] k = Some k"
| "wake_all e x (t # ts) k = (case wake_one e x t k of None \<Rightarrow> None | Some k' \<Rightarrow> wake_all e x ts k')"

text \<open>The effect of waking one queued task, and that it is possible.\<close>

definition unqueued :: "tid \<Rightarrow> kernel \<Rightarrow> kernel \<Rightarrow> bool" where
  "unqueued t k k' \<longleftrightarrow> kfix k' = kfix k \<and>
     (\<forall>q. t_wake_q (tasks k' q) = (if q = t then WQ_NULL else t_wake_q (tasks k q))) \<and>
     (\<forall>q. t_usage (tasks k' q) = t_usage (tasks k q) - of_bool (q = t)) \<and>
     (\<forall>q. q \<noteq> t \<longrightarrow> task_place (tasks k' q) = task_place (tasks k q)) \<and>
     (if flag_set (t_state (tasks k t)) TASK_NORMAL then t_state (tasks k' t) \<in> {TASK_RUNNING, TASK_WAKING}
      else t_state (tasks k' t) = t_state (tasks k t))"

lemma wake_one_ok:
  assumes "kops_frame x" and "aff_law e x" and "wake_law e x" and "refuge x t k r"
  shows "\<exists>k'. wake_one e x t k = Some k' \<and> unqueued t k k'"
proof -
  let ?k1 = "upd_task t (\<lambda>u. u\<lparr>t_wake_q := WQ_NULL\<rparr>) k"
  have "refuge x t ?k1 r" using assms(4) by (simp add: refuge_def) (simp add: upd_task_def)
  then obtain b k2 where w: "try_to_wake_up e x t TASK_NORMAL 0 ?k1 = Some (b, k2)" using try_to_wake_up_total [OF assms(1-3)] by blast
  from try_to_wake_up_ok [OF assms(1-3) this]
  have "unqueued t k (put_task_struct t k2)"
    by (auto simp: unqueued_def put_task_struct_def others_same_def rest_same_def) (simp_all add: kfix_def upd_task_def)
  then show ?thesis using w by (simp add: wake_one_def wake_up_process_def)
qed

lemma unqueued_sel:
  assumes "unqueued t k k'" and "q \<noteq> t"
  shows "t_state (tasks k' q) = t_state (tasks k q)" "refuge x q k' r = refuge x q k r" "t_wake_q (tasks k' q) = t_wake_q (tasks k q)"
proof -
  have "task_place (tasks k' q) = task_place (tasks k q)" and kf: "kfix k' = kfix k"
    and "t_wake_q (tasks k' q) = t_wake_q (tasks k q)" using assms by (simp_all add: unqueued_def)
  then show "t_state (tasks k' q) = t_state (tasks k q)" "refuge x q k' r = refuge x q k r"
    "t_wake_q (tasks k' q) = t_wake_q (tasks k q)"
    using task_place_sel [of "tasks k' q" "tasks k q"] by (simp_all add: refuge_def kfix_def)
qed

definition woken_all :: "tid set \<Rightarrow> kernel \<Rightarrow> kernel \<Rightarrow> bool" where
  "woken_all T k k' \<longleftrightarrow>
     (\<forall>q. t_wake_q (tasks k' q) = (if q \<in> T then WQ_NULL else t_wake_q (tasks k q))) \<and>
     (\<forall>q. t_usage (tasks k' q) = t_usage (tasks k q) - of_bool (q \<in> T)) \<and>
     (\<forall>q. if q \<in> T \<and> flag_set (t_state (tasks k q)) TASK_NORMAL then t_state (tasks k' q) \<in> {TASK_RUNNING, TASK_WAKING}
      else t_state (tasks k' q) = t_state (tasks k q))"

lemma wake_all_ok:
  assumes "kops_frame x" and "aff_law e x" and "wake_law e x"
  shows "distinct ts \<Longrightarrow> \<forall>t \<in> set ts. \<exists>r. refuge x t k r \<Longrightarrow> \<exists>k'. wake_all e x ts k = Some k' \<and> woken_all (set ts) k k'"
proof (induction ts arbitrary: k)
  case Nil
  then show ?case by (simp add: woken_all_def)
next
  case (Cons t ts)
  obtain r where "refuge x t k r" using Cons.prems by auto
  then obtain k1 where w: "wake_one e x t k = Some k1" and u: "unqueued t k k1" using wake_one_ok [OF assms] by blast
  have "\<forall>t \<in> set ts. \<exists>r. refuge x t k1 r"
    using Cons.prems unqueued_sel(2) [OF u] by (metis distinct.simps(2) list.set_intros(2))
  then obtain k' where w': "wake_all e x ts k1 = Some k'" and a: "woken_all (set ts) k1 k'"
    using Cons.IH [of k1] Cons.prems(1) by (metis distinct.simps(2))
  have nt: "t \<notin> set ts" using Cons.prems by simp
  have "(if q \<in> set (t # ts) \<and> flag_set (t_state (tasks k q)) TASK_NORMAL then t_state (tasks k' q) \<in> {TASK_RUNNING, TASK_WAKING}
      else t_state (tasks k' q) = t_state (tasks k q))" for q
  proof (cases "q = t")
    case True
    have "t_state (tasks k' t) = t_state (tasks k1 t)" using a nt by (simp add: woken_all_def)
    then show ?thesis using True u by (auto simp: unqueued_def)
  next
    case False
    then show ?thesis using a unqueued_sel(1) [OF u False] unfolding woken_all_def by (metis set_ConsD list.set_intros(2))
  qed
  moreover have "t_wake_q (tasks k' q) = (if q \<in> set (t # ts) then WQ_NULL else t_wake_q (tasks k q))"
    "t_usage (tasks k' q) = t_usage (tasks k q) - of_bool (q \<in> set (t # ts))" for q
    using a u nt by (auto simp: woken_all_def unqueued_def)
  ultimately have "woken_all (set (t # ts)) k k'" unfolding woken_all_def by blast
  then show ?case using w w' by simp
qed

lemma wake_up_nodes_all:
  assumes "kops_frame x" and "aff_law e x" and "wake_law e x"
  shows "distinct ts \<Longrightarrow> wq_path k n ts \<Longrightarrow> \<forall>t \<in> set ts. \<exists>r. refuge x t k r \<Longrightarrow> wake_up_nodes e x n k = wake_all e x ts k"
proof (induction ts arbitrary: k n)
  case Nil
  then show ?case by (subst wake_up_nodes.simps) simp
next
  case (Cons t ts)
  obtain r where "refuge x t k r" using Cons.prems by auto
  then obtain k1 where w: "wake_one e x t k = Some k1" and u: "unqueued t k k1" using wake_one_ok [OF assms] by blast
  have nt: "t \<notin> set ts" using Cons.prems by simp
  have "wq_path k1 (t_wake_q (tasks k t)) ts"
    using Cons.prems nt unqueued_sel(3) [OF u] wq_path_cong [of ts k1 k] by (metis wq_path.simps(2))
  moreover have "\<forall>t \<in> set ts. \<exists>r. refuge x t k1 r"
    using Cons.prems unqueued_sel(2) [OF u] by (metis distinct.simps(2) list.set_intros(2))
  ultimately have "wake_up_nodes e x (t_wake_q (tasks k t)) k1 = wake_all e x ts k1" using Cons.IH Cons.prems by simp
  then show ?case using Cons.prems w by (subst wake_up_nodes.simps) simp
qed

text \<open>A caller that adds tasks one after the other.\<close>

definition wake_q_adds :: "tid list \<Rightarrow> kernel \<Rightarrow> wake_q_head \<times> kernel" where
  "wake_q_adds ts k = fold (\<lambda>t (head, k). wake_q_add head t k) ts (wake_q_init, k)"

lemma wake_q_adds_rel:
  assumes "\<And>t. t \<in> set ts \<Longrightarrow> t_wake_q (tasks k t) = WQ_NULL"
  shows "case wake_q_adds ts k of (head, k') \<Rightarrow> wq_rel head k' (rev (remdups (rev ts))) \<and>
    (\<forall>q. t_usage (tasks k' q) = t_usage (tasks k q) + of_bool (q \<in> set ts)) \<and>
    (\<forall>q. t_wake_q (tasks k' q) = WQ_NULL \<longleftrightarrow> t_wake_q (tasks k q) = WQ_NULL \<and> q \<notin> set ts)"
  using assms
proof (induction ts rule: rev_induct)
  case Nil
  then show ?case by (simp add: wake_q_adds_def wq_rel_init)
next
  case (snoc t ts)
  obtain head k1 where a: "wake_q_adds ts k = (head, k1)" by (cases "wake_q_adds ts k") auto
  have rel: "wq_rel head k1 (rev (remdups (rev ts)))"
    and us: "t_usage (tasks k1 q) = t_usage (tasks k q) + of_bool (q \<in> set ts)"
    and nu: "t_wake_q (tasks k1 q) = WQ_NULL \<longleftrightarrow> t_wake_q (tasks k q) = WQ_NULL \<and> q \<notin> set ts" for q
    using snoc a by auto
  have "t_wake_q (tasks k t) = WQ_NULL" using snoc.prems by simp
  then show ?case
    using wake_q_add_rel [OF rel, of t] a us nu by (auto simp: wake_q_adds_def split: prod.splits if_splits)
qed

lemma wake_q_add_same:
  "wake_q_add head t k = (head', k') \<Longrightarrow> t_state (tasks k' q) = t_state (tasks k q) \<and> t_cpus_ptr (tasks k' q) = t_cpus_ptr (tasks k q) \<and>
      t_migration_disabled (tasks k' q) = t_migration_disabled (tasks k q) \<and> kfix k' = kfix k"
  by (auto simp: wake_q_add_def k__wake_q_add_def get_task_struct_def kfix_def upd_task_def Let_def split: if_splits option.splits)

lemma wake_q_adds_same:
  "wake_q_adds ts k = (head', k') \<Longrightarrow> t_state (tasks k' q) = t_state (tasks k q) \<and> t_cpus_ptr (tasks k' q) = t_cpus_ptr (tasks k q) \<and>
      t_migration_disabled (tasks k' q) = t_migration_disabled (tasks k q) \<and> kfix k' = kfix k"
proof (induction ts arbitrary: head' k' rule: rev_induct)
  case (snoc t ts)
  obtain head1 k1 where a: "wake_q_adds ts k = (head1, k1)" by (cases "wake_q_adds ts k") auto
  then have "wake_q_add head1 t k1 = (head', k')" using snoc.prems by (simp add: wake_q_adds_def)
  from wake_q_add_same [OF this, of q] snoc.IH [OF a] show ?case by simp
qed (simp add: wake_q_adds_def)

subsection \<open>A task is inactive\<close>

text \<open>What a result other than zero says about the state in which the function returns.\<close>

definition inactive_result :: "tid \<Rightarrow> u32 \<Rightarrow> u64 \<times> kernel \<Rightarrow> bool" where
  "inactive_result p m = (\<lambda>(n, k). n \<noteq> 0 \<longrightarrow> \<not> t_on_cpu (tasks k p) \<and> \<not> task_on_rq_queued (tasks k p) \<and>
     n = of_nat (t_nvcsw (tasks k p)) OR LONG_MIN \<and> (m \<noteq> 0 \<longrightarrow> t_state (tasks k p) = m))"

lemma wait_task_inactive_off:
  assumes "wait_task_inactive relax lock timeout p m k = Some y"
  shows "inactive_result p m y"
proof (rule wait_task_inactive.raw_induct [where P = "\<lambda>_ _ _ p m _ y. inactive_result p m y", OF _ assms])
  fix f :: "(kernel \<Rightarrow> kernel) \<Rightarrow> (kernel \<Rightarrow> kernel) \<Rightarrow> (kernel \<Rightarrow> kernel) \<Rightarrow> tid \<Rightarrow> u32 \<Rightarrow> kernel \<Rightarrow> (u64 \<times> kernel) option"
    and relax lock timeout :: "kernel \<Rightarrow> kernel" and p m k and y :: "u64 \<times> kernel"
  assume IH: "\<And>relax lock timeout p m k y. f relax lock timeout p m k = Some y \<Longrightarrow> inactive_result p m y"
  assume "(if t_on_cpu (tasks k p)
      then if m \<noteq> 0 \<and> t_state (tasks k p) \<noteq> m then Some (0, k) else f relax lock timeout p m (relax k)
      else let k = lock k; running = t_on_cpu (tasks k p); queued = task_on_rq_queued (tasks k p);
               ncsw = (if m = 0 \<or> t_state (tasks k p) = m then of_nat (t_nvcsw (tasks k p)) OR LONG_MIN else 0)
           in if ncsw = 0 then Some (0, k)
              else if running then f relax lock timeout p m (relax k)
              else if queued then f relax lock timeout p m (timeout (set_current_state TASK_UNINTERRUPTIBLE k))
              else Some (ncsw, k)) = Some y"
  then show "inactive_result p m y"
    unfolding Let_def by (auto split: if_splits dest: IH) (auto simp: inactive_result_def)
qed

subsection \<open>Properties\<close>

text \<open>
  C28. Choosing a CPU for a task that wakes up always ends, without reaching \<^verbatim>\<open>BUG()\<close>, when some possible CPU is
  online, active and not dying, and the CPU that is returned is one the task is allowed on in the state the
  choice leaves.  If the CPU the class proposes is allowed, it is taken and nothing changes; otherwise at most the
  mask of this task changes.
\<close>

theorem select_task_rq_allowed:
  assumes "kops_frame x" and "aff_law e x" and "wake_law e x" and "refuge x p k r"
  shows "\<exists>d k'. select_task_rq e x p c fl k = Some (d, k') \<and> is_cpu_allowed x k' p d \<and> mask_change p k k' \<and>
    (let d' = op_select_task_rq x (t_sched_class (tasks k p)) p c fl k
     in t_nr_cpus_allowed (tasks k p) > 1 \<and> is_cpu_allowed x k p d' \<longrightarrow> d = d' \<and> k' = k)"
proof -
  obtain d k' where s: "select_task_rq e x p c fl k = Some (d, k')" using select_task_rq_total [OF assms] by blast
  moreover have "\<not> is_migration_disabled (tasks k p)" using assms(4) by (simp add: refuge_def is_migration_disabled_def)
  ultimately show ?thesis using select_task_rq_ok [OF assms(1-3) s] by (auto simp: select_task_rq_def Let_def)
qed

text \<open>
  C27. \<^verbatim>\<open>try_to_wake_up\<close> returns, and reports success exactly if the state of the task is among those asked for; otherwise
  nothing changes.  On success no other task changes, except that a task may be pushed to another CPU.  The current
  task is only set running; a task still on its run queue is set running there; a task that is off the run queue
  ends up running and queued, or waking and on the wake list of the other CPU it was assigned to, and if it had
  left its CPU before, that CPU is allowed.
\<close>

theorem try_to_wake_up_effect:
  assumes "kops_frame x" and "aff_law e x" and "wake_law e x" and "refuge x p k r"
  shows "\<exists>b k'. try_to_wake_up e x p state fl k = Some (b, k') \<and> b = flag_set (t_state (tasks k p)) state \<and>
    others_same p k k' \<and> (\<not> b \<longrightarrow> k' = k) \<and>
    (b \<and> p = current k \<longrightarrow> k' = upd_task p (\<lambda>t. t\<lparr>t_state := TASK_RUNNING\<rparr>) k) \<and>
    (b \<and> p \<noteq> current k \<and> t_on_rq (tasks k p) = TASK_ON_RQ_QUEUED \<longrightarrow>
       runs k' p \<and> (t_cpu (tasks k' p) = t_cpu (tasks k p) \<or> is_cpu_allowed x k' p (t_cpu (tasks k' p)))) \<and>
    (b \<and> p \<noteq> current k \<and> t_on_rq (tasks k p) \<noteq> TASK_ON_RQ_QUEUED \<longrightarrow>
       placed p k' \<and> (\<not> t_on_cpu (tasks k p) \<longrightarrow> is_cpu_allowed x k' p (t_cpu (tasks k' p))))"
proof -
  obtain b k' where w: "try_to_wake_up e x p state fl k = Some (b, k')" using try_to_wake_up_total [OF assms] by blast
  note ok = try_to_wake_up_ok [OF assms(1-3) w]
  have "b \<and> p = current k \<longrightarrow> k' = upd_task p (\<lambda>t. t\<lparr>t_state := TASK_RUNNING\<rparr>) k"
    using w by (auto simp: try_to_wake_up_def split: if_splits)
  moreover have "b \<and> p \<noteq> current k \<and> t_on_rq (tasks k p) = TASK_ON_RQ_QUEUED \<longrightarrow>
       runs k' p \<and> (t_cpu (tasks k' p) = t_cpu (tasks k p) \<or> is_cpu_allowed x k' p (t_cpu (tasks k' p)))"
    using ttwu_queued_effect [OF assms(1,3), of p k state fl] w ok by (auto simp: runs_def activated_def)
  moreover have "b \<and> p \<noteq> current k \<and> t_on_rq (tasks k p) \<noteq> TASK_ON_RQ_QUEUED \<longrightarrow>
       placed p k' \<and> (\<not> t_on_cpu (tasks k p) \<longrightarrow> is_cpu_allowed x k' p (t_cpu (tasks k' p)))"
    using ttwu_asleep_effect [OF assms(1-3) _ _ _ w] ok by auto
  ultimately show ?thesis using w ok by blast
qed

text \<open>
  C30. A wakeup that leaves its task waking has put it on the wake list of another CPU, and when that CPU handles
  the list, whatever has happened in between, the task is running and queued.
\<close>

theorem ttwu_pending_completes:
  assumes "kops_frame x" and "aff_law e x" and "wake_law e x" and "try_to_wake_up e x p state fl k = Some (True, k')"
    and "t_state (tasks k' p) = TASK_WAKING" and "p \<noteq> current k"
  shows "t_cpu (tasks k' p) \<noteq> this_cpu k' \<and> runs (sched_ttwu_pending e x (rq_wake_list (rqs k' (t_cpu (tasks k' p)))) k'') p"
proof -
  have m: "flag_set (t_state (tasks k p)) state" using try_to_wake_up_ok [OF assms(1-4)] by simp
  have "t_on_rq (tasks k p) \<noteq> TASK_ON_RQ_QUEUED"
    using ttwu_queued_effect [OF assms(1,3,6) m, of fl] assms(4,5) by (auto simp: activated_def TASK_WAKING_def TASK_RUNNING_def)
  from ttwu_asleep_effect [OF assms(1-3,6) m this assms(4)] have "placed p k'" by simp
  then show ?thesis using ttwu_pending_ok [OF assms(1-3)] assms(5) by (simp add: placed_def)
qed

text \<open>
  C29. A wake queue refines a list.  Adding tasks to a fresh queue and waking the queue is waking each of the tasks
  once, in the order in which they were first added; it comes to an end, no task stays marked as queued, every
  reference that was taken is given back, and each task that slept runs or is waking.
\<close>

theorem wake_up_q_refines:
  assumes "kops_frame x" and "aff_law e x" and "wake_law e x"
    and "\<forall>t \<in> set ts. t_wake_q (tasks k t) = WQ_NULL \<and> (\<exists>r. refuge x t k r)"
    and "wake_q_adds ts k = (head, k1)"
  shows "\<exists>k'. wake_up_q e x head k1 = Some k' \<and> wake_all e x (rev (remdups (rev ts))) k1 = Some k' \<and>
    (\<forall>t. t_usage (tasks k' t) = t_usage (tasks k t)) \<and>
    (\<forall>t \<in> set ts. t_wake_q (tasks k' t) = WQ_NULL \<and>
       (flag_set (t_state (tasks k t)) TASK_NORMAL \<longrightarrow> t_state (tasks k' t) \<in> {TASK_RUNNING, TASK_WAKING}))"
proof -
  let ?ts = "rev (remdups (rev ts))"
  have rel: "wq_rel head k1 ?ts" and us: "\<And>q. t_usage (tasks k1 q) = t_usage (tasks k q) + of_bool (q \<in> set ts)"
    using wake_q_adds_rel [of ts k] assms(4,5) by auto
  have same: "t_state (tasks k1 q) = t_state (tasks k q) \<and> t_cpus_ptr (tasks k1 q) = t_cpus_ptr (tasks k q) \<and>
      t_migration_disabled (tasks k1 q) = t_migration_disabled (tasks k q) \<and> kfix k1 = kfix k" for q
    using wake_q_adds_same [OF assms(5)] .
  have ref: "\<forall>t \<in> set ?ts. \<exists>r. refuge x t k1 r" using assms(4) same by (simp add: refuge_def kfix_def)
  obtain k' where w: "wake_all e x ?ts k1 = Some k'" and a: "woken_all (set ?ts) k1 k'"
    using wake_all_ok [OF assms(1-3) _ ref] by auto
  have "wake_up_q e x head k1 = Some k'"
    using wake_up_nodes_all [OF assms(1-3) _ _ ref] rel w by (simp add: wake_up_q_def wq_rel_def)
  moreover have "t_state (tasks k' t) \<in> {TASK_RUNNING, TASK_WAKING}" if "t \<in> set ts" "flag_set (t_state (tasks k t)) TASK_NORMAL" for t
    using a same that unfolding woken_all_def by (metis set_remdups set_rev)
  moreover have "t_usage (tasks k' t) = t_usage (tasks k t)" "t \<in> set ts \<Longrightarrow> t_wake_q (tasks k' t) = WQ_NULL" for t
    using a us by (simp_all add: woken_all_def)
  ultimately show ?thesis using w by blast
qed

text \<open>
  C39. The wakeup of a task that is still leaving its CPU does not look at the mask of the task.  If the CPU is active
  and at most one task runs on it, the task is put on its wake list even if it is not allowed there, although the
  scheduler relies on wakeups to place a task on a CPU of its mask.
\<close>

theorem ttwu_queue_ignores_mask:
  assumes "wake_law e x" and "sched_feat_TTWU_QUEUE x" and "WF_ON_CPU e \<noteq> 0" and "p \<noteq> current k"
    and "flag_set (t_state (tasks k p)) state" and "t_on_rq (tasks k p) = NOT_ON_RQ" and "t_on_cpu (tasks k p)"
    and "task_rq k p \<in> cpu_active_mask k" and "task_rq k p \<noteq> this_cpu k" and "rq_nr_running (rqs k (task_rq k p)) \<le> 1"
    and "task_rq k p \<notin> task_cpus_ptr (tasks k p)"
  shows "\<exists>k'. try_to_wake_up e x p state fl k = Some (True, k') \<and> t_cpu (tasks k' p) = task_rq k p \<and>
    p \<in> set (rq_wake_list (rqs k' (t_cpu (tasks k' p)))) \<and> \<not> is_cpu_allowed x k' p (t_cpu (tasks k' p))"
proof -
  let ?k1 = "upd_task p (\<lambda>t. t\<lparr>t_state := TASK_WAKING\<rparr>) k"
  let ?q = "ttwu_queue_wakelist e x p (task_rq k p) (fl OR WF_ON_CPU e) ?k1"
  have "flag_set (fl OR WF_ON_CPU e) (WF_ON_CPU e)" using assms(3) by (simp add: flag_set_or_left) (simp add: flag_set_def)
  then have "fst ?q" using assms(2,8-10) by (simp add: ttwu_queue_wakelist_def ttwu_queue_cond_def upd_task_def)
  then obtain k' where q: "?q = (True, k')" by (cases ?q) simp
  have "try_to_wake_up e x p state fl k = Some (True, k')"
    using assms(4-7) q by (simp add: try_to_wake_up_def ttwu_state_match_def Let_def task_rq_def)
  moreover note l = ttwu_queue_wakelist_effect [OF assms(1) q]
  have "is_cpu_allowed x k' p = is_cpu_allowed x k p"
    using l(2) is_cpu_allowed_cong [of ?k1 p k] by (simp add: task_rq_def) (simp add: upd_task_def kfix_def)
  moreover have "\<not> is_cpu_allowed x k p (task_rq k p)" using assms(11) by (simp add: is_cpu_allowed_def Let_def)
  ultimately show ?thesis using l(1,3) by (auto simp: listed_def task_rq_def)
qed

subsection \<open>Instances\<close>

lemma plain_wake_law: "wake_law kenv_v5_17 plain_kops"
proof -
  have "sched_frame k (upd_rq c (\<lambda>rq. rq\<lparr>rq_wake_list := rq_wake_list rq @ [p]\<rparr>) k)" for c p k
    by (rule sched_frame_upd_rq) (simp add: rq_core_state_def)
  then show ?thesis by (simp add: wake_law_def plain_kops_def)
qed

lemmas plain_wake_laws = plain_kops_frame plain_aff_law plain_wake_law

text \<open>Task 5 sleeps on CPU 2 and may run on CPUs 2 and 3; the waker is task 0 on CPU 0.\<close>

definition sample_sleeper :: "bool \<Rightarrow> cpu set \<Rightarrow> kernel" where
  "sample_sleeper oncpu m = zero_kernel\<lparr>possible_cpus := [0, 2, 3], cpu_online_mask := {0, 2, 3}, cpu_active_mask := {0, 2, 3},
     tasks := (\<lambda>_. zero_task)(5 := zero_task\<lparr>t_state := TASK_INTERRUPTIBLE, t_cpu := 2, t_wake_cpu := 2, t_on_cpu := oncpu,
       t_cpus_mask := m, t_nr_cpus_allowed := card m\<rparr>)\<rparr>"

lemma sample_sleeper_sel [simp]:
  "tasks (sample_sleeper b m) 5 = zero_task\<lparr>t_state := TASK_INTERRUPTIBLE, t_cpu := 2, t_wake_cpu := 2, t_on_cpu := b, t_cpus_mask := m, t_nr_cpus_allowed := card m\<rparr>"
  "this_cpu (sample_sleeper b m) = 0" "cpu_active_mask (sample_sleeper b m) = {0, 2, 3}" "cpu_online_mask (sample_sleeper b m) = {0, 2, 3}"
  "possible_cpus (sample_sleeper b m) = [0, 2, 3]" "rqs (sample_sleeper b m) c = zero_rq" "current (sample_sleeper b m) = 0"
  by (simp_all add: sample_sleeper_def zero_defs current_def)

lemma sample_refuge: "refuge plain_kops 5 (sample_sleeper b m) 3"
  by (simp add: refuge_def zero_task_def plain_kops_def)

theorem select_task_rq_allowed_witness:
  "\<exists>k'. select_task_rq kenv_v5_17 plain_kops 5 2 0 (sample_sleeper False {2, 3}) = Some (2, k') \<and> is_cpu_allowed plain_kops k' 5 2"
proof -
  have d: "op_select_task_rq plain_kops s p c fl k = c" for s p c fl k by (simp add: plain_kops_def)
  have "is_cpu_allowed plain_kops (sample_sleeper False {2, 3}) 5 2"
    by (simp add: is_cpu_allowed_def zero_task_def task_cpus_ptr_def mask_of_def is_migration_disabled_def plain_kops_def)
  then show ?thesis
    using select_task_rq_allowed [OF plain_wake_laws sample_refuge, of 2 0 False "{2, 3}"] by (auto simp: d Let_def)
qed

theorem try_to_wake_up_effect_witness:
  "\<exists>k'. try_to_wake_up kenv_v5_17 plain_kops 5 TASK_NORMAL 0 (sample_sleeper False {2, 3}) = Some (True, k') \<and> placed 5 k' \<and>
     is_cpu_allowed plain_kops k' 5 (t_cpu (tasks k' 5))"
proof -
  have "flag_set TASK_INTERRUPTIBLE TASK_NORMAL" by (simp add: task_state_defs flag_set_def)
  then show ?thesis
    using try_to_wake_up_effect [OF plain_wake_laws sample_refuge, of TASK_NORMAL 0 False "{2, 3}"] by (auto simp: zero_task_def)
qed

text \<open>The task is still leaving CPU 2.\<close>

lemma sample_leaving:
  "try_to_wake_up kenv_v5_17 plain_kops 5 TASK_NORMAL 0 (sample_sleeper True m) =
     Some (True, k__ttwu_queue_wakelist kenv_v5_17 plain_kops 5 2 0x40 (upd_task 5 (\<lambda>t. t\<lparr>t_state := TASK_WAKING\<rparr>) (sample_sleeper True m)))"
proof -
  have n: "flag_set TASK_INTERRUPTIBLE TASK_NORMAL" by (simp add: task_state_defs flag_set_def)
  have f: "sched_feat_TTWU_QUEUE plain_kops" "sd_llc_id plain_kops c = c" for c by (simp_all add: plain_kops_def)
  have u: "this_cpu (upd_task p g k) = this_cpu k" "cpu_active_mask (upd_task p g k) = cpu_active_mask k" for p g k by (simp_all add: upd_task_def)
  show ?thesis
    by (simp add: try_to_wake_up_def ttwu_state_match_def n zero_task_def task_rq_def ttwu_queue_wakelist_def ttwu_queue_cond_def
        cpus_share_cache_def f u v5_17_wake.wake_h_simps)
qed

theorem ttwu_pending_completes_witness:
  "\<exists>k'. try_to_wake_up kenv_v5_17 plain_kops 5 TASK_NORMAL 0 (sample_sleeper True {2, 3}) = Some (True, k') \<and>
     runs (sched_ttwu_pending kenv_v5_17 plain_kops (rq_wake_list (rqs k' (t_cpu (tasks k' 5)))) zero_kernel) 5"
proof -
  let ?k1 = "upd_task 5 (\<lambda>t. t\<lparr>t_state := TASK_WAKING\<rparr>) (sample_sleeper True {2, 3})"
  have "t_state (tasks (k__ttwu_queue_wakelist kenv_v5_17 plain_kops 5 2 0x40 ?k1) 5) = TASK_WAKING"
    by (simp add: k__ttwu_queue_wakelist_def plain_kops_def)
  from ttwu_pending_completes [OF plain_wake_laws sample_leaving this, of zero_kernel] sample_leaving show ?thesis by auto
qed

theorem wake_up_q_refines_witness:
  "\<exists>k'. (case wake_q_adds [5, 5] (sample_sleeper True {2, 3}) of (head, k1) \<Rightarrow> wake_up_q kenv_v5_17 plain_kops head k1) = Some k' \<and>
     t_wake_q (tasks k' 5) = WQ_NULL \<and> t_usage (tasks k' 5) = 0 \<and> t_state (tasks k' 5) \<in> {TASK_RUNNING, TASK_WAKING}"
proof -
  let ?k = "sample_sleeper True {2, 3}"
  obtain head k1 where a: "wake_q_adds [5, 5] ?k = (head, k1)" by (cases "wake_q_adds [5, 5] ?k") auto
  have "\<forall>t \<in> set [5, 5]. t_wake_q (tasks ?k t) = WQ_NULL \<and> (\<exists>r. refuge plain_kops t ?k r)"
    using sample_refuge by (auto simp: zero_task_def)
  from wake_up_q_refines [OF plain_wake_laws this a] a show ?thesis
    by (auto simp: zero_task_def task_state_defs flag_set_def)
qed

theorem ttwu_queue_ignores_mask_witness:
  "\<exists>k'. try_to_wake_up kenv_v5_17 plain_kops 5 TASK_NORMAL 0 (sample_sleeper True {3}) = Some (True, k') \<and>
     5 \<in> set (rq_wake_list (rqs k' 2)) \<and> \<not> is_cpu_allowed plain_kops k' 5 2"
proof -
  have "sched_feat_TTWU_QUEUE plain_kops" "WF_ON_CPU kenv_v5_17 \<noteq> 0"
    by (simp_all add: plain_kops_def v5_17_wake.wake_h_simps)
  from ttwu_queue_ignores_mask [OF plain_wake_law this, of 5 "sample_sleeper True {3}" TASK_NORMAL 0] show ?thesis
    by (auto simp: task_rq_def zero_task_def zero_rq_def task_cpus_ptr_def mask_of_def task_state_defs flag_set_def)
qed

end
