(* ===== verification/Uclamp_Cgroup.thy ===== *)
theory Uclamp_Cgroup
  imports Uclamp_Accounting
begin

text \<open>
  The cgroup and sysctl interface of utilization clamping, \<^verbatim>\<open>Project 2/core.c\<close> lines 1700 to 1794 and
  10062 to 10237: propagation of effective clamps down the group hierarchy, the sysctl handler with
  its undo path, and reading and writing \<^verbatim>\<open>cpu.uclamp.{min,max}\<close>.
\<close>

subsection \<open>Propagation through the group hierarchy\<close>

definition uclamp_update_active_tasks :: "kenv \<Rightarrow> nat \<Rightarrow> kernel \<Rightarrow> kernel" where
  "uclamp_update_active_tasks e g k = fold (uclamp_update_active e) (css_tasks k g) k"

text \<open>Assignment to the two bit fields of a \<^verbatim>\<open>uclamp_se\<close> that the propagation writes.\<close>

definition uclamp_se_assign :: "kenv \<Rightarrow> nat \<Rightarrow> uclamp_se \<Rightarrow> uclamp_se" where
  "uclamp_se_assign e v s =
     s\<lparr>uc_value := take_bit (bits_per e SCHED_CAPACITY_SCALE) v,
       uc_bucket_id := take_bit (bits_per e (UCLAMP_BUCKETS e)) (uclamp_bucket_id e v)\<rparr>"

text \<open>The array \<^verbatim>\<open>eff\<close>: the requested clamp capped by the parent's effective clamp, and the minimum capped
  by the maximum.\<close>

definition capped_clamp :: "kernel \<Rightarrow> nat \<Rightarrow> uclamp_id \<Rightarrow> nat" where
  "capped_clamp k g clamp_id =
     (let v = uc_value (tg_uclamp_req (task_groups k g) clamp_id)
      in case tg_parent (task_groups k g) of
           None \<Rightarrow> v
         | Some q \<Rightarrow> if v > uc_value (tg_uclamp (task_groups k q) clamp_id)
                    then uc_value (tg_uclamp (task_groups k q) clamp_id) else v)"

definition eff_clamp :: "kernel \<Rightarrow> nat \<Rightarrow> uclamp_id \<Rightarrow> nat" where
  "eff_clamp k g clamp_id =
     (if clamp_id = UCLAMP_MIN then min (capped_clamp k g UCLAMP_MIN) (capped_clamp k g UCLAMP_MAX)
      else capped_clamp k g UCLAMP_MAX)"

text \<open>One iteration of the loop; the flag is \<^verbatim>\<open>clamps\<close>, whether a clamp of the group changed.\<close>

definition update_eff_node :: "kenv \<Rightarrow> nat \<Rightarrow> kernel \<Rightarrow> bool \<times> kernel" where
  "update_eff_node e g k =
     (let eff = eff_clamp k g; uc_se = tg_uclamp (task_groups k g);
          changed = (\<lambda>i. eff i \<noteq> uc_value (uc_se i))
      in (changed UCLAMP_MIN \<or> changed UCLAMP_MAX,
          upd_tg g (\<lambda>tg. tg\<lparr>tg_uclamp :=
            (\<lambda>i. if changed i then uclamp_se_assign e (eff i) (uc_se i) else uc_se i)\<rparr>) k))"

text \<open>
  The pre-order walk over the descendants.  When no clamp of a group changed, the walk continues behind
  its rightmost descendant, that is, it leaves out the whole subtree.
\<close>

fun cpu_util_update_eff :: "kenv \<Rightarrow> css \<Rightarrow> kernel \<Rightarrow> kernel" where
  "cpu_util_update_eff e (Css g ch) k =
     (let (clamps, k) = update_eff_node e g k
      in if \<not> clamps then k
         else fold (cpu_util_update_eff e) ch (uclamp_update_active_tasks e g k))"

definition set_tg_req :: "kenv \<Rightarrow> uclamp_id \<Rightarrow> nat \<Rightarrow> task_group \<Rightarrow> task_group" where
  "set_tg_req e clamp_id v tg =
     tg\<lparr>tg_uclamp_req := (tg_uclamp_req tg)(clamp_id := uclamp_se_set e (tg_uclamp_req tg clamp_id) v False)\<rparr>"

definition uclamp_update_root_tg :: "kenv \<Rightarrow> kernel \<Rightarrow> kernel" where
  "uclamp_update_root_tg e k =
     (let k = upd_tg root_task_group (set_tg_req e UCLAMP_MIN (sysctl_sched_uclamp_util_min k)) k;
          k = upd_tg root_task_group (set_tg_req e UCLAMP_MAX (sysctl_sched_uclamp_util_max k)) k
      in cpu_util_update_eff e (css_tree k) k)"

subsection \<open>The sysctl handler\<close>

text \<open>
  \<open>proc_dointvec\<close> parses the user's buffer into the three integers behind the table; its result code
  and the integers it leaves are a parameter.
\<close>

definition sysctl_sched_uclamp_handler ::
  "kenv \<Rightarrow> (nat \<times> nat \<times> nat \<Rightarrow> errno option \<times> nat \<times> nat \<times> nat) \<Rightarrow> bool \<Rightarrow> kernel \<Rightarrow> errno option \<times> kernel" where
  "sysctl_sched_uclamp_handler e proc_dointvec write k =
     (let old_min = sysctl_sched_uclamp_util_min k; old_max = sysctl_sched_uclamp_util_max k;
          old_min_rt = sysctl_sched_uclamp_util_min_rt_default k;
          (result, new_min, new_max, new_min_rt) = proc_dointvec (old_min, old_max, old_min_rt);
          undo = k;
          k = k\<lparr>sysctl_sched_uclamp_util_min := new_min, sysctl_sched_uclamp_util_max := new_max,
                sysctl_sched_uclamp_util_min_rt_default := new_min_rt\<rparr>
      in if result \<noteq> None then (result, undo)
         else if \<not> write then (None, k)
         else if new_min > new_max \<or> new_max > SCHED_CAPACITY_SCALE \<or> new_min_rt > SCHED_CAPACITY_SCALE
         then (Some EINVAL, undo)
         else
           let update_root_tg = (old_min \<noteq> new_min \<or> old_max \<noteq> new_max);
               set_default = (\<lambda>i v k. k\<lparr>uclamp_default := (uclamp_default k)(i :=
                 uclamp_se_set e (uclamp_default k i) v False)\<rparr>);
               k = (if old_min \<noteq> new_min then set_default UCLAMP_MIN new_min k else k);
               k = (if old_max \<noteq> new_max then set_default UCLAMP_MAX new_max k else k);
               k = (if update_root_tg then uclamp_update_root_tg e (k\<lparr>sched_uclamp_used := True\<rparr>) else k);
               k = (if old_min_rt \<noteq> new_min_rt
                    then uclamp_sync_util_min_rt_default e (k\<lparr>sched_uclamp_used := True\<rparr>) else k)
           in (None, k))"

subsection \<open>Reading and writing the control files\<close>

definition UCLAMP_PERCENT_SHIFT :: nat where "UCLAMP_PERCENT_SHIFT = 2"

definition UCLAMP_PERCENT_SCALE :: nat where
  "UCLAMP_PERCENT_SCALE = 100 * 10 ^ UCLAMP_PERCENT_SHIFT"

record uclamp_request =
  ureq_percent :: u64
  ureq_util :: nat
  ureq_ret :: "errno option"

text \<open>
  \<open>strim\<close> and \<open>cgroup_parse_float\<close> are parameters.  The parsed percentage is a signed 64 bit number, kept
  as its bit pattern: the range check reads it unsigned, so that a negative one is out of range.
\<close>

definition capacity_from_percent ::
  "(string \<Rightarrow> string) \<Rightarrow> (string \<Rightarrow> nat \<Rightarrow> u64 result) \<Rightarrow> string \<Rightarrow> uclamp_request" where
  "capacity_from_percent strim cgroup_parse_float buf =
     (let req = \<lparr>ureq_percent = of_nat UCLAMP_PERCENT_SCALE, ureq_util = SCHED_CAPACITY_SCALE, ureq_ret = None\<rparr>;
          buf = strim buf
      in if buf = ''max'' then req
         else case cgroup_parse_float buf UCLAMP_PERCENT_SHIFT of
           Inl err \<Rightarrow> req\<lparr>ureq_ret := Some err\<rparr>
         | Inr percent \<Rightarrow>
             if percent > of_nat UCLAMP_PERCENT_SCALE
             then req\<lparr>ureq_percent := percent, ureq_ret := Some ERANGE\<rparr>
             else req\<lparr>ureq_percent := percent,
                      ureq_util := DIV_ROUND_CLOSEST (unat (push_bit 10 percent)) UCLAMP_PERCENT_SCALE\<rparr>)"

text \<open>The control group of the open file, \<^verbatim>\<open>of_css(of)\<close>, is the argument \<open>css\<close>.\<close>

definition cpu_uclamp_write ::
  "kenv \<Rightarrow> (string \<Rightarrow> string) \<Rightarrow> (string \<Rightarrow> nat \<Rightarrow> u64 result) \<Rightarrow> css \<Rightarrow> string \<Rightarrow> nat \<Rightarrow> uclamp_id \<Rightarrow> kernel
    \<Rightarrow> nat result \<times> kernel" where
  "cpu_uclamp_write e strim cgroup_parse_float css buf nbytes clamp_id k =
     (let req = capacity_from_percent strim cgroup_parse_float buf; g = css_tg css
      in case ureq_ret req of
           Some err \<Rightarrow> (Inl err, k)
         | None \<Rightarrow>
             let k = k\<lparr>sched_uclamp_used := True\<rparr>;
                 k = (if uc_value (tg_uclamp_req (task_groups k g) clamp_id) \<noteq> ureq_util req
                      then upd_tg g (set_tg_req e clamp_id (ureq_util req)) k else k);
                 k = upd_tg g (\<lambda>tg. tg\<lparr>tg_uclamp_pct :=
                       (tg_uclamp_pct tg)(clamp_id := unat (ureq_percent req))\<rparr>) k
             in (Inr nbytes, cpu_util_update_eff e css k))"

text \<open>The decimal digits that \<^verbatim>\<open>seq_printf\<close> prints; \<open>dec2\<close> is the format \<^verbatim>\<open>%0*u\<close> with width two.\<close>

fun digits10 :: "nat \<Rightarrow> string" where
  "digits10 n = (if n < 10 then [char_of (48 + n)] else digits10 (n div 10) @ [char_of (48 + n mod 10)])"

declare digits10.simps [simp del]

definition dec2 :: "nat \<Rightarrow> string" where
  "dec2 n = (if n < 10 then CHR ''0'' # digits10 n else digits10 n)"

definition cpu_uclamp_print :: "kernel \<Rightarrow> nat \<Rightarrow> uclamp_id \<Rightarrow> string" where
  "cpu_uclamp_print k g clamp_id =
     (if uc_value (tg_uclamp_req (task_groups k g) clamp_id) = SCHED_CAPACITY_SCALE then ''max'' @ [CHR 0x0A]
      else let percent = tg_uclamp_pct (task_groups k g) clamp_id
           in digits10 (percent div 10 ^ UCLAMP_PERCENT_SHIFT) @ ''.'' @
              dec2 (percent mod 10 ^ UCLAMP_PERCENT_SHIFT) @ [CHR 0x0A])"

definition alloc_uclamp_sched_group :: "kenv \<Rightarrow> nat \<Rightarrow> nat \<Rightarrow> kernel \<Rightarrow> kernel" where
  "alloc_uclamp_sched_group e g parent k =
     fold (\<lambda>clamp_id k. upd_tg g (\<lambda>tg. (set_tg_req e clamp_id (uclamp_none clamp_id) tg)
             \<lparr>tg_uclamp := (tg_uclamp tg)(clamp_id := tg_uclamp (task_groups k parent) clamp_id)\<rparr>) k)
       clamp_ids k"

subsection \<open>The propagation reaches a fixed point\<close>

fun css_nodes :: "css \<Rightarrow> nat list" where
  "css_nodes (Css g ch) = g # concat (map css_nodes ch)"

fun css_parents :: "kernel \<Rightarrow> css \<Rightarrow> bool" where
  "css_parents k (Css g ch) \<longleftrightarrow>
     list_all (\<lambda>c. tg_parent (task_groups k (css_tg c)) = Some g \<and> css_parents k c) ch"

text \<open>
  The specification of an effective clamp: the minimum of the group's request and of the parent's effective
  clamp, where the lower clamp is in addition at most the upper one.
\<close>

definition eff_spec :: "kernel \<Rightarrow> nat \<Rightarrow> uclamp_id \<Rightarrow> nat" where
  "eff_spec k g i =
     (let capped = (\<lambda>i. Min (insert (uc_value (tg_uclamp_req (task_groups k g) i))
            ((\<lambda>q. uc_value (tg_uclamp (task_groups k q) i)) ` set_option (tg_parent (task_groups k g)))))
      in case i of UCLAMP_MIN \<Rightarrow> min (capped UCLAMP_MIN) (capped UCLAMP_MAX) | UCLAMP_MAX \<Rightarrow> capped UCLAMP_MAX)"

definition eff_consistent :: "kernel \<Rightarrow> nat \<Rightarrow> bool" where
  "eff_consistent k g \<longleftrightarrow> (\<forall>i. uc_value (tg_uclamp (task_groups k g) i) = eff_spec k g i)"

lemma capped_clamp_eq:
  "capped_clamp k g i = Min (insert (uc_value (tg_uclamp_req (task_groups k g) i))
     ((\<lambda>q. uc_value (tg_uclamp (task_groups k q) i)) ` set_option (tg_parent (task_groups k g))))"
  by (cases "tg_parent (task_groups k g)") (simp_all add: capped_clamp_def Let_def min_def)

lemma eff_clamp_eq: "eff_clamp k g i = eff_spec k g i"
  by (cases i) (simp_all add: eff_clamp_def eff_spec_def capped_clamp_eq)

lemma eff_consistent_iff:
  "eff_consistent k g \<longleftrightarrow> (\<forall>i. uc_value (tg_uclamp (task_groups k g) i) = eff_clamp k g i)"
  by (simp add: eff_consistent_def eff_clamp_eq)

text \<open>
  A subtree that may be out of date at its top group only: below it every group is consistent, the
  parent pointers follow the tree, and the requested clamps are in range.
\<close>

definition eff_pending :: "kernel \<Rightarrow> css \<Rightarrow> bool" where
  "eff_pending k c \<longleftrightarrow> css_parents k c \<and> distinct (css_nodes c) \<and>
     (\<forall>q. tg_parent (task_groups k (css_tg c)) = Some q \<longrightarrow> q \<notin> set (css_nodes c)) \<and>
     (\<forall>h \<in> set (css_nodes c). h \<noteq> css_tg c \<longrightarrow> eff_consistent k h) \<and>
     (\<forall>h \<in> set (css_nodes c). \<forall>i. uc_value (tg_uclamp_req (task_groups k h) i) \<le> SCHED_CAPACITY_SCALE)"

lemma css_tg_in_nodes [simp]: "css_tg c \<in> set (css_nodes c)"
  by (cases c) simp

lemma css_parents_cases:
  "css_parents k c \<Longrightarrow> h \<in> set (css_nodes c) \<Longrightarrow>
     h = css_tg c \<or> (\<exists>q \<in> set (css_nodes c). tg_parent (task_groups k h) = Some q)"
proof (induction c)
  case (Css g ch)
  show ?case
  proof (cases "h = g")
    case False
    then obtain c where c: "c \<in> set ch" "h \<in> set (css_nodes c)" using Css.prems by auto
    then have "css_parents k c" "tg_parent (task_groups k (css_tg c)) = Some g"
      using Css.prems by (auto simp: list_all_iff)
    with Css.IH [OF c(1) _ c(2)] c show ?thesis by fastforce
  qed simp
qed

lemma css_parents_cong:
  "(\<And>h. h \<in> set (css_nodes c) \<Longrightarrow> tg_parent (task_groups k' h) = tg_parent (task_groups k h)) \<Longrightarrow>
     css_parents k' c \<longleftrightarrow> css_parents k c"
proof (induction c)
  case (Css g ch)
  have eq: "tg_parent (task_groups k' h) = tg_parent (task_groups k h)"
    if "c \<in> set ch" "h \<in> set (css_nodes c)" for c h
    using that by (intro Css.prems) auto
  have "tg_parent (task_groups k' (css_tg c)) = tg_parent (task_groups k (css_tg c)) \<and>
      css_parents k' c = css_parents k c" if "c \<in> set ch" for c
    using eq [OF that] Css.IH [OF that] by simp
  then show ?case by (simp add: list_all_iff)
qed

lemma eff_clamp_cong:
  assumes "tg_parent (task_groups k' h) = tg_parent (task_groups k h)"
    and "tg_uclamp_req (task_groups k' h) = tg_uclamp_req (task_groups k h)"
    and "\<And>q. tg_parent (task_groups k h) = Some q \<Longrightarrow> tg_uclamp (task_groups k' q) = tg_uclamp (task_groups k q)"
  shows "eff_clamp k' h = eff_clamp k h"
proof -
  have "capped_clamp k' h i = capped_clamp k h i" for i
    using assms by (cases "tg_parent (task_groups k h)") (simp_all add: capped_clamp_def Let_def)
  then show ?thesis by (simp add: eff_clamp_def fun_eq_iff)
qed

lemma eff_consistent_cong:
  assumes "task_groups k' h = task_groups k h"
    and "\<And>q. tg_parent (task_groups k h) = Some q \<Longrightarrow> task_groups k' q = task_groups k q"
  shows "eff_consistent k' h \<longleftrightarrow> eff_consistent k h"
  using assms eff_clamp_cong [of k' h k] by (simp add: eff_consistent_iff)

text \<open>The settings that the propagation reads; it writes none of them.\<close>

definition clamp_settings :: "kernel \<Rightarrow> css \<times> (uclamp_id \<Rightarrow> uclamp_se) \<times> nat \<times> nat \<times> nat \<times> bool" where
  "clamp_settings k = (css_tree k, uclamp_default k, sysctl_sched_uclamp_util_min k,
     sysctl_sched_uclamp_util_max k, sysctl_sched_uclamp_util_min_rt_default k, sched_uclamp_used k)"

lemma update_active_frame [simp]:
  "task_groups (uclamp_update_active e p k) = task_groups k \<and>
   clamp_settings (uclamp_update_active e p k) = clamp_settings k"
  by (simp add: uclamp_update_active_def clamp_settings_def upd_task_def upd_rq_def Let_def split: prod.split)

lemma update_active_tasks_frame [simp]:
  "task_groups (uclamp_update_active_tasks e g k) = task_groups k"
  "clamp_settings (uclamp_update_active_tasks e g k) = clamp_settings k"
proof -
  have "task_groups (fold (uclamp_update_active e) ts k) = task_groups k \<and>
      clamp_settings (fold (uclamp_update_active e) ts k) = clamp_settings k" for ts
    by (induction ts arbitrary: k) simp_all
  then show "task_groups (uclamp_update_active_tasks e g k) = task_groups k"
    "clamp_settings (uclamp_update_active_tasks e g k) = clamp_settings k"
    by (simp_all add: uclamp_update_active_tasks_def)
qed

text \<open>The walk writes the effective clamps of the groups of the subtree and nothing else.\<close>

definition eff_frame :: "nat set \<Rightarrow> kernel \<Rightarrow> kernel \<Rightarrow> bool" where
  "eff_frame N k k' \<longleftrightarrow> clamp_settings k' = clamp_settings k \<and>
     (\<forall>h. tg_parent (task_groups k' h) = tg_parent (task_groups k h) \<and>
     tg_uclamp_req (task_groups k' h) = tg_uclamp_req (task_groups k h) \<and>
     (h \<notin> N \<longrightarrow> task_groups k' h = task_groups k h))"

lemma eff_frame_trans: "eff_frame N k k' \<Longrightarrow> eff_frame N' k' k'' \<Longrightarrow> eff_frame (N \<union> N') k k''"
  by (simp add: eff_frame_def)

lemma eff_frame_mono: "eff_frame N k k' \<Longrightarrow> N \<subseteq> N' \<Longrightarrow> eff_frame N' k k'"
  by (auto simp: eff_frame_def)

lemma eff_frame_refl: "eff_frame N k k"
  by (simp add: eff_frame_def)

lemma eff_frame_node: "eff_frame {g} k (snd (update_eff_node e g k))"
  by (simp add: eff_frame_def update_eff_node_def upd_tg_def Let_def clamp_settings_def)

lemma eff_frame_update: "eff_frame (set (css_nodes c)) k (cpu_util_update_eff e c k)"
proof (induction c arbitrary: k)
  case (Css g ch)
  have list: "set cs \<subseteq> set ch \<Longrightarrow>
      eff_frame (set (concat (map css_nodes cs))) k (fold (cpu_util_update_eff e) cs k)" for cs k
  proof (induction cs arbitrary: k)
    case (Cons c cs)
    then show ?case using Css.IH [of c k] eff_frame_trans by fastforce
  qed (simp add: eff_frame_refl)
  let ?k1 = "snd (update_eff_node e g k)"
  have "eff_frame {g} k ?k1" by (rule eff_frame_node)
  moreover have "eff_frame (set (concat (map css_nodes ch))) ?k1
      (fold (cpu_util_update_eff e) ch (uclamp_update_active_tasks e g ?k1))"
    using list [OF subset_refl, of "uclamp_update_active_tasks e g ?k1"] by (simp add: eff_frame_def)
  ultimately show ?case
    using eff_frame_trans [of "{g}" k ?k1] eff_frame_mono [of "{g}" k ?k1 "set (css_nodes (Css g ch))"]
    by (auto simp: Let_def split: prod.split)
qed

lemma eff_frame_fold:
  "eff_frame (set (concat (map css_nodes cs))) k (fold (cpu_util_update_eff e) cs k)"
proof (induction cs arbitrary: k)
  case (Cons c cs)
  show ?case using eff_frame_trans [OF eff_frame_update Cons.IH, of c k e] by simp
qed (simp add: eff_frame_refl)

lemma eff_pending_child:
  assumes "eff_pending k (Css g ch)" and "c \<in> set ch"
  shows "eff_pending k c" and "tg_parent (task_groups k (css_tg c)) = Some g"
proof -
  have sub: "set (css_nodes c) \<subseteq> set (concat (map css_nodes ch))" using assms(2) by auto
  have g: "g \<notin> set (css_nodes c)" using assms sub by (auto simp: eff_pending_def)
  have c: "css_parents k c" "tg_parent (task_groups k (css_tg c)) = Some g"
    using assms by (auto simp: eff_pending_def list_all_iff)
  have "distinct (css_nodes c)" using assms by (auto simp: eff_pending_def distinct_concat_iff)
  moreover have "h \<noteq> g \<and> eff_consistent k h \<and> (\<forall>i. uc_value (tg_uclamp_req (task_groups k h) i) \<le> SCHED_CAPACITY_SCALE)"
    if "h \<in> set (css_nodes c)" for h
  proof -
    have "h \<noteq> g" using g that by blast
    moreover have "h \<in> set (css_nodes (Css g ch))" using sub that by auto
    ultimately show ?thesis using assms(1) by (simp only: eff_pending_def css.sel) blast
  qed
  ultimately show "eff_pending k c" using c g by (simp add: eff_pending_def)
  show "tg_parent (task_groups k (css_tg c)) = Some g" by (rule c(2))
qed

lemma eff_pending_frame:
  assumes "eff_pending k d" and "eff_frame N k k'" and "N \<inter> set (css_nodes d) = {}"
  shows "eff_pending k' d"
proof -
  have same: "task_groups k' h = task_groups k h" if "h \<in> set (css_nodes d)" for h
    using assms(2,3) that by (auto simp: eff_frame_def)
  have "eff_consistent k' h" if h: "h \<in> set (css_nodes d)" "h \<noteq> css_tg d" for h
  proof -
    have "css_parents k d" using assms(1) by (simp add: eff_pending_def)
    then obtain q where "q \<in> set (css_nodes d)" "tg_parent (task_groups k h) = Some q"
      using css_parents_cases [of k d h] h by auto
    then show ?thesis
      using eff_consistent_cong [of k' h k] same h assms(1) by (auto simp: eff_pending_def)
  qed
  then show ?thesis
    using assms(1) same css_parents_cong [of d k' k] by (simp add: eff_pending_def)
qed


lemma update_eff_node_idle:
  assumes "\<not> fst (update_eff_node e g k)"
  shows "snd (update_eff_node e g k) = k"
proof -
  have "eff_clamp k g i = uc_value (tg_uclamp (task_groups k g) i)" for i
    using assms by (cases i) (simp_all add: update_eff_node_def Let_def)
  then show ?thesis by (simp add: update_eff_node_def upd_tg_def Let_def)
qed

context uclamp_conf
begin

lemma eff_clamp_le: 
  assumes "\<And>i. uc_value (tg_uclamp_req (task_groups k g) i) \<le> SCHED_CAPACITY_SCALE"
  shows "eff_clamp k g i \<le> SCHED_CAPACITY_SCALE"
proof -
  have "capped_clamp k g i \<le> uc_value (tg_uclamp_req (task_groups k g) i)" for i
    by (simp add: capped_clamp_def Let_def split: option.split)
  with assms show ?thesis by (auto simp: eff_clamp_def min_le_iff_disj intro: order_trans)
qed

lemma update_eff_node_consistent:
  assumes "\<And>i. uc_value (tg_uclamp_req (task_groups k g) i) \<le> SCHED_CAPACITY_SCALE"
    and "tg_parent (task_groups k g) \<noteq> Some g"
  shows "eff_consistent (snd (update_eff_node e g k)) g"
proof -
  let ?k = "snd (update_eff_node e g k)"
  have "uc_value (tg_uclamp (task_groups ?k g) i) = eff_clamp k g i" for i
    using eff_clamp_le [OF assms(1), of i]
    by (simp add: update_eff_node_def Let_def upd_tg_def uclamp_se_assign_def take_bit_clamp)
  moreover have "eff_clamp ?k g i = eff_clamp k g i" for i
  proof -
    have "tg_uclamp (task_groups ?k q) = tg_uclamp (task_groups k q)" if "tg_parent (task_groups k g) = Some q" for q
      using eff_frame_node [of g k e] assms(2) that by (cases "q = g") (simp_all add: eff_frame_def)
    then show ?thesis
      using eff_frame_node [of g k e] eff_clamp_cong [of ?k g k] by (simp add: eff_frame_def)
  qed
  ultimately show ?thesis by (simp add: eff_consistent_iff)
qed

lemma fold_update_eff_consistent:
  assumes "\<And>c k. c \<in> set ch \<Longrightarrow> eff_pending k c \<Longrightarrow> \<forall>h \<in> set (css_nodes c). eff_consistent (cpu_util_update_eff e c k) h"
    and "\<forall>c \<in> set ch. eff_pending k c \<and> tg_parent (task_groups k (css_tg c)) = Some g"
    and "distinct (concat (map css_nodes ch))" and "g \<notin> set (concat (map css_nodes ch))"
  shows "\<forall>h \<in> set (concat (map css_nodes ch)). eff_consistent (fold (cpu_util_update_eff e) ch k) h"
  using assms
proof (induction ch arbitrary: k)
  case (Cons c cs)
  let ?k1 = "cpu_util_update_eff e c k" and ?rest = "set (concat (map css_nodes cs))"
  let ?k2 = "fold (cpu_util_update_eff e) cs ?k1"
  have c: "eff_pending k c" "tg_parent (task_groups k (css_tg c)) = Some g" using Cons.prems(2) by simp_all
  have fr: "eff_frame (set (css_nodes c)) k ?k1" by (rule eff_frame_update)
  have dis: "set (css_nodes c) \<inter> ?rest = {}" using Cons.prems(3) by simp
  have "eff_pending ?k1 d \<and> tg_parent (task_groups ?k1 (css_tg d)) = Some g" if "d \<in> set cs" for d
    using that Cons.prems(2,4) dis fr eff_pending_frame [OF _ fr, of d] by (fastforce simp: eff_frame_def)
  then have rest: "\<forall>h \<in> ?rest. eff_consistent ?k2 h"
    using Cons.IH [of ?k1] Cons.prems by simp
  have fr2: "eff_frame ?rest ?k1 ?k2" by (rule eff_frame_fold)
  have "eff_consistent ?k2 h" if h: "h \<in> set (css_nodes c)" for h
  proof -
    have par: "tg_parent (task_groups ?k1 x) = tg_parent (task_groups k x)" for x
      using fr by (simp add: eff_frame_def)
    have "q \<notin> ?rest" if "tg_parent (task_groups ?k1 h) = Some q" for q
      using css_parents_cases [of k c h] c h that par dis Cons.prems(4)
      by (auto simp: eff_pending_def)
    moreover have "h \<notin> ?rest" using h dis by blast
    moreover have "eff_consistent ?k1 h" using Cons.prems(1) c(1) h by simp
    ultimately show ?thesis
      using fr2 eff_consistent_cong [of ?k2 h ?k1] by (simp add: eff_frame_def)
  qed
  with rest show ?case by auto
qed simp

lemma cpu_util_update_eff_consistent:
  "eff_pending k c \<Longrightarrow> h \<in> set (css_nodes c) \<Longrightarrow> eff_consistent (cpu_util_update_eff e c k) h"
proof (induction c arbitrary: k h)
  case (Css g ch)
  let ?k1 = "snd (update_eff_node e g k)" and ?ch = "set (concat (map css_nodes ch))"
  let ?k2 = "uclamp_update_active_tasks e g ?k1"
  have g: "g \<notin> ?ch" "tg_parent (task_groups k g) \<noteq> Some g" and dist: "distinct (concat (map css_nodes ch))"
    using Css.prems(1) by (auto simp: eff_pending_def)
  have k1g: "eff_consistent ?k1 g"
    using update_eff_node_consistent [of k g] Css.prems(1) g(2) by (simp add: eff_pending_def)
  show ?case
  proof (cases "fst (update_eff_node e g k)")
    case False
    then have "?k1 = k" by (rule update_eff_node_idle)
    then have "cpu_util_update_eff e (Css g ch) k = k" using False by (simp add: case_prod_unfold)
    moreover have "eff_consistent k h"
      using Css.prems k1g \<open>?k1 = k\<close> by (cases "h = g") (simp_all only: eff_pending_def css.sel, blast)
    ultimately show ?thesis by simp
  next
    case True
    have k2: "task_groups ?k2 = task_groups ?k1" by simp
    have fr: "eff_frame {g} k ?k2" using eff_frame_node [of g k e] by (simp add: eff_frame_def)
    have child: "eff_pending ?k2 c \<and> tg_parent (task_groups ?k2 (css_tg c)) = Some g" if "c \<in> set ch" for c
      using eff_pending_child [OF Css.prems(1) that] eff_pending_frame [OF _ fr] g(1) that fr
      by (auto simp: eff_frame_def)
    have rest: "\<forall>h \<in> ?ch. eff_consistent (fold (cpu_util_update_eff e) ch ?k2) h"
      using fold_update_eff_consistent [of ch ?k2 g] Css.IH child dist g(1) by blast
    have fr2: "eff_frame ?ch ?k2 (fold (cpu_util_update_eff e) ch ?k2)" by (rule eff_frame_fold)
    have par: "q \<notin> ?ch" if "tg_parent (task_groups ?k1 g) = Some q" for q
      using Css.prems(1) eff_frame_node [of g k e] that by (simp add: eff_pending_def eff_frame_def)
    have "eff_consistent (fold (cpu_util_update_eff e) ch ?k2) g"
      using eff_consistent_cong [of "fold (cpu_util_update_eff e) ch ?k2" g ?k1] k1g fr2 g(1) par
      by (simp add: eff_frame_def)
    with rest True Css.prems(2) show ?thesis by (auto simp: split: prod.split)
  qed
qed

end

subsection \<open>The hierarchy stays consistent\<close>

fun subtrees :: "css \<Rightarrow> css list" where
  "subtrees (Css g ch) = Css g ch # concat (map subtrees ch)"

text \<open>
  A hierarchy is well formed when the parent pointers follow the tree, every requested clamp is in range
  and every effective clamp is what the requests of the group and of its ancestors make it.
\<close>

definition eff_shape :: "kernel \<Rightarrow> css \<Rightarrow> bool" where
  "eff_shape k c \<longleftrightarrow> css_parents k c \<and> distinct (css_nodes c) \<and>
     (\<forall>q. tg_parent (task_groups k (css_tg c)) = Some q \<longrightarrow> q \<notin> set (css_nodes c))"

definition eff_wf :: "kernel \<Rightarrow> bool" where
  "eff_wf k \<longleftrightarrow> eff_shape k (css_tree k) \<and> tg_parent (task_groups k (css_tg (css_tree k))) = None \<and>
     (\<forall>h \<in> set (css_nodes (css_tree k)). eff_consistent k h \<and>
        (\<forall>i. uc_value (tg_uclamp_req (task_groups k h) i) \<le> SCHED_CAPACITY_SCALE))"

lemma distinct_concat_same:
  "distinct (concat (map f xs)) \<Longrightarrow> x \<in> set xs \<Longrightarrow> y \<in> set xs \<Longrightarrow> z \<in> set (f x) \<Longrightarrow> z \<in> set (f y) \<Longrightarrow> x = y"
  by (induction xs) auto

lemma subtree_nodes: "c \<in> set (subtrees t) \<Longrightarrow> set (css_nodes c) \<subseteq> set (css_nodes t)"
proof (induction t)
  case (Css g ch)
  then show ?case by (cases "c = Css g ch") fastforce+
qed

lemma eff_shape_child:
  assumes "eff_shape k (Css g ch)" and "c \<in> set ch"
  shows "eff_shape k c" and "tg_parent (task_groups k (css_tg c)) = Some g" and "g \<notin> set (css_nodes c)"
proof -
  have g: "g \<notin> set (css_nodes c)" using assms by (auto simp: eff_shape_def)
  have c: "css_parents k c" "tg_parent (task_groups k (css_tg c)) = Some g"
    using assms by (auto simp: eff_shape_def list_all_iff)
  have "distinct (css_nodes c)" using assms by (auto simp: eff_shape_def distinct_concat_iff)
  then show "eff_shape k c" using c g by (simp add: eff_shape_def)
qed (use assms in \<open>auto simp: eff_shape_def list_all_iff\<close>)

lemma eff_shape_subtree: "eff_shape k t \<Longrightarrow> c \<in> set (subtrees t) \<Longrightarrow> eff_shape k c"
proof (induction t)
  case (Css g ch)
  show ?case
  proof (cases "c = Css g ch")
    case False
    then obtain d where "d \<in> set ch" "c \<in> set (subtrees d)" using Css.prems by auto
    then show ?thesis using Css.IH eff_shape_child(1) [OF Css.prems(1)] by blast
  qed (use Css.prems in simp)
qed

text \<open>A group whose parent is in a subtree is in that subtree.\<close>

lemma subtree_closed:
  "eff_shape k t \<Longrightarrow> c \<in> set (subtrees t) \<Longrightarrow> h \<in> set (css_nodes t) \<Longrightarrow>
     tg_parent (task_groups k h) = Some q \<Longrightarrow> q \<in> set (css_nodes c) \<Longrightarrow> h \<in> set (css_nodes c)"
proof (induction t)
  case (Css g ch)
  show ?case
  proof (cases "c = Css g ch")
    case False
    then obtain d where d: "d \<in> set ch" "c \<in> set (subtrees d)" using Css.prems by auto
    note cd = subtree_nodes [OF d(2)]
    have "h \<noteq> g" using Css.prems cd d(1) by (auto simp: eff_shape_def)
    then obtain d' where d': "d' \<in> set ch" "h \<in> set (css_nodes d')" using Css.prems(3) by auto
    have "q = g \<or> q \<in> set (css_nodes d')"
      using css_parents_cases [of k d' h] eff_shape_child [OF Css.prems(1) d'(1)] d'(2) Css.prems(4)
      by (auto simp: eff_shape_def)
    moreover have "q \<noteq> g" using eff_shape_child(3) [OF Css.prems(1) d(1)] cd Css.prems(5) by auto
    moreover have "q \<in> set (css_nodes d)" using cd Css.prems(5) by auto
    ultimately have "d' = d"
      using distinct_concat_same [of css_nodes ch d' d q] d(1) d'(1) Css.prems(1) by (simp add: eff_shape_def)
    then show ?thesis using Css.IH [OF d(1) eff_shape_child(1) [OF Css.prems(1) d(1)] d(2)] d' Css.prems by simp
  qed (use Css.prems in simp)
qed

lemma css_parents_frame: "eff_frame N k k' \<Longrightarrow> css_parents k' c \<longleftrightarrow> css_parents k c"
  by (rule css_parents_cong) (simp add: eff_frame_def)

context uclamp_conf
begin

text \<open>
  One group's request changed: the walk below it makes the hierarchy consistent again.
\<close>

lemma eff_wf_update:
  assumes "eff_shape k (css_tree k)" and "tg_parent (task_groups k (css_tg (css_tree k))) = None"
    and c: "c \<in> set (subtrees (css_tree k))"
    and ok: "\<And>h. h \<in> set (css_nodes (css_tree k)) \<Longrightarrow> h \<noteq> css_tg c \<Longrightarrow> eff_consistent k h"
    and range: "\<And>h i. h \<in> set (css_nodes (css_tree k)) \<Longrightarrow>
      uc_value (tg_uclamp_req (task_groups k h) i) \<le> SCHED_CAPACITY_SCALE"
  shows "eff_wf (cpu_util_update_eff e c k)"
proof -
  let ?k = "cpu_util_update_eff e c k"
  note sub = subtree_nodes [OF c]
  have fr: "eff_frame (set (css_nodes c)) k ?k" by (rule eff_frame_update)
  have tree: "css_tree ?k = css_tree k" using fr by (simp add: eff_frame_def clamp_settings_def)
  have "eff_shape k c" using assms(1) c by (rule eff_shape_subtree)
  then have pend: "eff_pending k c" using ok range sub by (auto simp: eff_pending_def eff_shape_def)
  have "eff_consistent ?k h" if h: "h \<in> set (css_nodes (css_tree k))" for h
  proof (cases "h \<in> set (css_nodes c)")
    case True
    with pend show ?thesis by (rule cpu_util_update_eff_consistent)
  next
    case False
    have "q \<notin> set (css_nodes c)" if "tg_parent (task_groups k h) = Some q" for q
      using subtree_closed [OF assms(1) c h that] False by blast
    moreover have "h \<noteq> css_tg c" using False by auto
    ultimately show ?thesis
      using ok [OF h] eff_consistent_cong [of ?k h k] fr False by (simp add: eff_frame_def)
  qed
  then show ?thesis
    using assms(1,2) fr range by (simp add: eff_wf_def eff_shape_def tree css_parents_frame [OF fr] eff_frame_def)
qed

lemma set_tg_req_value:
  "v \<le> SCHED_CAPACITY_SCALE \<Longrightarrow>
   uc_value (tg_uclamp_req (set_tg_req e i v tg) j) = (if j = i then v else uc_value (tg_uclamp_req tg j))"
  by (simp add: set_tg_req_def uclamp_se_set_def take_bit_clamp)

end

lemma capacity_from_percent_le: "ureq_util (capacity_from_percent strim parse buf) \<le> SCHED_CAPACITY_SCALE"
proof -
  have "DIV_ROUND_CLOSEST (unat (push_bit 10 w)) UCLAMP_PERCENT_SCALE \<le> 1024"
    if "w \<le> of_nat UCLAMP_PERCENT_SCALE" for w :: u64
  proof -
    have w: "unat w \<le> 10000" using that by (simp add: word_le_nat_alt UCLAMP_PERCENT_SCALE_def UCLAMP_PERCENT_SHIFT_def)
    then have "unat (push_bit 10 w) = unat w * 1024"
      by (simp add: push_bit_eq_mult unat_word_ariths(2))
    then show ?thesis using w
      by (simp add: DIV_ROUND_CLOSEST_def UCLAMP_PERCENT_SCALE_def UCLAMP_PERCENT_SHIFT_def)
  qed
  then show ?thesis
    by (simp add: capacity_from_percent_def Let_def SCHED_CAPACITY_SCALE_def split: sum.split)
qed

lemma eff_consistent_req:
  assumes "h \<noteq> g" and "\<And>tg. tg_uclamp (f tg) = tg_uclamp tg"
  shows "eff_consistent (upd_tg g f k) h \<longleftrightarrow> eff_consistent k h"
proof -
  have "eff_clamp (upd_tg g f k) h = eff_clamp k h"
    by (rule eff_clamp_cong) (use assms in \<open>simp_all add: upd_tg_def\<close>)
  then show ?thesis using assms by (simp add: eff_consistent_iff upd_tg_def)
qed

text \<open>Updates of a group that keep its place in the tree keep the shape of the hierarchy.\<close>

lemma eff_shape_req:
  assumes "\<And>tg. tg_parent (f tg) = tg_parent tg"
  shows "eff_shape (upd_tg g f k) c \<longleftrightarrow> eff_shape k c"
  using assms css_parents_cong [of c "upd_tg g f k" k] by (simp add: eff_shape_def upd_tg_def)

context uclamp_conf
begin

lemma eff_wf_request:
  assumes wf: "eff_wf k" and c: "c \<in> set (subtrees (css_tree k))"
    and f: "\<And>tg. tg_parent (f tg) = tg_parent tg" "\<And>tg. tg_uclamp (f tg) = tg_uclamp tg"
    and range: "\<And>i. uc_value (tg_uclamp_req (f (task_groups k (css_tg c))) i) \<le> SCHED_CAPACITY_SCALE"
  shows "eff_wf (cpu_util_update_eff e c (upd_tg (css_tg c) f k))"
proof (rule eff_wf_update)
  let ?k = "upd_tg (css_tg c) f k"
  have tree: "css_tree ?k = css_tree k" by (simp add: upd_tg_def)
  show "eff_shape ?k (css_tree ?k)" using wf f by (simp add: tree eff_shape_req eff_wf_def)
  show "tg_parent (task_groups ?k (css_tg (css_tree ?k))) = None"
    using wf f by (cases "css_tg (css_tree k) = css_tg c") (simp_all add: eff_wf_def upd_tg_def)
  show "c \<in> set (subtrees (css_tree ?k))" using c by (simp add: tree)
  show "eff_consistent ?k h" if "h \<in> set (css_nodes (css_tree ?k))" "h \<noteq> css_tg c" for h
    using wf f that by (simp add: tree eff_consistent_req eff_wf_def)
  show "uc_value (tg_uclamp_req (task_groups ?k h) i) \<le> SCHED_CAPACITY_SCALE"
    if "h \<in> set (css_nodes (css_tree ?k))" for h i
    using wf range that by (simp add: tree eff_wf_def) (simp add: upd_tg_def)
qed

end

lemma eff_wf_cong:
  assumes "task_groups k' = task_groups k" and "css_tree k' = css_tree k"
  shows "eff_wf k' \<longleftrightarrow> eff_wf k"
proof -
  have "eff_consistent k' h \<longleftrightarrow> eff_consistent k h" for h
    by (rule eff_consistent_cong) (simp_all add: assms)
  moreover have "css_parents k' c \<longleftrightarrow> css_parents k c" for c
    by (rule css_parents_cong) (simp add: assms)
  ultimately show ?thesis by (simp add: eff_wf_def eff_shape_def assms)
qed

text \<open>
  The system-wide settings: in order and in range, and the defaults and the root group's request follow
  them.
\<close>

definition sysctl_sync :: "kernel \<Rightarrow> bool" where
  "sysctl_sync k \<longleftrightarrow> eff_wf k \<and> css_tg (css_tree k) = root_task_group \<and>
     sysctl_sched_uclamp_util_min k \<le> sysctl_sched_uclamp_util_max k \<and>
     sysctl_sched_uclamp_util_max k \<le> SCHED_CAPACITY_SCALE \<and>
     sysctl_sched_uclamp_util_min_rt_default k \<le> SCHED_CAPACITY_SCALE \<and>
     (\<forall>i. uc_value (uclamp_default k i) =
        (if i = UCLAMP_MIN then sysctl_sched_uclamp_util_min k else sysctl_sched_uclamp_util_max k) \<and>
      uc_value (tg_uclamp_req (task_groups k root_task_group) i) = uc_value (uclamp_default k i))"

lemma sync_rt_frame [simp]:
  "task_groups (uclamp_sync_util_min_rt_default e k) = task_groups k"
  "clamp_settings (uclamp_sync_util_min_rt_default e k) = clamp_settings k"
proof -
  have "task_groups (fold (uclamp_update_util_min_rt_default e) ts k) = task_groups k \<and>
      clamp_settings (fold (uclamp_update_util_min_rt_default e) ts k) = clamp_settings k" for ts
    by (induction ts arbitrary: k)
      (simp_all add: uclamp_update_util_min_rt_default_def upd_task_def clamp_settings_def)
  then show "task_groups (uclamp_sync_util_min_rt_default e k) = task_groups k"
    "clamp_settings (uclamp_sync_util_min_rt_default e k) = clamp_settings k"
    by (simp_all add: uclamp_sync_util_min_rt_default_def)
qed

lemma sysctl_sync_cong:
  assumes "task_groups k' = task_groups k" and "clamp_settings k' = clamp_settings k"
  shows "sysctl_sync k' \<longleftrightarrow> sysctl_sync k"
  using assms eff_wf_cong [of k' k] by (simp add: sysctl_sync_def clamp_settings_def)

context uclamp_conf
begin

lemma update_root_tg_sync:
  assumes "eff_wf k" "css_tg (css_tree k) = root_task_group"
    "sysctl_sched_uclamp_util_min k \<le> sysctl_sched_uclamp_util_max k"
    "sysctl_sched_uclamp_util_max k \<le> SCHED_CAPACITY_SCALE"
    "sysctl_sched_uclamp_util_min_rt_default k \<le> SCHED_CAPACITY_SCALE"
    "\<And>i. uc_value (uclamp_default k i) =
        (if i = UCLAMP_MIN then sysctl_sched_uclamp_util_min k else sysctl_sched_uclamp_util_max k)"
  shows "sysctl_sync (uclamp_update_root_tg e k)"
    and "clamp_settings (uclamp_update_root_tg e k) = clamp_settings k"
proof -
  let ?c = "css_tree k"
  let ?f = "\<lambda>tg. set_tg_req e UCLAMP_MAX (sysctl_sched_uclamp_util_max k)
      (set_tg_req e UCLAMP_MIN (sysctl_sched_uclamp_util_min k) tg)"
  have eq: "uclamp_update_root_tg e k = cpu_util_update_eff e ?c (upd_tg (css_tg ?c) ?f k)"
    by (simp add: uclamp_update_root_tg_def Let_def upd_tg_def assms(2))
  have top: "?c \<in> set (subtrees ?c)" by (cases ?c) simp
  have val: "uc_value (tg_uclamp_req (?f tg) i) = uc_value (uclamp_default k i)" for tg i
    using assms(3-6) by (cases i) (simp_all add: set_tg_req_value)
  have wf: "eff_wf (uclamp_update_root_tg e k)"
    unfolding eq using assms(1) top
  proof (rule eff_wf_request)
    show "uc_value (tg_uclamp_req (?f (task_groups k (css_tg ?c))) i) \<le> SCHED_CAPACITY_SCALE" for i
      unfolding val using assms(3,4,6) by (cases i) simp_all
  qed (simp_all add: set_tg_req_def)
  have fr: "eff_frame (set (css_nodes ?c)) (upd_tg (css_tg ?c) ?f k) (uclamp_update_root_tg e k)"
    unfolding eq by (rule eff_frame_update)
  then show set: "clamp_settings (uclamp_update_root_tg e k) = clamp_settings k"
    by (simp add: eff_frame_def clamp_settings_def upd_tg_def)
  have "tg_uclamp_req (task_groups (uclamp_update_root_tg e k) root_task_group) =
      tg_uclamp_req (?f (task_groups k root_task_group))"
    using fr by (simp add: eff_frame_def assms(2)) (simp add: upd_tg_def)
  then show "sysctl_sync (uclamp_update_root_tg e k)"
    using wf set assms(2-6) val by (simp add: sysctl_sync_def clamp_settings_def)
qed

end

text \<open>
  C9.  Writing a control file of any group of a well-formed hierarchy leaves the hierarchy well formed:
  although the walk leaves out the subtrees of unchanged groups, afterwards the effective clamp of every
  group is its request capped by its parent's effective clamp, the minimum at most the maximum.  A
  rejected write changes nothing, an accepted one returns the byte count and stores the request.
\<close>

theorem cpu_uclamp_write_consistent:
  assumes "uclamp_conf e" and "eff_wf k" and "css \<in> set (subtrees (css_tree k))"
  shows "eff_wf (snd (cpu_uclamp_write e strim parse css buf nbytes clamp_id k)) \<and>
    (case ureq_ret (capacity_from_percent strim parse buf) of
       Some err \<Rightarrow> cpu_uclamp_write e strim parse css buf nbytes clamp_id k = (Inl err, k)
     | None \<Rightarrow> fst (cpu_uclamp_write e strim parse css buf nbytes clamp_id k) = Inr nbytes \<and>
         uc_value (tg_uclamp_req (task_groups (snd (cpu_uclamp_write e strim parse css buf nbytes clamp_id k))
           (css_tg css)) clamp_id) = ureq_util (capacity_from_percent strim parse buf))"
proof (cases "ureq_ret (capacity_from_percent strim parse buf)")
  case None
  let ?req = "capacity_from_percent strim parse buf" and ?g = "css_tg css"
  let ?f = "\<lambda>tg. (if uc_value (tg_uclamp_req (task_groups k ?g) clamp_id) \<noteq> ureq_util ?req
      then set_tg_req e clamp_id (ureq_util ?req) tg else tg)
      \<lparr>tg_uclamp_pct := (tg_uclamp_pct tg)(clamp_id := unat (ureq_percent ?req))\<rparr>"
  let ?k = "k\<lparr>sched_uclamp_used := True\<rparr>"
  have eq: "cpu_uclamp_write e strim parse css buf nbytes clamp_id k =
      (Inr nbytes, cpu_util_update_eff e css (upd_tg ?g ?f ?k))"
    using None by (simp add: cpu_uclamp_write_def Let_def upd_tg_def set_tg_req_def)
  have g: "?g \<in> set (css_nodes (css_tree k))" using subtree_nodes [OF assms(3)] by auto
  have val: "uc_value (tg_uclamp_req (?f tg) i) =
      (if i = clamp_id then ureq_util ?req else uc_value (tg_uclamp_req tg i))" if "tg = task_groups k ?g" for tg i
    using uclamp_conf.set_tg_req_value [OF assms(1) capacity_from_percent_le] that by simp
  have "eff_wf (cpu_util_update_eff e css (upd_tg ?g ?f ?k))"
  proof (rule uclamp_conf.eff_wf_request [OF assms(1)])
    show "eff_wf ?k" using assms(2) eff_wf_cong [of ?k k] by simp
    show "uc_value (tg_uclamp_req (?f (task_groups ?k ?g)) i) \<le> SCHED_CAPACITY_SCALE" for i
      using val assms(2) g capacity_from_percent_le [of strim parse buf] by (simp add: eff_wf_def)
  qed (use assms in \<open>simp_all add: set_tg_req_def\<close>)
  moreover have "tg_uclamp_req (task_groups (cpu_util_update_eff e css (upd_tg ?g ?f ?k)) ?g) =
      tg_uclamp_req (?f (task_groups k ?g))"
    using eff_frame_update [of css "upd_tg ?g ?f ?k" e] by (simp add: eff_frame_def upd_tg_def)
  ultimately show ?thesis using None eq val by simp
qed (use assms in \<open>simp add: cpu_uclamp_write_def\<close>)

text \<open>A three level hierarchy, a buffer that is already stripped, and a parser that knows one number.\<close>

definition sample_tree :: kernel where
  "sample_tree = zero_kernel\<lparr>css_tree := Css 0 [Css 1 [Css 2 []]],
     task_groups := (\<lambda>g. (if g = 0 then zero_task_group else zero_task_group\<lparr>tg_parent := Some (g - 1)\<rparr>)
       \<lparr>tg_uclamp_req := (\<lambda>_. zero_uclamp_se\<lparr>uc_value := 1024\<rparr>), tg_uclamp := (\<lambda>_. zero_uclamp_se\<lparr>uc_value := 1024\<rparr>)\<rparr>),
     uclamp_default := (\<lambda>_. zero_uclamp_se\<lparr>uc_value := 1024\<rparr>)\<rparr>"

definition sample_parse :: "string \<Rightarrow> nat \<Rightarrow> u64 result" where
  "sample_parse s n = (if s = ''50.00'' then Inr 5000 else Inl EINVAL)"

lemma sample_tree_sync: "sysctl_sync sample_tree"
  by (simp add: sysctl_sync_def eff_wf_def eff_shape_def eff_consistent_iff eff_clamp_def capped_clamp_def
      sample_tree_def zero_defs SCHED_CAPACITY_SCALE_def root_task_group_def)

theorem cpu_uclamp_write_consistent_witness:
  "eff_wf (snd (cpu_uclamp_write kenv_v5_17 id sample_parse (Css 1 [Css 2 []]) ''50.00'' 5 UCLAMP_MAX sample_tree)) \<and>
   uc_value (tg_uclamp_req (task_groups (snd (cpu_uclamp_write kenv_v5_17 id sample_parse (Css 1 [Css 2 []])
     ''50.00'' 5 UCLAMP_MAX sample_tree)) 1) UCLAMP_MAX) = 512"
proof -
  have "eff_wf sample_tree" using sample_tree_sync by (simp add: sysctl_sync_def)
  moreover have "Css 1 [Css 2 []] \<in> set (subtrees (css_tree sample_tree))" by (simp add: sample_tree_def)
  ultimately show ?thesis
    using cpu_uclamp_write_consistent [OF v5_17_uclamp.uclamp_conf_axioms, of sample_tree "Css 1 [Css 2 []]" id
        sample_parse "''50.00''" 5 UCLAMP_MAX]
    by (simp add: capacity_from_percent_def sample_parse_def UCLAMP_PERCENT_SCALE_def UCLAMP_PERCENT_SHIFT_def
        DIV_ROUND_CLOSEST_def push_bit_eq_mult)
qed

text \<open>The two outcomes of the handler, as equations.\<close>

lemma sysctl_handler_reject:
  assumes "proc (sysctl_sched_uclamp_util_min k, sysctl_sched_uclamp_util_max k,
      sysctl_sched_uclamp_util_min_rt_default k) = (r, a, b, c)"
    and "r \<noteq> None \<or> write \<and> (a > b \<or> b > SCHED_CAPACITY_SCALE \<or> c > SCHED_CAPACITY_SCALE)"
  shows "sysctl_sched_uclamp_handler e proc write k = (if r \<noteq> None then r else Some EINVAL, k)"
  using assms by (cases r) (simp_all add: sysctl_sched_uclamp_handler_def)

definition accept_sysctl :: "kenv \<Rightarrow> nat \<Rightarrow> nat \<Rightarrow> nat \<Rightarrow> kernel \<Rightarrow> kernel" where
  "accept_sysctl e a b c k =
     (let d = (\<lambda>i v k. k\<lparr>uclamp_default := (uclamp_default k)(i := uclamp_se_set e (uclamp_default k i) v False)\<rparr>);
          k0 = k\<lparr>sysctl_sched_uclamp_util_min := a, sysctl_sched_uclamp_util_max := b,
                 sysctl_sched_uclamp_util_min_rt_default := c\<rparr>;
          k1 = (if sysctl_sched_uclamp_util_min k \<noteq> a then d UCLAMP_MIN a k0 else k0)
      in if sysctl_sched_uclamp_util_max k \<noteq> b then d UCLAMP_MAX b k1 else k1)"

lemma sysctl_handler_accept:
  assumes "proc (sysctl_sched_uclamp_util_min k, sysctl_sched_uclamp_util_max k,
      sysctl_sched_uclamp_util_min_rt_default k) = (None, a, b, c)"
    and "a \<le> b" "b \<le> SCHED_CAPACITY_SCALE" "c \<le> SCHED_CAPACITY_SCALE"
  shows "sysctl_sched_uclamp_handler e proc True k = (None,
     let k1 = (if sysctl_sched_uclamp_util_min k \<noteq> a \<or> sysctl_sched_uclamp_util_max k \<noteq> b
          then uclamp_update_root_tg e ((accept_sysctl e a b c k)\<lparr>sched_uclamp_used := True\<rparr>)
          else accept_sysctl e a b c k)
     in if sysctl_sched_uclamp_util_min_rt_default k \<noteq> c
        then uclamp_sync_util_min_rt_default e (k1\<lparr>sched_uclamp_used := True\<rparr>) else k1)"
  using assms
  by (cases "sysctl_sched_uclamp_util_min k = a"; cases "sysctl_sched_uclamp_util_max k = b")
    (simp_all add: sysctl_sched_uclamp_handler_def accept_sysctl_def Let_def)

lemma sysctl_handler_read:
  assumes "snd (proc (sysctl_sched_uclamp_util_min k, sysctl_sched_uclamp_util_max k,
      sysctl_sched_uclamp_util_min_rt_default k)) = (sysctl_sched_uclamp_util_min k,
      sysctl_sched_uclamp_util_max k, sysctl_sched_uclamp_util_min_rt_default k)"
  shows "snd (sysctl_sched_uclamp_handler e proc False k) = k"
  using assms by (simp add: sysctl_sched_uclamp_handler_def case_prod_unfold Let_def)

lemma accept_sysctl_frame [simp]:
  "task_groups (accept_sysctl e a b c k) = task_groups k" "css_tree (accept_sysctl e a b c k) = css_tree k"
  by (simp_all add: accept_sysctl_def Let_def)

context uclamp_conf
begin

lemma accept_sysctl_sync:
  assumes "sysctl_sync k" and "a \<le> b" "b \<le> SCHED_CAPACITY_SCALE" "c \<le> SCHED_CAPACITY_SCALE"
  shows "uc_value (uclamp_default (accept_sysctl e a b c k) i) = (if i = UCLAMP_MIN then a else b)"
  using assms by (cases i) (simp_all add: sysctl_sync_def accept_sysctl_def Let_def
      uclamp_se_set_def take_bit_clamp)

lemma handler_accept_sync:
  assumes "sysctl_sync k" and "proc (sysctl_sched_uclamp_util_min k, sysctl_sched_uclamp_util_max k,
      sysctl_sched_uclamp_util_min_rt_default k) = (None, a, b, c)"
    and "a \<le> b" "b \<le> SCHED_CAPACITY_SCALE" "c \<le> SCHED_CAPACITY_SCALE"
  defines "k' \<equiv> snd (sysctl_sched_uclamp_handler e proc True k)"
  shows "sysctl_sync k'" and "(sysctl_sched_uclamp_util_min k', sysctl_sched_uclamp_util_max k',
    sysctl_sched_uclamp_util_min_rt_default k') = (a, b, c)"
proof -
  let ?s = "accept_sysctl e a b c k"
  let ?u = "?s\<lparr>sched_uclamp_used := True\<rparr>"
  define k1 where "k1 = (if sysctl_sched_uclamp_util_min k \<noteq> a \<or> sysctl_sched_uclamp_util_max k \<noteq> b
     then uclamp_update_root_tg e ?u else ?s)"
  have k': "k' = (if sysctl_sched_uclamp_util_min_rt_default k \<noteq> c
     then uclamp_sync_util_min_rt_default e (k1\<lparr>sched_uclamp_used := True\<rparr>) else k1)"
    unfolding k'_def k1_def by (simp add: sysctl_handler_accept [where proc = proc and k = k, OF assms(2-5)] Let_def)
  have set: "sysctl_sched_uclamp_util_min ?s = a" "sysctl_sched_uclamp_util_max ?s = b"
      "sysctl_sched_uclamp_util_min_rt_default ?s = c" by (simp_all add: accept_sysctl_def Let_def)
  have wf: "eff_wf ?s" "eff_wf ?u" "css_tg (css_tree ?s) = root_task_group"
    using assms(1) eff_wf_cong [of ?s k] eff_wf_cong [of ?u k] by (simp_all add: sysctl_sync_def)
  note dflt = accept_sysctl_sync [OF assms(1,3-5)]
  have "sysctl_sync (uclamp_update_root_tg e ?u)" "clamp_settings (uclamp_update_root_tg e ?u) = clamp_settings ?u"
    by (rule update_root_tg_sync; use wf set dflt assms(3-5) in simp)+
  moreover have "sysctl_sync ?s" if "sysctl_sched_uclamp_util_min k = a" "sysctl_sched_uclamp_util_max k = b"
    using wf set dflt assms that by (simp add: sysctl_sync_def)
  ultimately have k1: "sysctl_sync k1 \<and> sysctl_sched_uclamp_util_min k1 = a \<and>
      sysctl_sched_uclamp_util_max k1 = b \<and> sysctl_sched_uclamp_util_min_rt_default k1 = c"
    using set by (simp add: k1_def clamp_settings_def)
  let ?r = "uclamp_sync_util_min_rt_default e (k1\<lparr>sched_uclamp_used := True\<rparr>)"
  have r: "clamp_settings ?r = clamp_settings (k1\<lparr>sched_uclamp_used := True\<rparr>)" by (rule sync_rt_frame)
  have "sysctl_sync (k1\<lparr>sched_uclamp_used := True\<rparr>)"
    using k1 eff_wf_cong [of "k1\<lparr>sched_uclamp_used := True\<rparr>" k1] by (simp add: sysctl_sync_def)
  then have "sysctl_sync ?r" using sysctl_sync_cong [OF _ r] by simp
  then show "sysctl_sync k'" using k1 by (simp add: k')
  show "(sysctl_sched_uclamp_util_min k', sysctl_sched_uclamp_util_max k',
    sysctl_sched_uclamp_util_min_rt_default k') = (a, b, c)"
    using k1 r by (simp add: k' clamp_settings_def)
qed

end

text \<open>
  C10.  The sysctl handler keeps the system-wide clamp settings in order and in range, with the defaults and
  the root group following them and the hierarchy consistent.  When it reports an error nothing has
  changed, and when a write succeeds the settings are the numbers that were parsed.  The assumption on
  \<^verbatim>\<open>proc_dointvec\<close> is that a read does not modify the integers.
\<close>

theorem sysctl_sched_uclamp_handler_sync:
  assumes "uclamp_conf e" and "sysctl_sync k"
    and "\<And>v. \<not> write \<Longrightarrow> snd (proc_dointvec v) = v"
  shows "sysctl_sync (snd (sysctl_sched_uclamp_handler e proc_dointvec write k)) \<and>
    (case sysctl_sched_uclamp_handler e proc_dointvec write k of
       (Some err, k') \<Rightarrow> k' = k
     | (None, k') \<Rightarrow> (sysctl_sched_uclamp_util_min k', sysctl_sched_uclamp_util_max k',
         sysctl_sched_uclamp_util_min_rt_default k') = snd (proc_dointvec
           (sysctl_sched_uclamp_util_min k, sysctl_sched_uclamp_util_max k, sysctl_sched_uclamp_util_min_rt_default k)))"
proof -
  let ?v = "(sysctl_sched_uclamp_util_min k, sysctl_sched_uclamp_util_max k, sysctl_sched_uclamp_util_min_rt_default k)"
  obtain r a b c where p: "proc_dointvec ?v = (r, a, b, c)" by (metis prod_cases4)
  consider (rej) "r \<noteq> None \<or> write \<and> (a > b \<or> b > SCHED_CAPACITY_SCALE \<or> c > SCHED_CAPACITY_SCALE)"
    | (read) "r = None" "\<not> write"
    | (acc) "r = None" "write" "a \<le> b" "b \<le> SCHED_CAPACITY_SCALE" "c \<le> SCHED_CAPACITY_SCALE"
    by fastforce
  then show ?thesis
  proof cases
    case rej
    then show ?thesis using sysctl_handler_reject [of proc_dointvec k, OF p rej] assms(2) by (auto split: if_splits)
  next
    case read
    then have "snd (sysctl_sched_uclamp_handler e proc_dointvec write k) = k"
      using sysctl_handler_read assms(3) by simp
    then show ?thesis using assms(2,3) read(2) by (auto split: prod.split option.split)
  next
    case acc
    then show ?thesis
      using uclamp_conf.handler_accept_sync [where a = a and b = b and c = c, OF assms(1,2)] p
      by (auto simp: sysctl_handler_accept split: prod.split option.split)
  qed
qed

theorem sysctl_sched_uclamp_handler_sync_witness:
  "sysctl_sync (snd (sysctl_sched_uclamp_handler kenv_v5_17 (\<lambda>_. (None, 256, 768, 512)) True sample_tree))"
  using sysctl_sched_uclamp_handler_sync [OF v5_17_uclamp.uclamp_conf_axioms sample_tree_sync,
      of True "\<lambda>_. (None, 256, 768, 512)"] by simp

end
