(* ===== verification/Sched_Fork.thy ===== *)
theory Sched_Fork
  imports Wakeup Uclamp_Cgroup
begin

text \<open>
  The scheduler's part of creating a task, \<^verbatim>\<open>Project 2/core.c\<close> lines 4226 to 4540 and 8652 to 8720: the fields of a
  new task, its class and priorities, its first CPU and its first wakeup, and the set-up of an idle task.  The
  averages of the fair class and the preemption counters are left out.
\<close>

subsection \<open>Fields of a new task\<close>

definition k__sched_fork :: "kops \<Rightarrow> task_struct \<Rightarrow> task_struct" where
  "k__sched_fork x p =
     (let p = p\<lparr>t_on_rq := NOT_ON_RQ,
            t_se := (t_se p)\<lparr>se_on_rq := False, se_exec_start := 0, se_sum_exec_runtime := 0,
              se_prev_sum_exec_runtime := 0, se_nr_migrations := 0, se_vruntime := 0, se_cfs_rq := 0\<rparr>\<rparr>;
          p = clear_dl_params x p
      in p\<lparr>t_rt := \<lparr>rt_timeout = 0, rt_time_slice = sched_rr_timeslice x, rt_on_rq = False, rt_on_list = False\<rparr>,
           t_migration_pending := None\<rparr>)"

text \<open>The default priority and policy that a parent can ask for.\<close>

definition fork_reset :: "kenv \<Rightarrow> kops \<Rightarrow> task_struct \<Rightarrow> task_struct" where
  "fork_reset e x p =
     (let p = (if dl_policy e (t_policy p) \<or> rt_policy e (t_policy p)
               then p\<lparr>t_policy := SCHED_NORMAL e, t_static_prio := NICE_TO_PRIO e 0, t_rt_priority := 0\<rparr>
               else if PRIO_TO_NICE e (t_static_prio p) < 0 then p\<lparr>t_static_prio := NICE_TO_PRIO e 0\<rparr>
               else p);
          p = p\<lparr>t_normal_prio := t_static_prio p, t_prio := t_static_prio p\<rparr>;
          p = set_load_weight e (reweight_task x) False p
      in p\<lparr>t_sched_reset_on_fork := False\<rparr>)"

definition sched_fork :: "kenv \<Rightarrow> kops \<Rightarrow> tid \<Rightarrow> kernel \<Rightarrow> errno option \<times> kernel" where
  "sched_fork e x p k =
     (let t = k__sched_fork x (tasks k p);
          t = t\<lparr>t_state := TASK_NEW\<rparr>;
          t = t\<lparr>t_prio := t_normal_prio (tasks k (current k))\<rparr>;
          t = uclamp_fork e t;
          t = (if t_sched_reset_on_fork t then fork_reset e x t else t)
      in if dl_prio e (t_prio t) then (Some EAGAIN, upd_task p (\<lambda>_. t) k)
         else let t = (if rt_prio e (t_prio t) then t\<lparr>t_sched_class := rt_sched_class\<rparr>
                       else t\<lparr>t_sched_class := fair_sched_class\<rparr>)
              in (None, upd_task p (\<lambda>_. t\<lparr>t_on_cpu := False\<rparr>) k))"

text \<open>What \<^verbatim>\<open>__set_task_cpu\<close> of the scheduler's private header does to the task.\<close>

definition k__set_task_cpu :: "tid \<Rightarrow> cpu \<Rightarrow> kernel \<Rightarrow> kernel" where
  "k__set_task_cpu p c = upd_task p (\<lambda>t. t\<lparr>t_cpu := c, t_wake_cpu := c\<rparr>)"

text \<open>\<open>tg\<close> is the task group of the cgroup that the task was forked into, after \<^verbatim>\<open>autogroup_task_group\<close>.\<close>

definition sched_cgroup_fork :: "kops \<Rightarrow> nat \<Rightarrow> tid \<Rightarrow> kernel \<Rightarrow> kernel" where
  "sched_cgroup_fork x tg p k =
     (let k = upd_task p (\<lambda>t. t\<lparr>t_sched_task_group := tg\<rparr>) k;
          k = k__set_task_cpu p (this_cpu k) k
      in case op_task_fork x (t_sched_class (tasks k p)) of None \<Rightarrow> k | Some f \<Rightarrow> f p k)"

definition sched_post_fork :: "kenv \<Rightarrow> tid \<Rightarrow> kernel \<Rightarrow> kernel" where
  "sched_post_fork e p k = uclamp_post_fork e p k"

definition wake_up_new_task :: "kenv \<Rightarrow> kops \<Rightarrow> tid \<Rightarrow> kernel \<Rightarrow> kernel option" where
  "wake_up_new_task e x p k =
     (let k = upd_task p (\<lambda>t. t\<lparr>t_state := TASK_RUNNING\<rparr>) k
      in case select_task_rq e x p (task_rq k p) (WF_FORK e) k of
           None \<Rightarrow> None
         | Some (c, k) \<Rightarrow>
             let k = k__set_task_cpu p c k;
                 c = task_rq k p;
                 k = update_rq_clock e x c k;
                 k = activate_task e x c p (ENQUEUE_NOCLOCK e) k;
                 k = check_preempt_curr e x c p (WF_FORK e) k
             in Some (case op_task_woken x (t_sched_class (tasks k p)) of None \<Rightarrow> k | Some f \<Rightarrow> f c p k))"

text \<open>\<open>now\<close> is the value of \<^verbatim>\<open>sched_clock\<close> and \<open>INIT_TASK_COMM\<close> the name from \<^verbatim>\<open>linux/init_task.h\<close>.\<close>

definition init_idle :: "kenv \<Rightarrow> kops \<Rightarrow> string \<Rightarrow> u64 \<Rightarrow> tid \<Rightarrow> cpu \<Rightarrow> kernel \<Rightarrow> kernel" where
  "init_idle e x INIT_TASK_COMM now idle c k =
     (let k = upd_task idle (k__sched_fork x) k;
          k = upd_task idle (\<lambda>t. t\<lparr>t_state := TASK_RUNNING, t_se := (t_se t)\<lparr>se_exec_start := now\<rparr>,
                t_flags := t_flags t OR (PF_IDLE OR PF_KTHREAD OR PF_NO_SETAFFINITY)\<rparr>) k;
          k = set_cpus_allowed_common e idle (Cpumask_of c) 0 k;
          k = k__set_task_cpu idle c k;
          k = upd_rq c (\<lambda>rq. rq\<lparr>rq_idle := idle, rq_curr := idle\<rparr>) k;
          k = upd_task idle (\<lambda>t. t\<lparr>t_on_rq := TASK_ON_RQ_QUEUED, t_on_cpu := True\<rparr>) k
      in upd_task idle (\<lambda>t. t\<lparr>t_sched_class := idle_sched_class, t_comm := INIT_TASK_COMM @ ''/'' @ digits10 c\<rparr>) k)"

subsection \<open>Ratios and filters\<close>

text \<open>Constants of \<^verbatim>\<open>kernel/sched/sched.h\<close> are arguments: \<open>BW_SHIFT\<close>, the value for unlimited run time, and \<open>BW_UNIT\<close>.\<close>

definition to_ratio :: "nat \<Rightarrow> u64 \<Rightarrow> u64 \<Rightarrow> u64 \<Rightarrow> u64 \<Rightarrow> u64" where
  "to_ratio BW_SHIFT RUNTIME_INF BW_UNIT period runtime =
     (if runtime = RUNTIME_INF then BW_UNIT
      else if period = 0 then 0
      else push_bit BW_SHIFT runtime div period)"

definition state_filter_match :: "u32 \<Rightarrow> task_struct \<Rightarrow> bool" where
  "state_filter_match state_filter t =
     (if state_filter = 0 then True
      else if \<not> flag_set (t_state t) state_filter then False
      else if state_filter = TASK_UNINTERRUPTIBLE \<and> t_state t = TASK_IDLE then False
      else True)"

definition task_can_attach :: "kenv \<Rightarrow> (tid \<Rightarrow> cpu set) \<Rightarrow> (tid \<Rightarrow> cpu set \<Rightarrow> errno option) \<Rightarrow> kernel \<Rightarrow> tid \<Rightarrow> cpu set \<Rightarrow> errno option" where
  "task_can_attach e rd_span_of dl_task_can_attach k p cs_cpus_allowed =
     (if flag_set (t_flags (tasks k p)) PF_NO_SETAFFINITY then Some EINVAL
      else if dl_task e (tasks k p) \<and> rd_span_of p \<inter> cs_cpus_allowed = {} then dl_task_can_attach p cs_cpus_allowed
      else None)"

definition cpuset_cpumask_can_shrink :: "(cpu set \<Rightarrow> cpu set \<Rightarrow> bool) \<Rightarrow> cpu set \<Rightarrow> cpu set \<Rightarrow> bool" where
  "cpuset_cpumask_can_shrink dl_can_shrink cur trial = (if cur = {} then True else dl_can_shrink cur trial)"

subsection \<open>A new task is well formed\<close>

definition fork_sched_law :: "kops \<Rightarrow> bool" where
  "fork_sched_law x \<longleftrightarrow> (\<forall>t. \<exists>d. clear_dl_params x t = t\<lparr>t_dl := d\<rparr>) \<and>
     (\<forall>s f p k. op_task_fork x s = Some f \<longrightarrow> sched_frame k (f p k))"

lemma uclamp_fork_sel [simp]:
  "t_static_prio (uclamp_fork e t) = t_static_prio t"
  "t_normal_prio (uclamp_fork e t) = t_normal_prio t"
  "t_prio (uclamp_fork e t) = t_prio t"
  "t_policy (uclamp_fork e t) = t_policy t"
  "t_rt_priority (uclamp_fork e t) = t_rt_priority t"
  "t_sched_class (uclamp_fork e t) = t_sched_class t"
  "t_se (uclamp_fork e t) = t_se t"
  "t_state (uclamp_fork e t) = t_state t"
  "t_on_rq (uclamp_fork e t) = t_on_rq t"
  "t_sched_reset_on_fork (uclamp_fork e t) = t_sched_reset_on_fork t"
  "t_my_fixed_priority (uclamp_fork e t) = t_my_fixed_priority t"
  "t_usage (uclamp_fork e t) = t_usage t"
  "t_wake_q (uclamp_fork e t) = t_wake_q t"
  "t_mm (uclamp_fork e t) = t_mm t"
  "t_active_mm (uclamp_fork e t) = t_active_mm t"
  "t_flags (uclamp_fork e t) = t_flags t"
  "t_cpus_ptr (uclamp_fork e t) = t_cpus_ptr t"
  "t_cpus_mask (uclamp_fork e t) = t_cpus_mask t"
  "t_migration_disabled (uclamp_fork e t) = t_migration_disabled t"
  "t_nr_cpus_allowed (uclamp_fork e t) = t_nr_cpus_allowed t"
  "uc_active (t_uclamp (uclamp_fork e t) i) = False"
  by (simp_all add: uclamp_fork_def fold_clamp_ids set_uclamp_req_def Let_def) (cases i; simp)

lemma sched_fork_init_sel:
  assumes "fork_sched_law x"
  shows "t_static_prio (k__sched_fork x t) = t_static_prio t"
    "t_normal_prio (k__sched_fork x t) = t_normal_prio t"
    "t_prio (k__sched_fork x t) = t_prio t"
    "t_policy (k__sched_fork x t) = t_policy t"
    "t_rt_priority (k__sched_fork x t) = t_rt_priority t"
    "t_sched_class (k__sched_fork x t) = t_sched_class t"
    "t_state (k__sched_fork x t) = t_state t"
    "t_sched_reset_on_fork (k__sched_fork x t) = t_sched_reset_on_fork t"
    "t_my_fixed_priority (k__sched_fork x t) = t_my_fixed_priority t"
    "t_usage (k__sched_fork x t) = t_usage t"
    "t_wake_q (k__sched_fork x t) = t_wake_q t"
    "t_mm (k__sched_fork x t) = t_mm t"
    "t_active_mm (k__sched_fork x t) = t_active_mm t"
    "t_flags (k__sched_fork x t) = t_flags t"
    "t_cpus_ptr (k__sched_fork x t) = t_cpus_ptr t"
    "t_cpus_mask (k__sched_fork x t) = t_cpus_mask t"
    "t_migration_disabled (k__sched_fork x t) = t_migration_disabled t"
    "t_nr_cpus_allowed (k__sched_fork x t) = t_nr_cpus_allowed t"
    "se_load (t_se (k__sched_fork x t)) = se_load (t_se t)" "t_on_rq (k__sched_fork x t) = NOT_ON_RQ"
    "t_migration_pending (k__sched_fork x t) = None"
proof -
  let ?t = "t\<lparr>t_on_rq := NOT_ON_RQ,
            t_se := (t_se t)\<lparr>se_on_rq := False, se_exec_start := 0, se_sum_exec_runtime := 0,
              se_prev_sum_exec_runtime := 0, se_nr_migrations := 0, se_vruntime := 0, se_cfs_rq := 0\<rparr>\<rparr>"
  obtain d where d: "clear_dl_params x ?t = ?t\<lparr>t_dl := d\<rparr>" using assms unfolding fork_sched_law_def by blast
  show "t_static_prio (k__sched_fork x t) = t_static_prio t"
    "t_normal_prio (k__sched_fork x t) = t_normal_prio t"
    "t_prio (k__sched_fork x t) = t_prio t"
    "t_policy (k__sched_fork x t) = t_policy t"
    "t_rt_priority (k__sched_fork x t) = t_rt_priority t"
    "t_sched_class (k__sched_fork x t) = t_sched_class t"
    "t_state (k__sched_fork x t) = t_state t"
    "t_sched_reset_on_fork (k__sched_fork x t) = t_sched_reset_on_fork t"
    "t_my_fixed_priority (k__sched_fork x t) = t_my_fixed_priority t"
    "t_usage (k__sched_fork x t) = t_usage t"
    "t_wake_q (k__sched_fork x t) = t_wake_q t"
    "t_mm (k__sched_fork x t) = t_mm t"
    "t_active_mm (k__sched_fork x t) = t_active_mm t"
    "t_flags (k__sched_fork x t) = t_flags t"
    "t_cpus_ptr (k__sched_fork x t) = t_cpus_ptr t"
    "t_cpus_mask (k__sched_fork x t) = t_cpus_mask t"
    "t_migration_disabled (k__sched_fork x t) = t_migration_disabled t"
    "t_nr_cpus_allowed (k__sched_fork x t) = t_nr_cpus_allowed t"
    "se_load (t_se (k__sched_fork x t)) = se_load (t_se t)" "t_on_rq (k__sched_fork x t) = NOT_ON_RQ"
    "t_migration_pending (k__sched_fork x t) = None"
    by (simp_all add: k__sched_fork_def Let_def d)
qed

lemma fork_reset_wf:
  assumes "prio_h e" and "policy_h e" and "prio_wf e (t\<lparr>t_prio := i, t_sched_class := c\<rparr>)"
  shows "let t' = fork_reset e x t
    in prio_wf e (t'\<lparr>t_sched_class := (if rt_prio e (t_prio t') then rt_sched_class else fair_sched_class)\<rparr>) \<and> weight_wf e t' \<and>
       t_prio t' = t_normal_prio t' \<and> \<not> rt_prio e (t_prio t')"
  using assms(3)
  by (auto simp: Let_def fork_reset_def set_load_weight_def prio_wf_def weight_wf_def normal_prio_def k__normal_prio_def
      prio_h.prio_h_simps [OF assms(1)] policy_h.policy_h_simps [OF assms(2)])

text \<open>
  A new task is well formed.  From a copy of a parent whose parameters are consistent (the parent itself may be
  boosted), \<^verbatim>\<open>sched_fork\<close> either refuses, which happens only for a deadline task that did not ask for a reset, or
  leaves a task whose priorities, policy, class and weight fit together; the boost of the parent is not inherited, the
  task is marked as new, off every run queue and counted in no bucket, and no other task changes.
\<close>

theorem sched_fork_wf:
  assumes "prio_h e" and "policy_h e" and "fork_sched_law x"
    and "prio_wf e (tasks k p)" and "weight_wf e (tasks k p)"
    and "t_normal_prio (tasks k (current k)) = t_normal_prio (tasks k p)"
  shows "case sched_fork e x p k of
      (Some err, k') \<Rightarrow> err = EAGAIN \<and> dl_policy e (t_policy (tasks k p)) \<and> \<not> t_sched_reset_on_fork (tasks k p)
    | (None, k') \<Rightarrow> prio_wf e (tasks k' p) \<and> weight_wf e (tasks k' p) \<and> t_prio (tasks k' p) = t_normal_prio (tasks k' p) \<and>
        t_state (tasks k' p) = TASK_NEW \<and> t_on_rq (tasks k' p) = NOT_ON_RQ \<and> \<not> t_on_cpu (tasks k' p) \<and>
        (\<forall>i. \<not> uc_active (t_uclamp (tasks k' p) i)) \<and> (\<forall>q. q \<noteq> p \<longrightarrow> tasks k' q = tasks k q) \<and> rqs k' = rqs k \<and>
        (\<not> t_sched_reset_on_fork (tasks k p) \<longrightarrow> t_static_prio (tasks k' p) = t_static_prio (tasks k p) \<and>
           t_policy (tasks k' p) = t_policy (tasks k p))"
proof -
  let ?t1 = "uclamp_fork e ((k__sched_fork x (tasks k p))\<lparr>t_state := TASK_NEW, t_prio := t_normal_prio (tasks k (current k))\<rparr>)"
  note init = sched_fork_init_sel [OF assms(3)]
  show ?thesis
  proof (cases "t_sched_reset_on_fork (tasks k p)")
    case True
    have "prio_wf e (?t1\<lparr>t_prio := t_prio (tasks k p), t_sched_class := t_sched_class (tasks k p)\<rparr>)"
      using assms(4) by (simp add: prio_wf_def normal_prio_def init)
    note r0 = fork_reset_wf [OF assms(1,2) this, of x]
    define t2 where "t2 = fork_reset e x ?t1"
    note r = r0 [folded t2_def]
    have s: "t_state t2 = TASK_NEW" "t_on_rq t2 = NOT_ON_RQ" "uc_active (t_uclamp t2 i) = False" for i
      by (simp_all add: t2_def fork_reset_def set_load_weight_def Let_def init)
    have np: "\<not> rt_prio e (t_prio t2)" "\<not> dl_prio e (t_prio t2)" using r by (simp_all add: Let_def prio_h.prio_h_simps [OF assms(1)])
    have eq: "sched_fork e x p k = (None, upd_task p (\<lambda>_. t2\<lparr>t_sched_class := fair_sched_class, t_on_cpu := False\<rparr>) k)"
      using True np by (simp add: sched_fork_def Let_def init flip: t2_def)
    have "prio_wf e (t2\<lparr>t_sched_class := fair_sched_class, t_on_cpu := False\<rparr>) = prio_wf e (t2\<lparr>t_sched_class := fair_sched_class\<rparr>)"
      "weight_wf e (t2\<lparr>t_sched_class := fair_sched_class, t_on_cpu := False\<rparr>) = weight_wf e t2"
      by (simp_all add: prio_wf_def weight_wf_def normal_prio_def)
    then show ?thesis using True np r s unfolding eq by (simp add: Let_def)
  next
    case False
    show ?thesis
      using False assms(4-6)
      by (auto simp: sched_fork_def Let_def init prio_wf_def weight_wf_def normal_prio_def k__normal_prio_def
          prio_h.prio_h_simps [OF assms(1)] policy_h.policy_h_simps [OF assms(2)])
  qed
qed

subsection \<open>The first wakeup\<close>

lemma wake_up_new_task_effect:
  assumes "kops_frame x" and "aff_law e x" and "wake_law e x" and "refuge x p k r"
  shows "\<exists>k'. wake_up_new_task e x p k = Some k' \<and> others_same p k k' \<and> runs k' p \<and> is_cpu_allowed x k' p (t_cpu (tasks k' p)) \<and>
    t_my_fixed_priority (tasks k' p) = t_my_fixed_priority (tasks k p)"
proof -
  let ?k1 = "upd_task p (\<lambda>t. t\<lparr>t_state := TASK_RUNNING\<rparr>) k"
  have "refuge x p ?k1 r" using assms(4) by (simp add: refuge_def) (simp add: upd_task_def)
  then obtain c k2 where sel: "select_task_rq e x p (task_rq ?k1 p) (WF_FORK e) ?k1 = Some (c, k2)"
    using select_task_rq_total [OF assms(1-3)] by blast
  from select_task_rq_ok [OF assms(1-3) sel] have al: "is_cpu_allowed x k2 p c" and ch: "mask_change p ?k1 k2" by auto
  obtain m n where m: "params_same (upd_task p (\<lambda>t. t\<lparr>t_cpus_mask := m, t_nr_cpus_allowed := n\<rparr>) ?k1) k2"
    using ch by (auto simp: mask_change_def)
  let ?k3 = "k__set_task_cpu p c k2"
  let ?k4 = "update_rq_clock e x c ?k3"
  let ?k5 = "activate_task e x c p (ENQUEUE_NOCLOCK e) ?k4"
  let ?k6 = "check_preempt_curr e x c p (WF_FORK e) ?k5"
  define k' where "k' = (case op_task_woken x (t_sched_class (tasks ?k6 p)) of None \<Rightarrow> ?k6 | Some f \<Rightarrow> f c p ?k6)"
  have cc: "task_rq ?k3 p = c" by (simp add: k__set_task_cpu_def task_rq_def)
  have eq: "wake_up_new_task e x p k = Some k'"
    by (simp only: wake_up_new_task_def Let_def sel k'_def option.case prod.case cc)
  let ?up = "\<lambda>t. t\<lparr>t_cpu := c, t_wake_cpu := c, t_on_rq := TASK_ON_RQ_QUEUED\<rparr>"
  have "params_same ?k3 ?k4" by (intro sched_frame_params) simp
  note p5 = params_same_upd_task [OF params_same_trans [OF this params_same_enqueue [OF assms(1)]], where f = "\<lambda>t. t\<lparr>t_on_rq := TASK_ON_RQ_QUEUED\<rparr>"]
  have "params_same (upd_task p ?up k2) ?k5"
    using p5 [of p] unfolding activate_task_def by (simp add: task_params_def task_core_def k__set_task_cpu_def upd_task_def)
  from params_same_trans [OF this sched_frame_params [OF sched_frame_check_preempt [OF assms(1)]]]
  have p6: "params_same (upd_task p ?up k2) ?k6" .
  then have t6: "task_params (tasks ?k6 p) = task_params (?up (tasks k2 p))" by (simp add: params_same_def)
  have t2: "task_params (tasks k2 p) = task_params ((tasks k p)\<lparr>t_state := TASK_RUNNING, t_cpus_mask := m, t_nr_cpus_allowed := n\<rparr>)"
    using m by (simp add: params_same_def)
  have ps: "pushes x ?k6 k'" unfolding k'_def by (rule task_woken_pushes [OF assms(3)])
  then have pl: "task_place (tasks k' p) = task_place (tasks ?k6 p)" and kf: "kfix k' = kfix ?k6" by (simp_all add: pushes_def rest_same_def)
  have "others_same p k ?k1" by (rule others_same_upd) simp
  moreover have "others_same p k2 (upd_task p ?up k2)" by (rule others_same_upd) simp
  ultimately have "others_same p k k'"
    using mask_change_effect(1) [OF ch] params_others_same [OF p6] pushes_others_same [OF ps] others_same_trans by metis
  moreover have "is_cpu_allowed x k' p = is_cpu_allowed x ?k6 p"
    using task_place_sel(3-6) [OF pl] kf by (intro is_cpu_allowed_cong) simp_all
  moreover have "is_cpu_allowed x ?k6 p c"
    using al is_cpu_allowed_params [OF p6] is_cpu_allowed_cong [of "upd_task p ?up k2" p k2] by (simp add: upd_task_def kfix_def)
  moreover have "t_cpu (tasks ?k6 p) = c" using task_params_sel(9) [OF t6] by simp
  moreover have "t_cpu (tasks k' p) = t_cpu (tasks ?k6 p) \<or> is_cpu_allowed x k' p (t_cpu (tasks k' p))" using ps unfolding pushes_def by blast
  moreover have "runs k' p"
    using task_place_sel(1,2) [OF pl] task_params_sel(8) [OF t6] task_params_sel2(5) [OF t6] task_params_sel2(5) [OF t2] by (simp add: runs_def)
  moreover have "t_my_fixed_priority (tasks k' p) = t_my_fixed_priority (tasks k p)"
    using task_params_sel(11) [OF pl [unfolded task_place_def]] task_params_sel(11) [OF t6] task_params_sel(11) [OF t2] by simp
  ultimately show ?thesis using eq by auto
qed

lemma plain_fork_law: "fork_sched_law plain_kops"
  by (auto simp: fork_sched_law_def plain_kops_def)

theorem sched_fork_wf_witness:
  "\<exists>k'. sched_fork kenv_v5_17 plain_kops 5 sample_prio_kernel = (None, k') \<and> prio_wf kenv_v5_17 (tasks k' 5) \<and>
     t_state (tasks k' 5) = TASK_NEW"
proof -
  have w: "prio_wf kenv_v5_17 (tasks sample_prio_kernel 5)" "weight_wf kenv_v5_17 (tasks sample_prio_kernel 5)" by (rule sample_prio_kernel_wf)+
  have n: "t_normal_prio (tasks sample_prio_kernel (current sample_prio_kernel)) = t_normal_prio (tasks sample_prio_kernel 5)"
    "\<not> dl_policy kenv_v5_17 (t_policy (tasks sample_prio_kernel 5))"
    by (simp_all add: sample_prio_kernel_def current_def zero_defs sample_fair_def v5_17_policy.policy_h_simps)
  show ?thesis
    using sched_fork_wf [OF v5_17_prio.prio_h_axioms v5_17_policy.policy_h_axioms plain_fork_law w n(1)] n(2)
    by (auto split: prod.splits option.splits)
qed

end
