(* ===== verification/Fork_Objects.thy ===== *)
theory Fork_Objects
  imports Sched_Fork
begin

text \<open>
  The objects that tasks share, \<^verbatim>\<open>Project 2/fork.c\<close>: address spaces, file system and file tables, signal handlers
  and signal structures, and the functions that share, copy and drop them (lines 428 to 470, 696 to 760, 859 to 970,
  1036 to 1160, 1297 to 1665 and 1690 to 1720).

  Objects are numbered.  \<open>ps_refs\<close> counts the references to an object; for a resource that belongs to one task it is
  one while the task holds it.  A function outside these files that takes such a resource is a parameter \<open>fk_take\<close>,
  the one that gives it back \<open>fk_give\<close>.
\<close>

subsection \<open>Constants\<close>

text \<open>Flags of \<^verbatim>\<open>uapi/linux/sched.h\<close> and other constants of headers.\<close>

record cenv =
  CSIGNAL :: u64
  CLONE_VM :: u64
  CLONE_FS :: u64
  CLONE_FILES :: u64
  CLONE_SIGHAND :: u64
  CLONE_PIDFD :: u64
  CLONE_PTRACE :: u64
  CLONE_VFORK :: u64
  CLONE_PARENT :: u64
  CLONE_THREAD :: u64
  CLONE_NEWNS :: u64
  CLONE_SYSVSEM :: u64
  CLONE_SETTLS :: u64
  CLONE_PARENT_SETTID :: u64
  CLONE_CHILD_CLEARTID :: u64
  CLONE_DETACHED :: u64
  CLONE_UNTRACED :: u64
  CLONE_CHILD_SETTID :: u64
  CLONE_NEWCGROUP :: u64
  CLONE_NEWUTS :: u64
  CLONE_NEWIPC :: u64
  CLONE_NEWUSER :: u64
  CLONE_NEWPID :: u64
  CLONE_NEWNET :: u64
  CLONE_IO :: u64
  CLONE_CLEAR_SIGHAND :: u64
  CLONE_INTO_CGROUP :: u64
  CLONE_NEWTIME :: u64
  CLONE_LEGACY_FLAGS :: u64
  CLONE_ARGS_SIZE_VER0 :: nat
  CLONE_ARGS_SIZE_VER2 :: nat
  MAX_PID_NS_LEVEL :: nat
  NSIG :: nat \<comment> \<open>\<^verbatim>\<open>_NSIG\<close>, the bound of \<^verbatim>\<open>valid_signal\<close>\<close>
  SIGCHLD :: nat

text \<open>Each flag is a bit of its own.\<close>

locale clone_h =
  fixes g :: cenv
  assumes CSIGNAL: "CSIGNAL g = 0xff" and CLONE_VM: "CLONE_VM g = 0x100" and CLONE_FS: "CLONE_FS g = 0x200"
    and CLONE_FILES: "CLONE_FILES g = 0x400" and CLONE_SIGHAND: "CLONE_SIGHAND g = 0x800" and CLONE_PIDFD: "CLONE_PIDFD g = 0x1000"
    and CLONE_PTRACE: "CLONE_PTRACE g = 0x2000" and CLONE_VFORK: "CLONE_VFORK g = 0x4000" and CLONE_PARENT: "CLONE_PARENT g = 0x8000"
    and CLONE_THREAD: "CLONE_THREAD g = 0x10000" and CLONE_NEWNS: "CLONE_NEWNS g = 0x20000" and CLONE_SYSVSEM: "CLONE_SYSVSEM g = 0x40000"
    and CLONE_SETTLS: "CLONE_SETTLS g = 0x80000" and CLONE_PARENT_SETTID: "CLONE_PARENT_SETTID g = 0x100000"
    and CLONE_CHILD_CLEARTID: "CLONE_CHILD_CLEARTID g = 0x200000" and CLONE_DETACHED: "CLONE_DETACHED g = 0x400000"
    and CLONE_UNTRACED: "CLONE_UNTRACED g = 0x800000" and CLONE_CHILD_SETTID: "CLONE_CHILD_SETTID g = 0x1000000"
    and CLONE_NEWCGROUP: "CLONE_NEWCGROUP g = 0x2000000" and CLONE_NEWUTS: "CLONE_NEWUTS g = 0x4000000"
    and CLONE_NEWIPC: "CLONE_NEWIPC g = 0x8000000" and CLONE_NEWUSER: "CLONE_NEWUSER g = 0x10000000"
    and CLONE_NEWPID: "CLONE_NEWPID g = 0x20000000" and CLONE_NEWNET: "CLONE_NEWNET g = 0x40000000" and CLONE_IO: "CLONE_IO g = 0x80000000"
    and CLONE_CLEAR_SIGHAND: "CLONE_CLEAR_SIGHAND g = 0x100000000" and CLONE_INTO_CGROUP: "CLONE_INTO_CGROUP g = 0x200000000"
    and CLONE_NEWTIME: "CLONE_NEWTIME g = 0x80" and CLONE_LEGACY_FLAGS: "CLONE_LEGACY_FLAGS g = 0xffffffff"
    and CLONE_ARGS_SIZE_VER0: "CLONE_ARGS_SIZE_VER0 g = 64" and CLONE_ARGS_SIZE_VER2: "CLONE_ARGS_SIZE_VER2 g = 88"
    and MAX_PID_NS_LEVEL: "MAX_PID_NS_LEVEL g = 32" and NSIG: "NSIG g = 64" and SIGCHLD: "SIGCHLD g = 17"
begin

lemmas clone_h_simps =
  CSIGNAL CLONE_VM CLONE_FS CLONE_FILES CLONE_SIGHAND CLONE_PIDFD CLONE_PTRACE CLONE_VFORK CLONE_PARENT CLONE_THREAD CLONE_NEWNS
  CLONE_SYSVSEM CLONE_SETTLS CLONE_PARENT_SETTID CLONE_CHILD_CLEARTID CLONE_DETACHED CLONE_UNTRACED CLONE_CHILD_SETTID
  CLONE_NEWCGROUP CLONE_NEWUTS CLONE_NEWIPC CLONE_NEWUSER CLONE_NEWPID CLONE_NEWNET CLONE_IO CLONE_CLEAR_SIGHAND
  CLONE_INTO_CGROUP CLONE_NEWTIME CLONE_LEGACY_FLAGS CLONE_ARGS_SIZE_VER0 CLONE_ARGS_SIZE_VER2 MAX_PID_NS_LEVEL NSIG SIGCHLD

end

definition cenv_v5_17 :: cenv where
  "cenv_v5_17 = \<lparr>CSIGNAL = 0xff, CLONE_VM = 0x100, CLONE_FS = 0x200, CLONE_FILES = 0x400, CLONE_SIGHAND = 0x800, CLONE_PIDFD = 0x1000,
     CLONE_PTRACE = 0x2000, CLONE_VFORK = 0x4000, CLONE_PARENT = 0x8000, CLONE_THREAD = 0x10000, CLONE_NEWNS = 0x20000,
     CLONE_SYSVSEM = 0x40000, CLONE_SETTLS = 0x80000, CLONE_PARENT_SETTID = 0x100000, CLONE_CHILD_CLEARTID = 0x200000,
     CLONE_DETACHED = 0x400000, CLONE_UNTRACED = 0x800000, CLONE_CHILD_SETTID = 0x1000000, CLONE_NEWCGROUP = 0x2000000,
     CLONE_NEWUTS = 0x4000000, CLONE_NEWIPC = 0x8000000, CLONE_NEWUSER = 0x10000000, CLONE_NEWPID = 0x20000000,
     CLONE_NEWNET = 0x40000000, CLONE_IO = 0x80000000, CLONE_CLEAR_SIGHAND = 0x100000000, CLONE_INTO_CGROUP = 0x200000000,
     CLONE_NEWTIME = 0x80, CLONE_LEGACY_FLAGS = 0xffffffff, CLONE_ARGS_SIZE_VER0 = 64, CLONE_ARGS_SIZE_VER2 = 88,
     MAX_PID_NS_LEVEL = 32, NSIG = 64, SIGCHLD = 17\<rparr>"

interpretation v5_17_clone: clone_h cenv_v5_17
  by unfold_locales (simp_all add: cenv_v5_17_def)

subsection \<open>State\<close>

text \<open>
  Resources that one task holds, with the functions that take and give them: the structure and the stack of a task,
  \<^verbatim>\<open>set_kthread_struct\<close> and \<^verbatim>\<open>free_kthread_struct\<close>, \<^verbatim>\<open>copy_creds\<close> and \<^verbatim>\<open>exit_creds\<close>, the count against
  \<^verbatim>\<open>RLIMIT_NPROC\<close> that \<^verbatim>\<open>copy_creds\<close> takes, \<^verbatim>\<open>mpol_dup\<close> and \<^verbatim>\<open>mpol_put\<close>, \<^verbatim>\<open>perf_event_init_task\<close> and
  \<^verbatim>\<open>perf_event_free_task\<close>, \<^verbatim>\<open>audit_alloc\<close> and \<^verbatim>\<open>audit_free\<close>, \<^verbatim>\<open>security_task_alloc\<close> and \<^verbatim>\<open>security_task_free\<close>,
  \<^verbatim>\<open>copy_semundo\<close> and \<^verbatim>\<open>exit_sem\<close>, \<^verbatim>\<open>copy_namespaces\<close> and \<^verbatim>\<open>exit_task_namespaces\<close>, \<^verbatim>\<open>copy_io\<close> and
  \<^verbatim>\<open>exit_io_context\<close>, \<^verbatim>\<open>copy_thread\<close> and \<^verbatim>\<open>exit_thread\<close>, a file descriptor and the file of a pidfd,
  \<^verbatim>\<open>cgroup_can_fork\<close> and \<^verbatim>\<open>cgroup_cancel_fork\<close>, \<^verbatim>\<open>sched_core_fork\<close> and \<^verbatim>\<open>sched_core_free\<close>.
\<close>

datatype ext =
  Task_struct | Stack | Kthread | Creds | Nproc | Mempolicy | Perf | Audit | Security | Semundo | Namespaces | Io | Thread
  | Fd | Pidfile | Cgroup | Core_cookie

datatype robj =
  Fs nat | Files nat | Sighand nat | Signal nat | Mm nat | Filter nat | Pid nat | Autogroup nat | Cred nat | Nsproxy nat | Ext ext tid

record proc =
  pr_fs :: "nat option"
  pr_files :: "nat option"
  pr_sighand :: "nat option"
  pr_signal :: "nat option"
  pr_seccomp :: "nat option" \<comment> \<open>the filter\<close>
  pr_group_leader :: tid
  pr_real_parent :: tid
  pr_exit_signal :: int
  pr_self_exec_id :: nat
  pr_parent_exec_id :: nat
  pr_set_child_tid :: u64
  pr_clear_child_tid :: u64
  pr_vfork_done :: "tid option" \<comment> \<open>the task whose completion it is\<close>
  pr_worker_private :: bool
  pr_io_context :: bool
  pr_thread_pid :: "nat option"
  pr_children :: "tid list"

record signal_struct =
  sg_nr_threads :: int
  sg_live :: int
  sg_sigcnt :: int
  sg_unkillable :: bool \<comment> \<open>\<^verbatim>\<open>SIGNAL_UNKILLABLE\<close>\<close>
  sg_threads :: "tid list"
  sg_oom_score_adj :: int
  sg_oom_score_adj_min :: int
  sg_oom_mm :: "nat option"
  sg_has_child_subreaper :: bool
  sg_is_child_subreaper :: bool

record pstate =
  ps_k :: kernel
  ps_refs :: "robj \<Rightarrow> int"
  ps_proc :: "tid \<Rightarrow> proc"
  ps_signal :: "nat \<Rightarrow> signal_struct"
  ps_fs_in_exec :: "nat \<Rightarrow> bool"
  nr_threads :: int
  max_threads :: int
  total_forks :: nat
  process_counts :: "cpu \<Rightarrow> int"
  ps_processes :: "tid list" \<comment> \<open>the list of \<^verbatim>\<open>init_task.tasks\<close>\<close>

definition add_ref :: "robj \<Rightarrow> pstate \<Rightarrow> pstate" where
  "add_ref b s = s\<lparr>ps_refs := (ps_refs s)(b := ps_refs s b + 1)\<rparr>"

definition sub_ref :: "robj \<Rightarrow> pstate \<Rightarrow> pstate" where
  "sub_ref b s = s\<lparr>ps_refs := (ps_refs s)(b := ps_refs s b - 1)\<rparr>"

definition set_ref :: "robj \<Rightarrow> int \<Rightarrow> pstate \<Rightarrow> pstate" where
  "set_ref b n s = s\<lparr>ps_refs := (ps_refs s)(b := n)\<rparr>"

definition upd_proc :: "tid \<Rightarrow> (proc \<Rightarrow> proc) \<Rightarrow> pstate \<Rightarrow> pstate" where
  "upd_proc p h s = s\<lparr>ps_proc := (ps_proc s)(p := h (ps_proc s p))\<rparr>"

definition upd_sig :: "nat \<Rightarrow> (signal_struct \<Rightarrow> signal_struct) \<Rightarrow> pstate \<Rightarrow> pstate" where
  "upd_sig n h s = s\<lparr>ps_signal := (ps_signal s)(n := h (ps_signal s n))\<rparr>"

definition upd_k :: "(kernel \<Rightarrow> kernel) \<Rightarrow> pstate \<Rightarrow> pstate" where
  "upd_k h s = s\<lparr>ps_k := h (ps_k s)\<rparr>"

definition cur :: "pstate \<Rightarrow> tid" where
  "cur s = current (ps_k s)"

text \<open>
  Code outside these files.  \<open>fk_alloc_task\<close> and the other allocators return a number that is not in use; \<open>None\<close> or an
  error if there is no memory.
\<close>

record forkops =
  fk_take :: "ext \<Rightarrow> tid \<Rightarrow> pstate \<Rightarrow> errno option \<times> pstate"
  fk_give :: "ext \<Rightarrow> tid \<Rightarrow> pstate \<Rightarrow> pstate"
  fk_copy_creds :: "tid \<Rightarrow> pstate \<Rightarrow> errno option \<times> pstate"
  fk_copy_io :: "tid \<Rightarrow> pstate \<Rightarrow> errno option \<times> pstate"
  fk_alloc_task :: "pstate \<Rightarrow> tid option"
  fk_alloc_stack :: "tid \<Rightarrow> pstate \<Rightarrow> bool"
  fk_charge_stack :: "tid \<Rightarrow> pstate \<Rightarrow> errno option"
  fk_arch_dup :: "tid \<Rightarrow> pstate \<Rightarrow> errno option"
  fk_scs_prepare :: "tid \<Rightarrow> pstate \<Rightarrow> errno option"
  fk_alloc_mask :: "pstate \<Rightarrow> bool" \<comment> \<open>the allocation in \<^verbatim>\<open>dup_user_cpus_ptr\<close>\<close>
  fk_copy_fs_struct :: "nat \<Rightarrow> pstate \<Rightarrow> nat option"
  fk_exit_fs :: "tid \<Rightarrow> pstate \<Rightarrow> pstate"
  fk_dup_fd :: "nat \<Rightarrow> pstate \<Rightarrow> nat result"
  fk_exit_files :: "tid \<Rightarrow> pstate \<Rightarrow> pstate"
  fk_alloc_sighand :: "pstate \<Rightarrow> nat option"
  fk_alloc_signal :: "pstate \<Rightarrow> nat option"
  fk_autogroup_fork :: "nat \<Rightarrow> pstate \<Rightarrow> pstate"
  fk_autogroup_exit :: "nat \<Rightarrow> pstate \<Rightarrow> pstate"
  fk_allocate_mm :: "pstate \<Rightarrow> nat option"
  fk_mm_alloc_pgd :: "nat \<Rightarrow> pstate \<Rightarrow> bool"
  fk_init_new_context :: "nat \<Rightarrow> pstate \<Rightarrow> bool"
  fk_dup_mmap :: "nat \<Rightarrow> nat \<Rightarrow> pstate \<Rightarrow> errno option"
  fk_try_module_get :: "nat \<Rightarrow> pstate \<Rightarrow> bool" \<comment> \<open>also true if the address space has no binary format\<close>
  fk_alloc_pid :: "pstate \<Rightarrow> nat result"
  fk_put_user :: "u64 \<Rightarrow> pstate \<Rightarrow> errno option"
  fk_task_sigpending :: "pstate \<Rightarrow> bool"
  fk_fatal_signal_pending :: "pstate \<Rightarrow> bool"
  fk_pid_allocated_adding :: "pstate \<Rightarrow> bool" \<comment> \<open>the pid namespace still takes new processes\<close>
  fk_overlimit :: "tid \<Rightarrow> pstate \<Rightarrow> bool" \<comment> \<open>the user is above \<^verbatim>\<open>RLIMIT_NPROC\<close>\<close>
  fk_init_user :: "tid \<Rightarrow> pstate \<Rightarrow> bool"
  fk_cap_sys_resource :: bool
  fk_cap_sys_admin :: bool
  fk_same_pid_ns :: "pstate \<Rightarrow> bool"
  fk_same_time_ns :: "pstate \<Rightarrow> bool"
  fk_is_child_reaper :: "nat \<Rightarrow> pstate \<Rightarrow> bool"
  fk_pid_nr :: "nat \<Rightarrow> nat"
  fk_task_group :: "tid \<Rightarrow> pstate \<Rightarrow> nat" \<comment> \<open>the group of the cgroup forked into, after \<^verbatim>\<open>autogroup_task_group\<close>\<close>
  fk_wait_vfork :: "tid \<Rightarrow> pstate \<Rightarrow> bool \<times> pstate" \<comment> \<open>\<^verbatim>\<open>wait_for_completion_killable\<close>\<close>

subsection \<open>The structure and stack of a task\<close>

definition release_task_stack :: "forkops \<Rightarrow> tid \<Rightarrow> pstate \<Rightarrow> pstate" where
  "release_task_stack f p s = (if t_state (tasks (ps_k s) p) \<noteq> TASK_DEAD then s else fk_give f Stack p s)"

text \<open>The stack of a task that is being created has one reference.\<close>

definition put_task_stack :: "forkops \<Rightarrow> tid \<Rightarrow> pstate \<Rightarrow> pstate" where
  "put_task_stack f p s = release_task_stack f p s"

definition free_task :: "forkops \<Rightarrow> tid \<Rightarrow> pstate \<Rightarrow> pstate" where
  "free_task f p s =
     (let s = upd_k (release_user_cpus_ptr p) s;
          s = (if flag_set (t_flags (tasks (ps_k s) p)) PF_KTHREAD \<and> pr_worker_private (ps_proc s p)
               then fk_give f Kthread p (upd_proc p (\<lambda>r. r\<lparr>pr_worker_private := False\<rparr>) s) else s)
      in fk_give f Task_struct p s)"

text \<open>
  The copy of the fields of the parent and what is reset in it.  \<^verbatim>\<open>tsk->cpus_ptr\<close> points to the mask of the new task if
  the parent's points to its own, which is what a copy of \<open>Own_cpus_mask\<close> means.
\<close>

definition dup_fields :: "forkops \<Rightarrow> tid \<Rightarrow> pstate \<Rightarrow> pstate" where
  "dup_fields f p s =
     (let orig = cur s;
          s = upd_k (upd_task p (\<lambda>_. (tasks (ps_k s) orig)\<lparr>t_need_resched := False\<rparr>)) s;
          s = upd_k (\<lambda>k. snd (dup_user_cpus_ptr (fk_alloc_mask f s) p orig k)) s;
          s = upd_k (upd_task p (\<lambda>t. t\<lparr>t_usage := 1, t_wake_q := WQ_NULL\<rparr>)) s
      in upd_proc p (\<lambda>_. (ps_proc s orig)\<lparr>pr_seccomp := None, pr_worker_private := False\<rparr>) s)"

definition dup_task_struct :: "forkops \<Rightarrow> pstate \<Rightarrow> tid option \<times> pstate" where
  "dup_task_struct f s =
     (case fk_alloc_task f s of
        None \<Rightarrow> (None, s)
      | Some p \<Rightarrow>
          let s = add_ref (Ext Task_struct p) s
          in if \<not> fk_alloc_stack f p s then (None, fk_give f Task_struct p s)
             else let s = add_ref (Ext Stack p) s
                  in if fk_charge_stack f p s \<noteq> None \<or> fk_arch_dup f p s \<noteq> None \<or> fk_scs_prepare f p s \<noteq> None
                     then (None, fk_give f Task_struct p (fk_give f Stack p s))
                     else (Some p, dup_fields f p s))"

subsection \<open>Address spaces\<close>

definition upd_mm_count :: "nat \<Rightarrow> (int \<Rightarrow> int) \<Rightarrow> pstate \<Rightarrow> pstate" where
  "upd_mm_count m h = upd_k (\<lambda>k. k\<lparr>mm_count := (mm_count k)(m := h (mm_count k m))\<rparr>)"

text \<open>The structure is freed by \<^verbatim>\<open>__mmdrop\<close>, which leaves nothing in the model.\<close>

definition mmdrop :: "nat \<Rightarrow> pstate \<Rightarrow> pstate" where
  "mmdrop m = upd_mm_count m (\<lambda>n. n - 1)"

definition k__mmput :: "nat \<Rightarrow> pstate \<Rightarrow> pstate" where
  "k__mmput m s = mmdrop m s"

definition mmget :: "nat \<Rightarrow> pstate \<Rightarrow> pstate" where
  "mmget m = add_ref (Mm m)"

definition mmput :: "nat \<Rightarrow> pstate \<Rightarrow> pstate" where
  "mmput m s = (let s = sub_ref (Mm m) s in if ps_refs s (Mm m) = 0 then k__mmput m s else s)"

definition free_mm :: "nat \<Rightarrow> pstate \<Rightarrow> pstate" where
  "free_mm m s = upd_mm_count m (\<lambda>_. 0) (set_ref (Mm m) 0 s)"

definition mm_init :: "forkops \<Rightarrow> nat \<Rightarrow> pstate \<Rightarrow> nat option \<times> pstate" where
  "mm_init f m s =
     (let s = set_ref (Mm m) 1 s;
          s = upd_mm_count m (\<lambda>_. 1) s
      in if \<not> fk_mm_alloc_pgd f m s then (None, free_mm m s)
         else if \<not> fk_init_new_context f m s then (None, free_mm m s)
         else (Some m, s))"

definition mm_alloc :: "forkops \<Rightarrow> pstate \<Rightarrow> nat option \<times> pstate" where
  "mm_alloc f s = (case fk_allocate_mm f s of None \<Rightarrow> (None, s) | Some m \<Rightarrow> mm_init f m s)"

definition dup_mm :: "forkops \<Rightarrow> nat \<Rightarrow> pstate \<Rightarrow> nat option \<times> pstate" where
  "dup_mm f oldmm s =
     (case fk_allocate_mm f s of
        None \<Rightarrow> (None, s)
      | Some m \<Rightarrow>
          (case mm_init f m s of
             (None, s) \<Rightarrow> (None, s)
           | (Some m, s) \<Rightarrow>
               if fk_dup_mmap f m oldmm s \<noteq> None then (None, mmput m s)
               else if \<not> fk_try_module_get f m s then (None, mmput m s)
               else (Some m, s)))"

definition get_task_mm :: "tid \<Rightarrow> pstate \<Rightarrow> nat option \<times> pstate" where
  "get_task_mm p s =
     (case t_mm (tasks (ps_k s) p) of
        None \<Rightarrow> (None, s)
      | Some m \<Rightarrow> if flag_set (t_flags (tasks (ps_k s) p)) PF_KTHREAD then (None, s) else (Some m, mmget m s))"

definition mm_access :: "(pstate \<Rightarrow> errno option) \<Rightarrow> (tid \<Rightarrow> pstate \<Rightarrow> bool) \<Rightarrow> tid \<Rightarrow> pstate \<Rightarrow> nat option result \<times> pstate" where
  "mm_access down_read_killable ptrace_may_access p s =
     (case down_read_killable s of
        Some err \<Rightarrow> (Inl err, s)
      | None \<Rightarrow>
          (case get_task_mm p s of
             (None, s) \<Rightarrow> (Inr None, s)
           | (Some m, s) \<Rightarrow>
               if Some m \<noteq> t_mm (tasks (ps_k s) (cur s)) \<and> \<not> ptrace_may_access p s then (Inl EACCES, mmput m s)
               else (Inr (Some m), s)))"

definition copy_mm :: "cenv \<Rightarrow> forkops \<Rightarrow> u64 \<Rightarrow> tid \<Rightarrow> pstate \<Rightarrow> errno option \<times> pstate" where
  "copy_mm g f clone_flags p s =
     (let s = upd_k (upd_task p (\<lambda>t. t\<lparr>t_nvcsw := 0, t_nivcsw := 0\<rparr>)) s;
          s = upd_k (upd_task p (\<lambda>t. t\<lparr>t_mm := None, t_active_mm := None\<rparr>)) s
      in case t_mm (tasks (ps_k s) (cur s)) of
           None \<Rightarrow> (None, s)
         | Some oldmm \<Rightarrow>
             let (mm, s) = (if flag_set clone_flags (CLONE_VM g) then (Some oldmm, mmget oldmm s) else dup_mm f oldmm s)
             in case mm of
                  None \<Rightarrow> (Some ENOMEM, s)
                | Some m \<Rightarrow> (None, upd_k (upd_task p (\<lambda>t. t\<lparr>t_mm := Some m, t_active_mm := Some m\<rparr>)) s))"

text \<open>The end of the use of an address space by a task that was created with \<^verbatim>\<open>CLONE_VFORK\<close>, and the parent's wait.\<close>

definition complete_vfork_done :: "(tid \<Rightarrow> pstate \<Rightarrow> pstate) \<Rightarrow> tid \<Rightarrow> pstate \<Rightarrow> pstate" where
  "complete_vfork_done complete p s =
     (case pr_vfork_done (ps_proc s p) of
        None \<Rightarrow> s
      | Some v \<Rightarrow> complete v (upd_proc p (\<lambda>r. r\<lparr>pr_vfork_done := None\<rparr>) s))"

definition mm_release :: "(tid \<Rightarrow> pstate \<Rightarrow> pstate) \<Rightarrow> (u64 \<Rightarrow> pstate \<Rightarrow> pstate) \<Rightarrow> tid \<Rightarrow> nat \<Rightarrow> pstate \<Rightarrow> pstate" where
  "mm_release complete clear_and_wake p m s =
     (let tid_ptr = pr_clear_child_tid (ps_proc s p);
          s = (if tid_ptr \<noteq> 0
               then let s = (if ps_refs s (Mm m) > 1 then clear_and_wake tid_ptr s else s)
                    in upd_proc p (\<lambda>r. r\<lparr>pr_clear_child_tid := 0\<rparr>) s
               else s)
      in if pr_vfork_done (ps_proc s p) \<noteq> None then complete_vfork_done complete p s else s)"

definition wait_for_vfork_done :: "forkops \<Rightarrow> tid \<Rightarrow> pstate \<Rightarrow> bool \<times> pstate" where
  "wait_for_vfork_done f child s =
     (let (killed, s) = fk_wait_vfork f child s;
          s = (if killed then upd_proc child (\<lambda>r. r\<lparr>pr_vfork_done := None\<rparr>) s else s)
      in (killed, upd_k (put_task_struct child) s))"

subsection \<open>Files, file system and signals\<close>

definition copy_fs :: "cenv \<Rightarrow> forkops \<Rightarrow> u64 \<Rightarrow> tid \<Rightarrow> pstate \<Rightarrow> errno option \<times> pstate" where
  "copy_fs g f clone_flags p s =
     (let fs = the (pr_fs (ps_proc s (cur s)))
      in if flag_set clone_flags (CLONE_FS g)
         then if ps_fs_in_exec s fs then (Some EAGAIN, s) else (None, add_ref (Fs fs) s)
         else case fk_copy_fs_struct f fs s of
                None \<Rightarrow> (Some ENOMEM, upd_proc p (\<lambda>r. r\<lparr>pr_fs := None\<rparr>) s)
              | Some n \<Rightarrow> (None, upd_proc p (\<lambda>r. r\<lparr>pr_fs := Some n\<rparr>) (set_ref (Fs n) 1 s)))"

definition copy_files :: "cenv \<Rightarrow> forkops \<Rightarrow> u64 \<Rightarrow> tid \<Rightarrow> pstate \<Rightarrow> errno option \<times> pstate" where
  "copy_files g f clone_flags p s =
     (case pr_files (ps_proc s (cur s)) of
        None \<Rightarrow> (None, s)
      | Some oldf \<Rightarrow>
          if flag_set clone_flags (CLONE_FILES g) then (None, add_ref (Files oldf) s)
          else case fk_dup_fd f oldf s of
                 Inl err \<Rightarrow> (Some err, s)
               | Inr n \<Rightarrow> (None, upd_proc p (\<lambda>r. r\<lparr>pr_files := Some n\<rparr>) (set_ref (Files n) 1 s)))"

definition copy_sighand :: "cenv \<Rightarrow> forkops \<Rightarrow> u64 \<Rightarrow> tid \<Rightarrow> pstate \<Rightarrow> errno option \<times> pstate" where
  "copy_sighand g f clone_flags p s =
     (if flag_set clone_flags (CLONE_SIGHAND g) then (None, add_ref (Sighand (the (pr_sighand (ps_proc s (cur s))))) s)
      else let n = fk_alloc_sighand f s;
               s = upd_proc p (\<lambda>r. r\<lparr>pr_sighand := n\<rparr>) s
           in case n of None \<Rightarrow> (Some ENOMEM, s) | Some m \<Rightarrow> (None, set_ref (Sighand m) 1 s))"

definition k__cleanup_sighand :: "nat \<Rightarrow> pstate \<Rightarrow> pstate" where
  "k__cleanup_sighand n = sub_ref (Sighand n)"

text \<open>\<^verbatim>\<open>Signal n\<close> counts the allocation of the structure; \<open>sg_sigcnt\<close> is its reference count.\<close>

definition new_signal :: "tid \<Rightarrow> signal_struct \<Rightarrow> signal_struct" where
  "new_signal p parent = \<lparr>sg_nr_threads = 1, sg_live = 1, sg_sigcnt = 1, sg_unkillable = False, sg_threads = [p],
     sg_oom_score_adj = sg_oom_score_adj parent, sg_oom_score_adj_min = sg_oom_score_adj_min parent, sg_oom_mm = None,
     sg_has_child_subreaper = False, sg_is_child_subreaper = False\<rparr>"

definition copy_signal :: "cenv \<Rightarrow> forkops \<Rightarrow> u64 \<Rightarrow> tid \<Rightarrow> pstate \<Rightarrow> errno option \<times> pstate" where
  "copy_signal g f clone_flags p s =
     (if flag_set clone_flags (CLONE_THREAD g) then (None, s)
      else let parent = ps_signal s (the (pr_signal (ps_proc s (cur s))));
               n = fk_alloc_signal f s;
               s = upd_proc p (\<lambda>r. r\<lparr>pr_signal := n\<rparr>) s
           in case n of
                None \<Rightarrow> (Some ENOMEM, s)
              | Some m \<Rightarrow> (None, fk_autogroup_fork f m (upd_sig m (\<lambda>_. new_signal p parent) (add_ref (Signal m) s))))"

definition mmdrop_async :: "nat \<Rightarrow> pstate \<Rightarrow> pstate" where
  "mmdrop_async m s = mmdrop m s"

definition free_signal_struct :: "forkops \<Rightarrow> nat \<Rightarrow> pstate \<Rightarrow> pstate" where
  "free_signal_struct f n s =
     (let s = fk_autogroup_exit f n s;
          s = (case sg_oom_mm (ps_signal s n) of None \<Rightarrow> s | Some m \<Rightarrow> mmdrop_async m s)
      in sub_ref (Signal n) s)"

definition put_signal_struct :: "forkops \<Rightarrow> nat \<Rightarrow> pstate \<Rightarrow> pstate" where
  "put_signal_struct f n s =
     (let s = upd_sig n (\<lambda>g. g\<lparr>sg_sigcnt := sg_sigcnt g - 1\<rparr>) s
      in if sg_sigcnt (ps_signal s n) = 0 then free_signal_struct f n s else s)"

text \<open>\<^verbatim>\<open>get_seccomp_filter\<close> takes a reference to the filter of the current task.\<close>

definition copy_seccomp :: "tid \<Rightarrow> pstate \<Rightarrow> pstate" where
  "copy_seccomp p s =
     (let filter = pr_seccomp (ps_proc s (cur s));
          s = (case filter of None \<Rightarrow> s | Some n \<Rightarrow> add_ref (Filter n) s)
      in upd_proc p (\<lambda>r. r\<lparr>pr_seccomp := filter\<rparr>) s)"

definition set_tid_address :: "u64 \<Rightarrow> pstate \<Rightarrow> nat \<times> pstate" where
  "set_tid_address tidptr s =
     (let s = upd_proc (cur s) (\<lambda>r. r\<lparr>pr_clear_child_tid := tidptr\<rparr>) s in (t_pid (tasks (ps_k s) (cur s)), s))"

definition rt_mutex_init_task :: "tid \<Rightarrow> pstate \<Rightarrow> pstate" where
  "rt_mutex_init_task p = upd_k (upd_task p (\<lambda>t. t\<lparr>t_pi_top_task := None\<rparr>))"

text \<open>The last reference to a task: what \<^verbatim>\<open>__put_task_struct\<close> gives back.\<close>

definition k__put_task_struct :: "forkops \<Rightarrow> tid \<Rightarrow> pstate \<Rightarrow> pstate" where
  "k__put_task_struct f p s =
     (let s = fk_give f Cgroup p s;
          s = fk_give f Security p s;
          s = fk_give f Creds p s;
          s = (case pr_signal (ps_proc s p) of None \<Rightarrow> s | Some n \<Rightarrow> put_signal_struct f n s);
          s = fk_give f Core_cookie p s
      in free_task f p s)"

definition nr_processes :: "pstate \<Rightarrow> int" where
  "nr_processes s = sum_list (map (process_counts s) (possible_cpus (ps_k s)))"

end
