(* ===== verification/Copy_Process.thy ===== *)
theory Copy_Process
  imports Fork_Objects
begin

text \<open>
  \<^verbatim>\<open>copy_process\<close> and its error path, \<^verbatim>\<open>Project 2/fork.c\<close> lines 1902 to 2463.

  The body is a sequence of stages; a stage either goes on or leaves with an error and the label to jump to.  The
  labels are in the order of the source: \<open>cleanup\<close> runs the code at a label and at all labels below it.  Accounting,
  tracing and fields that no other modelled function reads are left out.
\<close>

subsection \<open>Arguments\<close>

record kernel_clone_args =
  ca_flags :: u64
  ca_pidfd :: u64
  ca_child_tid :: u64
  ca_parent_tid :: u64
  ca_exit_signal :: int
  ca_stack :: u64
  ca_stack_size :: u64
  ca_tls :: u64
  ca_set_tid_size :: nat
  ca_cgroup :: int
  ca_io_thread :: bool

text \<open>
  What the stages share: the environment, the arguments, whether \<^verbatim>\<open>pid\<close> is \<^verbatim>\<open>&init_struct_pid\<close>, and the new task.  The
  local variable \<^verbatim>\<open>pid\<close> is kept in \<open>pr_thread_pid\<close> from the stage that allocates it.
\<close>

record fctx =
  fc_e :: kenv
  fc_x :: kops
  fc_g :: cenv
  fc_f :: forkops
  fc_args :: kernel_clone_args
  fc_init_pid :: bool
  fc_p :: tid

definition has :: "fctx \<Rightarrow> (cenv \<Rightarrow> u64) \<Rightarrow> bool" where
  "has z flag \<longleftrightarrow> flag_set (ca_flags (fc_args z)) (flag (fc_g z))"

text \<open>The tests at the start, all of which fail with \<^verbatim>\<open>EINVAL\<close>.\<close>

definition has_all :: "u64 \<Rightarrow> u64 \<Rightarrow> bool" where
  "has_all flags m \<longleftrightarrow> flags AND m = m"

definition clone_flags_ok :: "cenv \<Rightarrow> forkops \<Rightarrow> u64 \<Rightarrow> pstate \<Rightarrow> bool" where
  "clone_flags_ok g f flags s =
     (if has_all flags (CLONE_NEWNS g OR CLONE_FS g) then False
      else if has_all flags (CLONE_NEWUSER g OR CLONE_FS g) then False
      else if flag_set flags (CLONE_THREAD g) \<and> \<not> flag_set flags (CLONE_SIGHAND g) then False
      else if flag_set flags (CLONE_SIGHAND g) \<and> \<not> flag_set flags (CLONE_VM g) then False
      else if flag_set flags (CLONE_PARENT g) \<and> sg_unkillable (ps_signal s (the (pr_signal (ps_proc s (cur s))))) then False
      else if flag_set flags (CLONE_THREAD g) \<and> (flag_set flags (CLONE_NEWUSER g OR CLONE_NEWPID g) \<or> \<not> fk_same_pid_ns f s) then False
      else if flag_set flags (CLONE_THREAD g OR CLONE_VM g) \<and> \<not> fk_same_time_ns f s then False
      else if flag_set flags (CLONE_PIDFD g) \<and> flag_set flags (CLONE_DETACHED g OR CLONE_THREAD g) then False
      else True)"

subsection \<open>The error path\<close>

datatype fork_label =
  cancel_cgroup | put_pidfd | free_pid | cleanup_thread | cleanup_io | cleanup_namespaces | cleanup_mm | cleanup_signal
  | cleanup_sighand | cleanup_fs | cleanup_files | cleanup_semundo | cleanup_security | cleanup_audit | cleanup_perf
  | cleanup_policy | cleanup_delayacct | cleanup_count | bad_fork_free | fork_out

definition fork_labels :: "fork_label list" where
  "fork_labels = [cancel_cgroup, put_pidfd, free_pid, cleanup_thread, cleanup_io, cleanup_namespaces, cleanup_mm, cleanup_signal,
     cleanup_sighand, cleanup_fs, cleanup_files, cleanup_semundo, cleanup_security, cleanup_audit, cleanup_perf, cleanup_policy,
     cleanup_delayacct, cleanup_count, bad_fork_free, fork_out]"

text \<open>\<^verbatim>\<open>fput\<close> of the file of a pidfd calls \<^verbatim>\<open>pidfd_release\<close>, which puts the reference that the file holds.\<close>

definition put_pid :: "nat \<Rightarrow> pstate \<Rightarrow> pstate" where
  "put_pid n = sub_ref (Pid n)"

definition pidfd_release :: "nat \<Rightarrow> pstate \<Rightarrow> pstate" where
  "pidfd_release n s = put_pid n s"

definition the_pid :: "fctx \<Rightarrow> pstate \<Rightarrow> nat" where
  "the_pid z s = the (pr_thread_pid (ps_proc s (fc_p z)))"

definition cleanup_at :: "fctx \<Rightarrow> fork_label \<Rightarrow> pstate \<Rightarrow> pstate" where
  "cleanup_at z l s =
     (let f = fc_f z; p = fc_p z
      in case l of
           cancel_cgroup \<Rightarrow> fk_give f Cgroup p (fk_give f Core_cookie p s)
         | put_pidfd \<Rightarrow>
             if has z CLONE_PIDFD
             then fk_give f Fd p (pidfd_release (the_pid z s) (fk_give f Pidfile p s))
             else s
         | free_pid \<Rightarrow> if \<not> fc_init_pid z then put_pid (the_pid z s) s else s
         | cleanup_thread \<Rightarrow> fk_give f Thread p s
         | cleanup_io \<Rightarrow> if pr_io_context (ps_proc s p) then fk_give f Io p s else s
         | cleanup_namespaces \<Rightarrow> fk_give f Namespaces p s
         | cleanup_mm \<Rightarrow> (case t_mm (tasks (ps_k s) p) of None \<Rightarrow> s | Some m \<Rightarrow> mmput m s)
         | cleanup_signal \<Rightarrow> if \<not> has z CLONE_THREAD then free_signal_struct f (the (pr_signal (ps_proc s p))) s else s
         | cleanup_sighand \<Rightarrow> k__cleanup_sighand (the (pr_sighand (ps_proc s p))) s
         | cleanup_fs \<Rightarrow> fk_exit_fs f p s
         | cleanup_files \<Rightarrow> fk_exit_files f p s
         | cleanup_semundo \<Rightarrow> fk_give f Semundo p s
         | cleanup_security \<Rightarrow> fk_give f Security p s
         | cleanup_audit \<Rightarrow> fk_give f Audit p s
         | cleanup_perf \<Rightarrow> fk_give f Perf p s
         | cleanup_policy \<Rightarrow> fk_give f Mempolicy p s
         | cleanup_delayacct \<Rightarrow> s
         | cleanup_count \<Rightarrow> fk_give f Creds p (fk_give f Nproc p s)
         | bad_fork_free \<Rightarrow> free_task f p (put_task_stack f p (upd_k (upd_task p (\<lambda>t. t\<lparr>t_state := TASK_DEAD\<rparr>)) s))
         | fork_out \<Rightarrow> s)"

definition labels_from :: "fork_label \<Rightarrow> fork_label list" where
  "labels_from l = dropWhile (\<lambda>m. m \<noteq> l) fork_labels"

definition cleanup :: "fctx \<Rightarrow> fork_label \<Rightarrow> pstate \<Rightarrow> pstate" where
  "cleanup z l s = fold (cleanup_at z) (labels_from l) s"

subsection \<open>The stages\<close>

type_synonym stage = "fctx \<Rightarrow> pstate \<Rightarrow> (fork_label \<times> errno) option \<times> pstate"

text \<open>A step that fails with its own error, and one that always goes on.\<close>

definition fails_to :: "fork_label \<Rightarrow> errno option \<times> pstate \<Rightarrow> (fork_label \<times> errno) option \<times> pstate" where
  "fails_to l r = (map_option (Pair l) (fst r), snd r)"

definition stage_init :: stage where
  "stage_init z s =
     (let p = fc_p z;
          s = (if ca_io_thread (fc_args z) then upd_k (upd_task p (\<lambda>t. t\<lparr>t_flags := t_flags t OR PF_IO_WORKER\<rparr>)) s else s);
          s = upd_proc p (\<lambda>r. r\<lparr>pr_set_child_tid := (if has z CLONE_CHILD_SETTID then ca_child_tid (fc_args z) else 0),
                pr_clear_child_tid := (if has z CLONE_CHILD_CLEARTID then ca_child_tid (fc_args z) else 0)\<rparr>) s
      in (None, rt_mutex_init_task p s))"

definition stage_creds :: stage where
  "stage_creds z s = fails_to bad_fork_free (fk_copy_creds (fc_f z) (fc_p z) s)"

definition stage_limits :: stage where
  "stage_limits z s =
     (let f = fc_f z; p = fc_p z
      in if fk_overlimit f p s \<and> \<not> fk_init_user f p s \<and> \<not> fk_cap_sys_resource f \<and> \<not> fk_cap_sys_admin f
         then (Some (cleanup_count, EAGAIN), s)
         else let s = upd_k (upd_task (cur s) (\<lambda>t. t\<lparr>t_flags := t_flags t AND NOT PF_NPROC_EXCEEDED\<rparr>)) s
              in if nr_threads s \<ge> max_threads s then (Some (cleanup_count, EAGAIN), s) else (None, s))"

definition stage_clear :: stage where
  "stage_clear z s =
     (let p = fc_p z;
          s = upd_k (upd_task p (\<lambda>t. t\<lparr>t_flags := (t_flags t AND NOT (PF_SUPERPRIV OR PF_WQ_WORKER OR PF_IDLE OR PF_NO_SETAFFINITY))
                OR PF_FORKNOEXEC\<rparr>)) s
      in (None, upd_proc p (\<lambda>r. r\<lparr>pr_children := [], pr_vfork_done := None, pr_io_context := False\<rparr>) s))"

definition stage_kthread :: stage where
  "stage_kthread z s =
     (let p = fc_p z
      in if flag_set (t_flags (tasks (ps_k s) p)) PF_KTHREAD
         then case fk_take (fc_f z) Kthread p s of
                (Some _, s) \<Rightarrow> (Some (cleanup_delayacct, EAGAIN), s)
              | (None, s) \<Rightarrow> (None, upd_proc p (\<lambda>r. r\<lparr>pr_worker_private := True\<rparr>) s)
         else (None, s))"

definition stage_take :: "ext \<Rightarrow> fork_label \<Rightarrow> stage" where
  "stage_take r l z s = fails_to l (fk_take (fc_f z) r (fc_p z) s)"

definition stage_sched :: stage where
  "stage_sched z s =
     (let (ret, k) = sched_fork (fc_e z) (fc_x z) (fc_p z) (ps_k s) in fails_to cleanup_policy (ret, s\<lparr>ps_k := k\<rparr>))"

definition stage_files :: stage where
  "stage_files z s = fails_to cleanup_semundo (copy_files (fc_g z) (fc_f z) (ca_flags (fc_args z)) (fc_p z) s)"

definition stage_fs :: stage where
  "stage_fs z s = fails_to cleanup_files (copy_fs (fc_g z) (fc_f z) (ca_flags (fc_args z)) (fc_p z) s)"

definition stage_sighand :: stage where
  "stage_sighand z s = fails_to cleanup_fs (copy_sighand (fc_g z) (fc_f z) (ca_flags (fc_args z)) (fc_p z) s)"

definition stage_signal :: stage where
  "stage_signal z s = fails_to cleanup_sighand (copy_signal (fc_g z) (fc_f z) (ca_flags (fc_args z)) (fc_p z) s)"

definition stage_mm :: stage where
  "stage_mm z s = fails_to cleanup_signal (copy_mm (fc_g z) (fc_f z) (ca_flags (fc_args z)) (fc_p z) s)"

definition stage_io :: stage where
  "stage_io z s = fails_to cleanup_namespaces (fk_copy_io (fc_f z) (fc_p z) s)"

definition stage_pid :: stage where
  "stage_pid z s =
     (if fc_init_pid z then (None, s)
      else case fk_alloc_pid (fc_f z) s of
             Inl err \<Rightarrow> (Some (cleanup_thread, err), s)
           | Inr n \<Rightarrow> (None, upd_proc (fc_p z) (\<lambda>r. r\<lparr>pr_thread_pid := Some n\<rparr>) (set_ref (Pid n) 1 s)))"

definition stage_pidfd :: stage where
  "stage_pidfd z s =
     (let f = fc_f z; p = fc_p z
      in if \<not> has z CLONE_PIDFD then (None, s)
         else case fk_take f Fd p s of
                (Some err, s) \<Rightarrow> (Some (free_pid, err), s)
              | (None, s) \<Rightarrow>
                  (case fk_take f Pidfile p s of
                     (Some err, s) \<Rightarrow> (Some (free_pid, err), fk_give f Fd p s)
                   | (None, s) \<Rightarrow>
                       let s = add_ref (Pid (the_pid z s)) s
                       in fails_to put_pidfd (fk_put_user f (ca_pidfd (fc_args z)) s, s)))"

definition stage_ids :: stage where
  "stage_ids z s =
     (let p = fc_p z;
          nr = (if fc_init_pid z then 0 else fk_pid_nr (fc_f z) (the_pid z s));
          s = upd_k (upd_task p (\<lambda>t. t\<lparr>t_pid := nr\<rparr>)) s
      in (None, if has z CLONE_THREAD
                then upd_k (upd_task p (\<lambda>t. t\<lparr>t_tgid := t_tgid (tasks (ps_k s) (cur s))\<rparr>))
                  (upd_proc p (\<lambda>r. r\<lparr>pr_group_leader := pr_group_leader (ps_proc s (cur s))\<rparr>) s)
                else upd_k (upd_task p (\<lambda>t. t\<lparr>t_tgid := t_pid t\<rparr>)) (upd_proc p (\<lambda>r. r\<lparr>pr_group_leader := p\<rparr>) s)))"

definition stage_cgroup_fork :: stage where
  "stage_cgroup_fork z s = (None, upd_k (sched_cgroup_fork (fc_x z) (fk_task_group (fc_f z) (fc_p z) s) (fc_p z)) s)"

definition stage_parent :: stage where
  "stage_parent z s =
     (let p = fc_p z; c = ps_proc s (cur s)
      in (None, upd_proc p (\<lambda>r.
           if has z CLONE_PARENT \<or> has z CLONE_THREAD
           then r\<lparr>pr_real_parent := pr_real_parent c, pr_parent_exec_id := pr_parent_exec_id c,
                  pr_exit_signal := (if has z CLONE_THREAD then -1 else pr_exit_signal (ps_proc s (pr_group_leader c)))\<rparr>
           else r\<lparr>pr_real_parent := cur s, pr_parent_exec_id := pr_self_exec_id c,
                  pr_exit_signal := ca_exit_signal (fc_args z)\<rparr>) s))"

definition stage_core :: stage where
  "stage_core z s = (None, snd (fk_take (fc_f z) Core_cookie (fc_p z) s))"

definition stage_seccomp :: stage where
  "stage_seccomp z s = (None, copy_seccomp (fc_p z) s)"

definition stage_late :: stage where
  "stage_late z s =
     (if \<not> fk_pid_allocated_adding (fc_f z) s then (Some (cancel_cgroup, ENOMEM), s)
      else if fk_fatal_signal_pending (fc_f z) s then (Some (cancel_cgroup, EINTR), s)
      else (None, s))"

text \<open>The stages up to the last one that can fail, with the label that each moves to: from there on it is the one to jump to.\<close>

definition fork_stages :: "(stage \<times> fork_label) list" where
  "fork_stages =
     [(stage_init, bad_fork_free), (stage_creds, cleanup_count), (stage_limits, cleanup_count), (stage_clear, cleanup_delayacct),
      (stage_kthread, cleanup_delayacct), (stage_take Mempolicy cleanup_delayacct, cleanup_policy), (stage_sched, cleanup_policy),
      (stage_take Perf cleanup_policy, cleanup_perf), (stage_take Audit cleanup_perf, cleanup_audit),
      (stage_take Security cleanup_audit, cleanup_security), (stage_take Semundo cleanup_security, cleanup_semundo),
      (stage_files, cleanup_files), (stage_fs, cleanup_fs), (stage_sighand, cleanup_sighand), (stage_signal, cleanup_signal),
      (stage_mm, cleanup_mm), (stage_take Namespaces cleanup_mm, cleanup_namespaces), (stage_io, cleanup_io),
      (stage_take Thread cleanup_io, cleanup_thread), (stage_pid, free_pid), (stage_pidfd, put_pidfd), (stage_ids, put_pidfd)]"

definition late_stages :: "stage list" where
  "late_stages = [stage_take Cgroup put_pidfd, stage_cgroup_fork, stage_parent, stage_core, stage_seccomp, stage_late]"

primrec run_stages :: "stage list \<Rightarrow> stage" where
  "run_stages [] z s = (None, s)"
| "run_stages (st # sts) z s = (case st z s of (Some r, s) \<Rightarrow> (Some r, s) | (None, s) \<Rightarrow> run_stages sts z s)"

subsection \<open>Making the task visible\<close>

definition attach_leader :: "fctx \<Rightarrow> pstate \<Rightarrow> pstate" where
  "attach_leader z s =
     (let p = fc_p z; n = the (pr_signal (ps_proc s p)); parent = pr_real_parent (ps_proc s p);
          psig = ps_signal s (the (pr_signal (ps_proc s parent)));
          s = (if fk_is_child_reaper (fc_f z) (the_pid z s) s then upd_sig n (\<lambda>g. g\<lparr>sg_unkillable := True\<rparr>) s else s);
          s = upd_sig n (\<lambda>g. g\<lparr>sg_has_child_subreaper := sg_has_child_subreaper psig \<or> sg_is_child_subreaper psig\<rparr>) s;
          s = upd_proc parent (\<lambda>r. r\<lparr>pr_children := pr_children r @ [p]\<rparr>) s;
          s = s\<lparr>ps_processes := ps_processes s @ [p]\<rparr>
      in s\<lparr>process_counts := (process_counts s)(this_cpu (ps_k s) := process_counts s (this_cpu (ps_k s)) + 1)\<rparr>)"

definition attach_thread :: "fctx \<Rightarrow> pstate \<Rightarrow> pstate" where
  "attach_thread z s =
     upd_sig (the (pr_signal (ps_proc s (cur s)))) (\<lambda>g. g\<lparr>sg_nr_threads := sg_nr_threads g + 1, sg_live := sg_live g + 1,
       sg_sigcnt := sg_sigcnt g + 1, sg_threads := sg_threads g @ [fc_p z]\<rparr>) s"

definition thread_group_leader :: "pstate \<Rightarrow> tid \<Rightarrow> bool" where
  "thread_group_leader s p \<longleftrightarrow> pr_exit_signal (ps_proc s p) \<ge> 0"

definition attach_task :: "fctx \<Rightarrow> pstate \<Rightarrow> pstate" where
  "attach_task z s =
     (let p = fc_p z;
          s = (if t_pid (tasks (ps_k s) p) \<noteq> 0
               then let s = (if thread_group_leader s p then attach_leader z s else attach_thread z s)
                    in s\<lparr>nr_threads := nr_threads s + 1\<rparr>
               else s)
      in s\<lparr>total_forks := total_forks s + 1\<rparr>)"

definition copy_oom_score_adj :: "cenv \<Rightarrow> u64 \<Rightarrow> tid \<Rightarrow> pstate \<Rightarrow> pstate" where
  "copy_oom_score_adj g clone_flags p s =
     (if t_mm (tasks (ps_k s) p) = None then s
      else if clone_flags AND (CLONE_VM g OR CLONE_THREAD g OR CLONE_VFORK g) \<noteq> CLONE_VM g then s
      else let c = ps_signal s (the (pr_signal (ps_proc s (cur s))))
           in upd_sig (the (pr_signal (ps_proc s p))) (\<lambda>h. h\<lparr>sg_oom_score_adj := sg_oom_score_adj c,
                sg_oom_score_adj_min := sg_oom_score_adj_min c\<rparr>) s)"

definition fork_finish :: "fctx \<Rightarrow> pstate \<Rightarrow> pstate" where
  "fork_finish z s =
     (let p = fc_p z;
          s = attach_task z s;
          s = upd_k (sched_post_fork (fc_e z) p) s;
          s = copy_oom_score_adj (fc_g z) (ca_flags (fc_args z)) p s
      in upd_k (upd_task p (\<lambda>t. t\<lparr>t_my_fixed_priority := 0\<rparr>)) s)"

definition copy_process ::
  "kenv \<Rightarrow> kops \<Rightarrow> cenv \<Rightarrow> forkops \<Rightarrow> bool \<Rightarrow> kernel_clone_args \<Rightarrow> pstate \<Rightarrow> tid result \<times> pstate" where
  "copy_process e x g f init_pid args s =
     (if \<not> clone_flags_ok g f (ca_flags args) s then (Inl EINVAL, s)
      else if fk_task_sigpending f s then (Inl ERESTARTNOINTR, s)
      else case dup_task_struct f s of
             (None, s) \<Rightarrow> (Inl ENOMEM, s)
           | (Some p, s) \<Rightarrow>
               let z = \<lparr>fc_e = e, fc_x = x, fc_g = g, fc_f = f, fc_args = args, fc_init_pid = init_pid, fc_p = p\<rparr>
               in case run_stages (map fst fork_stages @ late_stages) z s of
                    (Some (l, err), s) \<Rightarrow> (Inl err, cleanup z l s)
                  | (None, s) \<Rightarrow> (Inr p, fork_finish z s))"

subsection \<open>Laws of the code outside\<close>

text \<open>
  A function that takes a resource takes one reference or fails without effect; the one that gives it back drops
  one; allocators return objects without references; \<^verbatim>\<open>exit_fs\<close> and \<^verbatim>\<open>exit_files\<close> drop the task's table.
\<close>

definition fork_law :: "forkops \<Rightarrow> bool" where
  "fork_law f \<longleftrightarrow>
     (\<forall>r p s. fk_take f r p s = (None, add_ref (Ext r p) s) \<or> (\<exists>err. fk_take f r p s = (Some err, s))) \<and>
     (\<forall>p s. fk_take f Core_cookie p s = (None, add_ref (Ext Core_cookie p) s)) \<and>
     (\<forall>r p s. fk_give f r p s = sub_ref (Ext r p) s) \<and>
     (\<forall>p s. fk_copy_creds f p s = (None, add_ref (Ext Creds p) (add_ref (Ext Nproc p) s)) \<or> (\<exists>err. fk_copy_creds f p s = (Some err, s))) \<and>
     (\<forall>p s. fk_copy_io f p s = (None, s) \<or> (\<exists>err. fk_copy_io f p s = (Some err, s)) \<or>
        fk_copy_io f p s = (None, upd_proc p (\<lambda>r. r\<lparr>pr_io_context := True\<rparr>) (add_ref (Ext Io p) s))) \<and>
     (\<forall>p s. fk_alloc_task f s = Some p \<longrightarrow> p \<noteq> cur s) \<and>
     (\<forall>n m s. fk_copy_fs_struct f n s = Some m \<longrightarrow> ps_refs s (Fs m) = 0) \<and>
     (\<forall>n m s. fk_dup_fd f n s = Inr m \<longrightarrow> ps_refs s (Files m) = 0) \<and>
     (\<forall>m s. fk_alloc_sighand f s = Some m \<longrightarrow> ps_refs s (Sighand m) = 0) \<and>
     (\<forall>m s. fk_allocate_mm f s = Some m \<longrightarrow> ps_refs s (Mm m) = 0) \<and>
     (\<forall>m s. fk_alloc_pid f s = Inr m \<longrightarrow> ps_refs s (Pid m) = 0) \<and>
     (\<forall>p s. fk_exit_fs f p s = (case pr_fs (ps_proc s p) of None \<Rightarrow> s | Some n \<Rightarrow> upd_proc p (\<lambda>r. r\<lparr>pr_fs := None\<rparr>) (sub_ref (Fs n) s))) \<and>
     (\<forall>p s. fk_exit_files f p s = (case pr_files (ps_proc s p) of None \<Rightarrow> s | Some n \<Rightarrow> upd_proc p (\<lambda>r. r\<lparr>pr_files := None\<rparr>) (sub_ref (Files n) s))) \<and>
     (\<forall>n s. fk_autogroup_fork f n s = add_ref (Autogroup n) s \<and> fk_autogroup_exit f n s = sub_ref (Autogroup n) s)"

lemma fork_give: "fork_law f \<Longrightarrow> fk_give f r p s = sub_ref (Ext r p) s"
  "fork_law f \<Longrightarrow> fk_autogroup_fork f n s = add_ref (Autogroup n) s" "fork_law f \<Longrightarrow> fk_autogroup_exit f n s = sub_ref (Autogroup n) s"
  "fork_law f \<Longrightarrow> fk_take f Core_cookie p s = (None, add_ref (Ext Core_cookie p) s)"
  by (simp_all add: fork_law_def)

lemma fork_exit:
  "fork_law f \<Longrightarrow> fk_exit_fs f p s = (case pr_fs (ps_proc s p) of None \<Rightarrow> s | Some n \<Rightarrow> upd_proc p (\<lambda>r. r\<lparr>pr_fs := None\<rparr>) (sub_ref (Fs n) s))"
  "fork_law f \<Longrightarrow> fk_exit_files f p s = (case pr_files (ps_proc s p) of None \<Rightarrow> s | Some n \<Rightarrow> upd_proc p (\<lambda>r. r\<lparr>pr_files := None\<rparr>) (sub_ref (Files n) s))"
  by (simp_all add: fork_law_def)

lemma fork_take: "fork_law f \<Longrightarrow> fk_take f r p s = (None, add_ref (Ext r p) s) \<or> (\<exists>err. fk_take f r p s = (Some err, s))"
  by (simp add: fork_law_def)

lemma fork_creds: "fork_law f \<Longrightarrow> fk_copy_creds f p s = (None, add_ref (Ext Creds p) (add_ref (Ext Nproc p) s)) \<or>
    (\<exists>err. fk_copy_creds f p s = (Some err, s))"
  by (simp add: fork_law_def)

lemma fork_io: "fork_law f \<Longrightarrow> fk_copy_io f p s = (None, s) \<or> (\<exists>err. fk_copy_io f p s = (Some err, s)) \<or>
    fk_copy_io f p s = (None, upd_proc p (\<lambda>r. r\<lparr>pr_io_context := True\<rparr>) (add_ref (Ext Io p) s))"
  by (simp add: fork_law_def)

lemma fork_fresh:
  assumes "fork_law f"
  shows "fk_alloc_task f s = Some p \<Longrightarrow> p \<noteq> cur s" "fk_copy_fs_struct f n s = Some m \<Longrightarrow> ps_refs s (Fs m) = 0"
    "fk_dup_fd f n s = Inr m \<Longrightarrow> ps_refs s (Files m) = 0" "fk_alloc_sighand f s = Some m \<Longrightarrow> ps_refs s (Sighand m) = 0"
    "fk_allocate_mm f s = Some m \<Longrightarrow> ps_refs s (Mm m) = 0" "fk_alloc_pid f s = Inr m \<Longrightarrow> ps_refs s (Pid m) = 0"
  using assms by (simp_all add: fork_law_def)

text \<open>Reading after an update.\<close>

lemma refs_upd [simp]:
  "ps_refs (add_ref b s) c = ps_refs s c + of_bool (c = b)" "ps_refs (sub_ref b s) c = ps_refs s c - of_bool (c = b)"
  "ps_refs (set_ref b n s) c = (if c = b then n else ps_refs s c)" "ps_refs (upd_proc p h s) = ps_refs s"
  "ps_refs (upd_sig i w s) = ps_refs s" "ps_refs (upd_k u s) = ps_refs s"
  by (simp_all add: add_ref_def sub_ref_def set_ref_def upd_proc_def upd_sig_def upd_k_def)

lemma proc_upd [simp]:
  "ps_proc (add_ref b s) = ps_proc s" "ps_proc (sub_ref b s) = ps_proc s" "ps_proc (set_ref b n s) = ps_proc s"
  "ps_proc (upd_proc p h s) q = (if q = p then h (ps_proc s p) else ps_proc s q)"
  "ps_proc (upd_sig i w s) = ps_proc s" "ps_proc (upd_k u s) = ps_proc s"
  by (simp_all add: add_ref_def sub_ref_def set_ref_def upd_proc_def upd_sig_def upd_k_def)

lemma k_upd [simp]:
  "ps_k (add_ref b s) = ps_k s" "ps_k (sub_ref b s) = ps_k s" "ps_k (set_ref b n s) = ps_k s"
  "ps_k (upd_proc p h s) = ps_k s" "ps_k (upd_sig i w s) = ps_k s" "ps_k (upd_k u s) = u (ps_k s)"
  by (simp_all add: add_ref_def sub_ref_def set_ref_def upd_proc_def upd_sig_def upd_k_def)

lemma mm_upd [simp]:
  "ps_refs (mmput m s) b = ps_refs s b - of_bool (b = Mm m)" "ps_proc (mmput m s) = ps_proc s"
  "tasks (ps_k (mmput m s)) = tasks (ps_k s)" "ps_refs (mmdrop m s) = ps_refs s" "ps_proc (mmdrop m s) = ps_proc s"
  "tasks (ps_k (mmdrop m s)) = tasks (ps_k s)" "rqs (ps_k (mmput m s)) = rqs (ps_k s)" "this_cpu (ps_k (mmput m s)) = this_cpu (ps_k s)"
  "rqs (ps_k (mmdrop m s)) = rqs (ps_k s)" "this_cpu (ps_k (mmdrop m s)) = this_cpu (ps_k s)"
  by (simp_all add: mmput_def k__mmput_def mmdrop_def upd_mm_count_def Let_def)

lemma cur_upd [simp]:
  "cur (add_ref b s) = cur s" "cur (sub_ref b s) = cur s" "cur (set_ref b n s) = cur s" "cur (upd_proc p h s) = cur s"
  "cur (upd_sig i w s) = cur s" "cur (upd_k (upd_task q v) s) = cur s" "cur (mmput m s) = cur s" "cur (mmdrop m s) = cur s"
  by (simp_all add: cur_def current_def upd_task_def)

end
