(* ===== verification/Fork_Balance.thy ===== *)
theory Fork_Balance
  imports Copy_Process
begin

text \<open>
  The balance of references in \<^verbatim>\<open>copy_process\<close>, \<^verbatim>\<open>Project 2/fork.c\<close> lines 1902 to 2463: every stage takes what the error path
  from the label it moves to gives back.  The error path therefore leaves the counts of before, but for one
  reference: that of \<^verbatim>\<open>copy_seccomp\<close>.
\<close>

subsection \<open>What the error path gives back\<close>

definition owed_at :: "fctx \<Rightarrow> fork_label \<Rightarrow> pstate \<Rightarrow> robj \<Rightarrow> int" where
  "owed_at z l s b =
     (let p = fc_p z; r = ps_proc s p; t = tasks (ps_k s) p; h = (\<lambda>y. of_bool (b = Ext y p))
      in case l of
           cancel_cgroup \<Rightarrow> h Cgroup + h Core_cookie
         | put_pidfd \<Rightarrow> if has z CLONE_PIDFD then h Fd + of_bool (b = Pid (the_pid z s)) + h Pidfile else 0
         | free_pid \<Rightarrow> if \<not> fc_init_pid z then of_bool (b = Pid (the_pid z s)) else 0
         | cleanup_thread \<Rightarrow> h Thread
         | cleanup_io \<Rightarrow> if pr_io_context r then h Io else 0
         | cleanup_namespaces \<Rightarrow> h Namespaces
         | cleanup_mm \<Rightarrow> of_bool (Some b = map_option Mm (t_mm t))
         | cleanup_signal \<Rightarrow> if \<not> has z CLONE_THREAD then of_bool (b = Autogroup (the (pr_signal r))) + of_bool (b = Signal (the (pr_signal r))) else 0
         | cleanup_sighand \<Rightarrow> of_bool (b = Sighand (the (pr_sighand r)))
         | cleanup_fs \<Rightarrow> of_bool (Some b = map_option Fs (pr_fs r))
         | cleanup_files \<Rightarrow> of_bool (Some b = map_option Files (pr_files r))
         | cleanup_semundo \<Rightarrow> h Semundo
         | cleanup_security \<Rightarrow> h Security
         | cleanup_audit \<Rightarrow> h Audit
         | cleanup_perf \<Rightarrow> h Perf
         | cleanup_policy \<Rightarrow> h Mempolicy
         | cleanup_delayacct \<Rightarrow> 0
         | cleanup_count \<Rightarrow> h Nproc + h Creds
         | bad_fork_free \<Rightarrow> h Stack + (if flag_set (t_flags t) PF_KTHREAD \<and> pr_worker_private r then h Kthread else 0) + h Task_struct
         | fork_out \<Rightarrow> 0)"

lemma free_signal_refs:
  "fork_law f \<Longrightarrow> ps_refs (free_signal_struct f n s) b = ps_refs s b - of_bool (b = Autogroup n) - of_bool (b = Signal n)"
  "fork_law f \<Longrightarrow> ps_proc (free_signal_struct f n s) = ps_proc s" "fork_law f \<Longrightarrow> tasks (ps_k (free_signal_struct f n s)) = tasks (ps_k s)"
  by (simp_all add: free_signal_struct_def mmdrop_async_def Let_def fork_give split: option.split)

lemma free_task_refs:
  assumes "fork_law f"
  shows "ps_refs (free_task f p s) b = ps_refs s b - of_bool (b = Ext Task_struct p) -
      (if flag_set (t_flags (tasks (ps_k s) p)) PF_KTHREAD \<and> pr_worker_private (ps_proc s p) then of_bool (b = Ext Kthread p) else 0)"
    "q \<noteq> p \<Longrightarrow> ps_proc (free_task f p s) q = ps_proc s q" "pr_fs (ps_proc (free_task f p s) p) = pr_fs (ps_proc s p)"
  by (simp_all add: free_task_def Let_def fork_give [OF assms] release_user_cpus_ptr_def)

lemma cleanup_at_refs:
  assumes "fork_law (fc_f z)"
  shows "ps_refs (cleanup_at z l s) b = ps_refs s b - owed_at z l s b"
  by (cases l)
    (auto simp: cleanup_at_def owed_at_def Let_def fork_give [OF assms] fork_exit [OF assms] free_signal_refs [OF assms] put_pid_def
      pidfd_release_def k__cleanup_sighand_def put_task_stack_def release_task_stack_def free_task_refs [OF assms]
      the_pid_def split: option.split)

text \<open>The fields of the new task that the labels read.\<close>

definition fview :: "fctx \<Rightarrow> pstate \<Rightarrow> nat option \<times> bool \<times> nat option \<times> nat option \<times> nat option \<times> bool" where
  "fview z s = (let r = ps_proc s (fc_p z); t = tasks (ps_k s) (fc_p z)
     in (pr_thread_pid r, pr_io_context r, pr_signal r, pr_sighand r, t_mm t, flag_set (t_flags t) PF_KTHREAD))"

lemma owed_cong:
  assumes "fview z s' = fview z s"
    and "m = cleanup_fs \<Longrightarrow> pr_fs (ps_proc s' (fc_p z)) = pr_fs (ps_proc s (fc_p z))"
    and "m = cleanup_files \<Longrightarrow> pr_files (ps_proc s' (fc_p z)) = pr_files (ps_proc s (fc_p z))"
    and "m = bad_fork_free \<Longrightarrow> pr_worker_private (ps_proc s' (fc_p z)) = pr_worker_private (ps_proc s (fc_p z))"
  shows "owed_at z m s' b = owed_at z m s b"
  using assms by (cases m) (simp_all add: owed_at_def fview_def Let_def the_pid_def)

lemma fview_upd [simp]:
  "fview z (add_ref b s) = fview z s" "fview z (sub_ref b s) = fview z s" "fview z (set_ref b n s) = fview z s"
  "fview z (upd_sig i w s) = fview z s" "fview z (mmput m s) = fview z s" "fview z (mmdrop m s) = fview z s"
  by (simp_all add: fview_def)

lemma owed_cleanup:
  assumes "fork_law (fc_f z)" and "m \<noteq> l"
  shows "owed_at z m (cleanup_at z l s) b = owed_at z m s b"
proof (rule owed_cong)
  show "fview z (cleanup_at z l s) = fview z s"
    by (cases l) (auto simp: cleanup_at_def Let_def fork_give [OF assms(1)] fork_exit [OF assms(1)] free_signal_struct_def mmdrop_async_def
      put_pid_def pidfd_release_def k__cleanup_sighand_def put_task_stack_def release_task_stack_def free_task_def release_user_cpus_ptr_def
      fview_def split: option.split)
  show "m = cleanup_fs \<Longrightarrow> pr_fs (ps_proc (cleanup_at z l s) (fc_p z)) = pr_fs (ps_proc s (fc_p z))"
    "m = cleanup_files \<Longrightarrow> pr_files (ps_proc (cleanup_at z l s) (fc_p z)) = pr_files (ps_proc s (fc_p z))"
    "m = bad_fork_free \<Longrightarrow> pr_worker_private (ps_proc (cleanup_at z l s) (fc_p z)) = pr_worker_private (ps_proc s (fc_p z))"
    using assms(2) by (cases l; auto simp: cleanup_at_def Let_def fork_give [OF assms(1)] fork_exit [OF assms(1)] free_signal_struct_def mmdrop_async_def
      put_pid_def pidfd_release_def k__cleanup_sighand_def put_task_stack_def release_task_stack_def free_task_def split: option.split)+
qed

lemma cleanup_fold_refs:
  assumes "fork_law (fc_f z)"
  shows "distinct ls \<Longrightarrow> ps_refs (fold (cleanup_at z) ls s) b = ps_refs s b - (\<Sum>m\<leftarrow>ls. owed_at z m s b)"
proof (induction ls arbitrary: s)
  case (Cons l ls)
  have "(\<Sum>m\<leftarrow>ls. owed_at z m (cleanup_at z l s) b) = (\<Sum>m\<leftarrow>ls. owed_at z m s b)"
    using Cons.prems by (intro arg_cong [where f = sum_list] map_cong refl owed_cleanup [OF assms]) auto
  then show ?case using Cons by (simp add: cleanup_at_refs [OF assms])
qed simp

text \<open>The references that remain once the error path from a label has run.\<close>

definition net :: "fctx \<Rightarrow> fork_label \<Rightarrow> pstate \<Rightarrow> robj \<Rightarrow> int" where
  "net z l s b = ps_refs s b - (\<Sum>m\<leftarrow>labels_from l. owed_at z m s b)"

lemma distinct_labels: "distinct (labels_from l)"
  by (simp add: labels_from_def distinct_dropWhile) (simp add: fork_labels_def)

lemma cleanup_refs: "fork_law (fc_f z) \<Longrightarrow> ps_refs (cleanup z l s) b = net z l s b"
  by (simp add: cleanup_def net_def cleanup_fold_refs distinct_labels)

lemma net_step:
  assumes "labels_from l' = l' # labels_from l" and "\<And>m. m \<in> set (labels_from l) \<Longrightarrow> owed_at z m s' b = owed_at z m s b"
    and "ps_refs s' b = ps_refs s b + owed_at z l' s' b"
  shows "net z l' s' b = net z l s b"
proof -
  have "(\<Sum>m\<leftarrow>labels_from l. owed_at z m s' b) = (\<Sum>m\<leftarrow>labels_from l. owed_at z m s b)"
    using assms(2) by (intro arg_cong [where f = sum_list] map_cong refl)
  then show ?thesis using assms(1,3) by (simp add: net_def)
qed

lemma net_same:
  assumes "\<And>m. m \<in> set (labels_from l) \<Longrightarrow> owed_at z m s' b = owed_at z m s b" and "ps_refs s' b = ps_refs s b"
  shows "net z l s' b = net z l s b"
proof -
  have "(\<Sum>m\<leftarrow>labels_from l. owed_at z m s' b) = (\<Sum>m\<leftarrow>labels_from l. owed_at z m s b)"
    using assms(1) by (intro arg_cong [where f = sum_list] map_cong refl)
  then show ?thesis using assms(2) by (simp add: net_def)
qed

lemma labels_next:
  "labels_from cancel_cgroup = cancel_cgroup # labels_from put_pidfd"
  "labels_from put_pidfd = put_pidfd # labels_from free_pid"
  "labels_from free_pid = free_pid # labels_from cleanup_thread"
  "labels_from cleanup_thread = cleanup_thread # labels_from cleanup_io"
  "labels_from cleanup_io = cleanup_io # labels_from cleanup_namespaces"
  "labels_from cleanup_namespaces = cleanup_namespaces # labels_from cleanup_mm"
  "labels_from cleanup_mm = cleanup_mm # labels_from cleanup_signal"
  "labels_from cleanup_signal = cleanup_signal # labels_from cleanup_sighand"
  "labels_from cleanup_sighand = cleanup_sighand # labels_from cleanup_fs"
  "labels_from cleanup_fs = cleanup_fs # labels_from cleanup_files"
  "labels_from cleanup_files = cleanup_files # labels_from cleanup_semundo"
  "labels_from cleanup_semundo = cleanup_semundo # labels_from cleanup_security"
  "labels_from cleanup_security = cleanup_security # labels_from cleanup_audit"
  "labels_from cleanup_audit = cleanup_audit # labels_from cleanup_perf"
  "labels_from cleanup_perf = cleanup_perf # labels_from cleanup_policy"
  "labels_from cleanup_policy = cleanup_policy # labels_from cleanup_delayacct"
  "labels_from cleanup_delayacct = cleanup_delayacct # labels_from cleanup_count"
  "labels_from cleanup_count = cleanup_count # labels_from bad_fork_free"
  "labels_from bad_fork_free = bad_fork_free # labels_from fork_out"
  "labels_from fork_out = [fork_out]"
  by (simp_all add: labels_from_def fork_labels_def)

subsection \<open>Every stage keeps the balance\<close>

text \<open>
  The new task is not the current one, which has a file system table and signal handlers.  Until a stage replaces them,
  the new task has the tables of its parent, without a reference: those of files down to level four, of the file
  system down to three and of signal handlers down to two.  Down to level five it has no structure of a kernel thread,
  and from there to level one no I/O context.
\<close>

definition base :: "fctx \<Rightarrow> pstate \<Rightarrow> bool" where
  "base z s \<longleftrightarrow> fc_p z \<noteq> cur s \<and> pr_fs (ps_proc s (cur s)) \<noteq> None \<and> pr_sighand (ps_proc s (cur s)) \<noteq> None"

definition inherits :: "nat \<Rightarrow> fctx \<Rightarrow> pstate \<Rightarrow> bool" where
  "inherits n z s \<longleftrightarrow>
     (n \<ge> 5 \<longrightarrow> \<not> pr_worker_private (ps_proc s (fc_p z))) \<and>
     (n \<ge> 4 \<longrightarrow> pr_files (ps_proc s (fc_p z)) = pr_files (ps_proc s (cur s))) \<and>
     (n \<ge> 3 \<longrightarrow> pr_fs (ps_proc s (fc_p z)) = pr_fs (ps_proc s (cur s))) \<and>
     (n \<ge> 2 \<longrightarrow> pr_sighand (ps_proc s (fc_p z)) = pr_sighand (ps_proc s (cur s))) \<and>
     (1 \<le> n \<and> n \<le> 5 \<longrightarrow> \<not> pr_io_context (ps_proc s (fc_p z)))"

definition stage_ok :: "fctx \<Rightarrow> stage \<Rightarrow> fork_label \<Rightarrow> nat \<Rightarrow> fork_label \<Rightarrow> nat \<Rightarrow> bool" where
  "stage_ok z st l n l' n' \<longleftrightarrow> (\<forall>s. base z s \<and> inherits n z s \<longrightarrow>
     (case st z s of
        (None, s') \<Rightarrow> base z s' \<and> inherits n' z s' \<and> (\<forall>b. net z l' s' b = net z l s b)
      | (Some (m, err), s') \<Rightarrow> \<forall>b. net z m s' b = net z l s b))"

lemma owed_upd [simp]:
  "owed_at z m (add_ref b s) = owed_at z m s" "owed_at z m (sub_ref b s) = owed_at z m s" "owed_at z m (set_ref b n s) = owed_at z m s"
  "owed_at z m (upd_sig i w s) = owed_at z m s"
  by (simp_all add: fun_eq_iff owed_at_def the_pid_def)

lemma base_upd [simp]:
  "base z (add_ref b s) = base z s" "base z (sub_ref b s) = base z s" "base z (set_ref b n s) = base z s" "base z (upd_sig i w s) = base z s"
  "base z (upd_k (upd_task q v) s) = base z s"
  by (simp_all add: base_def)

lemma base_upd_proc: "base z s \<Longrightarrow> base z (upd_proc (fc_p z) h s)"
  by (simp add: base_def)

lemma inherits_upd [simp]:
  "inherits n z (add_ref b s) = inherits n z s" "inherits n z (sub_ref b s) = inherits n z s" "inherits n z (set_ref b j s) = inherits n z s"
  "inherits n z (upd_sig i w s) = inherits n z s" "inherits n z (upd_k (upd_task q v) s) = inherits n z s"
  by (simp_all add: inherits_def)

lemma stage_okI:
  assumes "\<And>s s'. base z s \<Longrightarrow> inherits n z s \<Longrightarrow> st z s = (None, s') \<Longrightarrow> base z s'"
    and "\<And>s s'. base z s \<Longrightarrow> inherits n z s \<Longrightarrow> st z s = (None, s') \<Longrightarrow> inherits n' z s'"
    and "\<And>s s' b. base z s \<Longrightarrow> inherits n z s \<Longrightarrow> st z s = (None, s') \<Longrightarrow> net z l' s' b = net z l s b"
    and "\<And>s m err s' b. base z s \<Longrightarrow> inherits n z s \<Longrightarrow> st z s = (Some (m, err), s') \<Longrightarrow> net z m s' b = net z l s b"
  shows "stage_ok z st l n l' n'"
  unfolding stage_ok_def
proof (intro allI impI)
  fix s assume b: "base z s \<and> inherits n z s"
  show "case st z s of (None, s') \<Rightarrow> base z s' \<and> inherits n' z s' \<and> (\<forall>b. net z l' s' b = net z l s b)
      | (Some (m, err), s') \<Rightarrow> \<forall>b. net z m s' b = net z l s b"
  proof (cases "st z s")
    case (Pair r s')
    then show ?thesis using b assms by (cases r) auto
  qed
qed

lemma stage_ok_total:
  assumes "\<And>s. fst (st z s) = None"
    and "\<And>s. base z s \<Longrightarrow> base z (snd (st z s))" and "\<And>s. base z s \<Longrightarrow> inherits n z s \<Longrightarrow> inherits n' z (snd (st z s))"
    and "\<And>s b. net z l' (snd (st z s)) b = net z l s b"
  shows "stage_ok z st l n l' n'"
proof (rule stage_okI)
  fix s s' b assume b: "base z s" "inherits n z s" and "st z s = (None, s')"
  then have "s' = snd (st z s)" by simp
  then show "base z s'" "inherits n' z s'" "net z l' s' b = net z l s b" using assms(2-4) b by simp_all
next
  fix s s' m err b assume "st z s = (Some (m, err), s')"
  with assms(1) [of s] show "net z m s' b = net z l s b" by simp
qed

lemma stage_take_ok:
  assumes "fork_law (fc_f z)" and "labels_from l' = l' # labels_from l" and "\<And>s b. owed_at z l' s b = of_bool (b = Ext r (fc_p z))"
  shows "stage_ok z (stage_take r l) l n l' n"
proof -
  have "net z l' (add_ref (Ext r (fc_p z)) s) b = net z l s b" for s b
    by (rule net_step [OF assms(2)]) (simp_all add: assms(3))
  moreover have "stage_take r l z s = (None, add_ref (Ext r (fc_p z)) s) \<or> (\<exists>err. stage_take r l z s = (Some (l, err), s))" for s
    using fork_take [OF assms(1), of r "fc_p z" s] by (auto simp: stage_take_def fails_to_def)
  ultimately show ?thesis by (intro stage_okI) (metis Pair_inject option.inject base_upd(1) inherits_upd(1) option.distinct(1))+
qed

text \<open>A stage that only changes fields of the new task that the labels from \<open>l\<close> on do not read.\<close>

lemma net_fields:
  assumes "ps_refs s' = ps_refs s" and "\<And>m b. m \<in> set (labels_from l) \<Longrightarrow> owed_at z m s' b = owed_at z m s b"
  shows "\<forall>b. net z l s' b = net z l s b"
  using net_same [OF assms(2)] assms(1) by simp

lemma pf_kthread_other:
  "flag_set (w OR PF_IO_WORKER) PF_KTHREAD = flag_set w PF_KTHREAD" "flag_set (w AND NOT PF_NPROC_EXCEEDED) PF_KTHREAD = flag_set w PF_KTHREAD"
  "flag_set (w AND NOT (PF_SUPERPRIV OR PF_WQ_WORKER OR PF_IDLE OR PF_NO_SETAFFINITY) OR PF_FORKNOEXEC) PF_KTHREAD = flag_set w PF_KTHREAD"
proof -
  have kp: "flag_set (w AND v) PF_KTHREAD = flag_set w PF_KTHREAD" if "v AND PF_KTHREAD = PF_KTHREAD" for v
    using that by (simp add: flag_set_def and.assoc)
  show "flag_set (w OR PF_IO_WORKER) PF_KTHREAD = flag_set w PF_KTHREAD"
    by (simp add: flag_set_or_left) (simp add: flag_set_def PF_KTHREAD_def PF_IO_WORKER_def)
  show "flag_set (w AND NOT PF_NPROC_EXCEEDED) PF_KTHREAD = flag_set w PF_KTHREAD"
    by (rule kp) (simp add: PF_KTHREAD_def PF_NPROC_EXCEEDED_def)
  have "flag_set (w AND NOT (PF_SUPERPRIV OR PF_WQ_WORKER OR PF_IDLE OR PF_NO_SETAFFINITY)) PF_KTHREAD = flag_set w PF_KTHREAD"
    by (rule kp) (simp add: PF_KTHREAD_def PF_SUPERPRIV_def PF_WQ_WORKER_def PF_IDLE_def PF_NO_SETAFFINITY_def)
  moreover have "\<not> flag_set PF_FORKNOEXEC PF_KTHREAD" by (simp add: flag_set_def PF_FORKNOEXEC_def PF_KTHREAD_def)
  ultimately show "flag_set (w AND NOT (PF_SUPERPRIV OR PF_WQ_WORKER OR PF_IDLE OR PF_NO_SETAFFINITY) OR PF_FORKNOEXEC) PF_KTHREAD = flag_set w PF_KTHREAD"
    by (simp add: flag_set_or_left)
qed

lemma pf_kthread_clear:
  "flag_set (w AND NOT PF_SUPERPRIV AND NOT PF_WQ_WORKER AND NOT PF_IDLE AND NOT PF_NO_SETAFFINITY OR PF_FORKNOEXEC) PF_KTHREAD =
   flag_set w PF_KTHREAD"
  using pf_kthread_other(3) [of w] by simp

lemma owed_reads:
  assumes "m \<in> {put_pidfd, free_pid} \<Longrightarrow> pr_thread_pid (ps_proc s' (fc_p z)) = pr_thread_pid (ps_proc s (fc_p z))"
    and "m = cleanup_io \<Longrightarrow> pr_io_context (ps_proc s' (fc_p z)) = pr_io_context (ps_proc s (fc_p z))"
    and "m = cleanup_mm \<Longrightarrow> t_mm (tasks (ps_k s') (fc_p z)) = t_mm (tasks (ps_k s) (fc_p z))"
    and "m = cleanup_signal \<Longrightarrow> pr_signal (ps_proc s' (fc_p z)) = pr_signal (ps_proc s (fc_p z))"
    and "m = cleanup_sighand \<Longrightarrow> pr_sighand (ps_proc s' (fc_p z)) = pr_sighand (ps_proc s (fc_p z))"
    and "m = cleanup_fs \<Longrightarrow> pr_fs (ps_proc s' (fc_p z)) = pr_fs (ps_proc s (fc_p z))"
    and "m = cleanup_files \<Longrightarrow> pr_files (ps_proc s' (fc_p z)) = pr_files (ps_proc s (fc_p z))"
    and "m = bad_fork_free \<Longrightarrow> pr_worker_private (ps_proc s' (fc_p z)) = pr_worker_private (ps_proc s (fc_p z))"
    and "m = bad_fork_free \<Longrightarrow> flag_set (t_flags (tasks (ps_k s') (fc_p z))) PF_KTHREAD = flag_set (t_flags (tasks (ps_k s) (fc_p z))) PF_KTHREAD"
  shows "owed_at z m s' b = owed_at z m s b"
  using assms by (cases m) (simp_all add: owed_at_def Let_def the_pid_def)

lemma stage_init_ok: "stage_ok z stage_init bad_fork_free 6 bad_fork_free 6"
proof (rule stage_ok_total)
  fix s b show "net z bad_fork_free (snd (stage_init z s)) b = net z bad_fork_free s b"
    by (rule net_same, rule owed_reads) (simp_all add: stage_init_def rt_mutex_init_task_def Let_def pf_kthread_other)
qed (simp_all add: stage_init_def rt_mutex_init_task_def Let_def base_def inherits_def)

lemma stage_creds_ok:
  assumes "fork_law (fc_f z)"
  shows "stage_ok z stage_creds bad_fork_free n cleanup_count n"
proof -
  have "net z cleanup_count (add_ref (Ext Creds (fc_p z)) (add_ref (Ext Nproc (fc_p z)) s)) b = net z bad_fork_free s b" for s b
    by (rule net_step [OF labels_next(18)]) (simp_all add: owed_at_def)
  moreover have "stage_creds z s = (None, add_ref (Ext Creds (fc_p z)) (add_ref (Ext Nproc (fc_p z)) s)) \<or>
      (\<exists>err. stage_creds z s = (Some (bad_fork_free, err), s))" for s
    using fork_creds [OF assms, of "fc_p z" s] by (auto simp: stage_creds_def fails_to_def)
  ultimately show ?thesis by (intro stage_okI) (metis Pair_inject option.inject base_upd(1) inherits_upd(1) option.distinct(1))+
qed

lemma stage_limits_ok: "stage_ok z stage_limits cleanup_count 6 cleanup_count 6"
proof -
  let ?u = "\<lambda>s. upd_k (upd_task (cur s) (\<lambda>t. t\<lparr>t_flags := t_flags t AND NOT PF_NPROC_EXCEEDED\<rparr>)) s"
  have "net z cleanup_count (?u s) b = net z cleanup_count s b" for s b
    by (rule net_same, rule owed_reads) (simp_all add: pf_kthread_other)
  then show ?thesis by (intro stage_okI) (auto simp: stage_limits_def Let_def split: if_splits)
qed

lemma stage_clear_ok: "stage_ok z stage_clear cleanup_count 6 cleanup_delayacct 5"
proof (rule stage_ok_total)
  fix s b show "net z cleanup_delayacct (snd (stage_clear z s)) b = net z cleanup_count s b"
    by (rule net_step [OF labels_next(17)], rule owed_reads)
      (auto simp: stage_clear_def Let_def pf_kthread_clear labels_next owed_at_def)
qed (simp_all add: stage_clear_def Let_def base_def inherits_def)

lemma stage_kthread_cases:
  assumes "fork_law (fc_f z)"
  shows "stage_kthread z s = (None, s) \<and> \<not> flag_set (t_flags (tasks (ps_k s) (fc_p z))) PF_KTHREAD \<or>
    stage_kthread z s = (Some (cleanup_delayacct, EAGAIN), s) \<or>
    stage_kthread z s = (None, upd_proc (fc_p z) (\<lambda>r. r\<lparr>pr_worker_private := True\<rparr>) (add_ref (Ext Kthread (fc_p z)) s)) \<and>
      flag_set (t_flags (tasks (ps_k s) (fc_p z))) PF_KTHREAD"
  using fork_take [OF assms, of Kthread "fc_p z" s] by (auto simp: stage_kthread_def Let_def)

lemma stage_kthread_ok:
  assumes "fork_law (fc_f z)"
  shows "stage_ok z stage_kthread cleanup_delayacct 5 cleanup_delayacct 4"
proof -
  let ?p = "fc_p z"
  let ?u = "\<lambda>s. upd_proc ?p (\<lambda>r. r\<lparr>pr_worker_private := True\<rparr>) (add_ref (Ext Kthread ?p) s)"
  have "net z cleanup_delayacct (?u s) b = net z cleanup_delayacct s b"
    if "inherits 5 z s" "flag_set (t_flags (tasks (ps_k s) ?p)) PF_KTHREAD" for s b
    using that by (simp add: net_def labels_next owed_at_def inherits_def Let_def)
  moreover have "base z (?u s)" "inherits 4 z (?u s)" if "base z s" "inherits 5 z s" for s
    using that by (auto simp: base_def inherits_def)
  moreover have "inherits 5 z s \<Longrightarrow> inherits 4 z s" for s by (auto simp: inherits_def Let_def)
  ultimately show ?thesis
    by (intro stage_okI; insert stage_kthread_cases [OF assms]) (metis Pair_inject option.distinct(1) option.inject)+
qed

text \<open>The tables: the new task gets the table of its parent or a new one with one reference.\<close>

lemma net_table:
  assumes "labels_from l' = l' # labels_from l" and "\<And>m. m \<in> set (labels_from l) \<Longrightarrow> owed_at z m s' b = owed_at z m s b"
    and "owed_at z l' s' b = of_bool (b = d)" and "ps_refs s' b = ps_refs s b + of_bool (b = d)"
  shows "net z l' s' b = net z l s b"
  using net_step [OF assms(1,2)] assms(3,4) by simp

lemma stage_files_ok:
  assumes "fork_law (fc_f z)"
  shows "stage_ok z stage_files cleanup_semundo 4 cleanup_files 3"
proof (rule stage_okI)
  fix s s' b assume ba: "base z s" and ih: "inherits 4 z s" and eq: "stage_files z s = (None, s')"
  let ?p = "fc_p z"
  show "net z cleanup_files s' b = net z cleanup_semundo s b"
  proof (cases "pr_files (ps_proc s (cur s))")
    case None
    then have "s' = s" "pr_files (ps_proc s ?p) = None" using eq ih by (simp_all add: stage_files_def copy_files_def fails_to_def inherits_def)
    then show ?thesis using net_step [OF labels_next(11), of z s' b s] by (simp add: owed_at_def)
  next
    case (Some n)
    have ip: "pr_files (ps_proc s ?p) = Some n" using ih Some by (simp add: inherits_def)
    show ?thesis
    proof (cases "flag_set (ca_flags (fc_args z)) (CLONE_FILES (fc_g z))")
      case True
      then have "s' = add_ref (Files n) s" using eq Some by (simp add: stage_files_def copy_files_def fails_to_def)
      then show ?thesis using ip by (intro net_table [OF labels_next(11), where d = "Files n"]) (simp_all add: owed_at_def)
    next
      case False
      then obtain m where m: "fk_dup_fd (fc_f z) n s = Inr m" and s': "s' = upd_proc ?p (\<lambda>r. r\<lparr>pr_files := Some m\<rparr>) (set_ref (Files m) 1 s)"
        using eq Some by (auto simp: stage_files_def copy_files_def fails_to_def split: sum.splits)
      have "owed_at z q s' b = owed_at z q s b" if "q \<in> set (labels_from cleanup_semundo)" for q
        by (rule owed_reads) (use that in \<open>auto simp: s' labels_next\<close>)
      then show ?thesis using fork_fresh(3) [OF assms m]
        by (intro net_table [OF labels_next(11), where d = "Files m"]) (simp_all add: owed_at_def s')
    qed
  qed
next
  fix s s' m err b assume "stage_files z s = (Some (m, err), s')"
  then show "net z m s' b = net z cleanup_semundo s b"
    by (auto simp: stage_files_def copy_files_def fails_to_def split: option.splits if_splits sum.splits)
qed (auto simp: stage_files_def copy_files_def fails_to_def base_def inherits_def Let_def split: option.splits if_splits sum.splits)

lemma stage_fs_ok:
  assumes "fork_law (fc_f z)"
  shows "stage_ok z stage_fs cleanup_files 3 cleanup_fs 2"
proof (rule stage_okI)
  fix s s' b assume ba: "base z s" and ih: "inherits 3 z s" and eq: "stage_fs z s = (None, s')"
  let ?p = "fc_p z"
  obtain n where n: "pr_fs (ps_proc s (cur s)) = Some n" using ba by (auto simp: base_def)
  have ip: "pr_fs (ps_proc s ?p) = Some n" using ih n by (simp add: inherits_def)
  show "net z cleanup_fs s' b = net z cleanup_files s b"
  proof (cases "flag_set (ca_flags (fc_args z)) (CLONE_FS (fc_g z))")
    case True
    then have "s' = add_ref (Fs n) s" using eq n by (simp add: stage_fs_def copy_fs_def fails_to_def split: if_splits)
    then show ?thesis using ip by (intro net_table [OF labels_next(10), where d = "Fs n"]) (simp_all add: owed_at_def)
  next
    case False
    then obtain m where m: "fk_copy_fs_struct (fc_f z) n s = Some m" and s': "s' = upd_proc ?p (\<lambda>r. r\<lparr>pr_fs := Some m\<rparr>) (set_ref (Fs m) 1 s)"
      using eq n by (auto simp: stage_fs_def copy_fs_def fails_to_def split: option.splits)
    have "owed_at z q s' b = owed_at z q s b" if "q \<in> set (labels_from cleanup_files)" for q
      by (rule owed_reads) (use that in \<open>auto simp: s' labels_next\<close>)
    then show ?thesis using fork_fresh(2) [OF assms m]
      by (intro net_table [OF labels_next(10), where d = "Fs m"]) (simp_all add: owed_at_def s')
  qed
next
  fix s s' m err b assume eq: "stage_fs z s = (Some (m, err), s')"
  then have m: "m = cleanup_files" and s': "s' = s \<or> s' = upd_proc (fc_p z) (\<lambda>r. r\<lparr>pr_fs := None\<rparr>) s"
    by (auto simp: stage_fs_def copy_fs_def fails_to_def Let_def split: option.splits if_splits)
  have "net z cleanup_files (upd_proc (fc_p z) (\<lambda>r. r\<lparr>pr_fs := None\<rparr>) s) b = net z cleanup_files s b"
    by (rule net_same, rule owed_reads) (auto simp: labels_next)
  then show "net z m s' b = net z cleanup_files s b" using m s' by auto
qed (auto simp: stage_fs_def copy_fs_def fails_to_def base_def inherits_def Let_def split: option.splits if_splits)

lemma stage_sighand_ok:
  assumes "fork_law (fc_f z)"
  shows "stage_ok z stage_sighand cleanup_fs 2 cleanup_sighand 1"
proof (rule stage_okI)
  fix s s' b assume ba: "base z s" and ih: "inherits 2 z s" and eq: "stage_sighand z s = (None, s')"
  let ?p = "fc_p z"
  obtain n where n: "pr_sighand (ps_proc s (cur s)) = Some n" using ba by (auto simp: base_def)
  have ip: "pr_sighand (ps_proc s ?p) = Some n" using ih n by (simp add: inherits_def)
  show "net z cleanup_sighand s' b = net z cleanup_fs s b"
  proof (cases "flag_set (ca_flags (fc_args z)) (CLONE_SIGHAND (fc_g z))")
    case True
    then have "s' = add_ref (Sighand n) s" using eq n by (simp add: stage_sighand_def copy_sighand_def fails_to_def)
    then show ?thesis using ip by (intro net_table [OF labels_next(9), where d = "Sighand n"]) (simp_all add: owed_at_def)
  next
    case False
    then obtain m where m: "fk_alloc_sighand (fc_f z) s = Some m"
      and s': "s' = set_ref (Sighand m) 1 (upd_proc ?p (\<lambda>r. r\<lparr>pr_sighand := Some m\<rparr>) s)"
      using eq by (auto simp: stage_sighand_def copy_sighand_def fails_to_def Let_def split: option.splits)
    have "owed_at z q s' b = owed_at z q s b" if "q \<in> set (labels_from cleanup_fs)" for q
      by (rule owed_reads) (use that in \<open>auto simp: s' labels_next\<close>)
    then show ?thesis using fork_fresh(4) [OF assms m]
      by (intro net_table [OF labels_next(9), where d = "Sighand m"]) (simp_all add: owed_at_def s')
  qed
next
  fix s s' m err b assume eq: "stage_sighand z s = (Some (m, err), s')"
  then have m: "m = cleanup_fs" and s': "s' = upd_proc (fc_p z) (\<lambda>r. r\<lparr>pr_sighand := None\<rparr>) s"
    by (auto simp: stage_sighand_def copy_sighand_def fails_to_def Let_def split: option.splits if_splits)
  have "net z cleanup_fs s' b = net z cleanup_fs s b"
    unfolding s' by (rule net_same, rule owed_reads) (auto simp: labels_next)
  then show "net z m s' b = net z cleanup_fs s b" using m by simp
qed (auto simp: stage_sighand_def copy_sighand_def fails_to_def base_def inherits_def Let_def split: option.splits if_splits)

lemma stage_signal_ok:
  assumes "fork_law (fc_f z)"
  shows "stage_ok z stage_signal cleanup_sighand 1 cleanup_signal 1"
proof (rule stage_okI)
  fix s s' b assume eq: "stage_signal z s = (None, s')"
  let ?p = "fc_p z"
  show "net z cleanup_signal s' b = net z cleanup_sighand s b"
  proof (cases "flag_set (ca_flags (fc_args z)) (CLONE_THREAD (fc_g z))")
    case True
    then have "s' = s" using eq by (simp add: stage_signal_def copy_signal_def fails_to_def)
    then show ?thesis using True by (intro net_step [OF labels_next(8)]) (simp_all add: owed_at_def has_def)
  next
    case False
    then obtain m w where
      s': "s' = add_ref (Autogroup m) (upd_sig m w (add_ref (Signal m) (upd_proc ?p (\<lambda>r. r\<lparr>pr_signal := Some m\<rparr>) s)))"
      using eq by (auto simp: stage_signal_def copy_signal_def fails_to_def Let_def fork_give [OF assms] split: option.splits)
    have "owed_at z q s' b = owed_at z q s b" if "q \<in> set (labels_from cleanup_sighand)" for q
      by (rule owed_reads) (use that in \<open>auto simp: s' labels_next\<close>)
    then show ?thesis using False by (intro net_step [OF labels_next(8)]) (simp_all add: owed_at_def s' has_def)
  qed
next
  fix s s' m err b assume eq: "stage_signal z s = (Some (m, err), s')"
  then have m: "m = cleanup_sighand" and s': "s' = upd_proc (fc_p z) (\<lambda>r. r\<lparr>pr_signal := None\<rparr>) s"
    by (auto simp: stage_signal_def copy_signal_def fails_to_def Let_def split: option.splits if_splits)
  have "net z cleanup_sighand s' b = net z cleanup_sighand s b"
    unfolding s' by (rule net_same, rule owed_reads) (auto simp: labels_next)
  then show "net z m s' b = net z cleanup_sighand s b" using m by simp
qed (auto simp: stage_signal_def copy_signal_def fails_to_def base_def inherits_def Let_def fork_give [OF assms] split: option.splits if_splits)

text \<open>A new address space has one user or is gone.\<close>

definition mm_effect :: "nat option \<Rightarrow> pstate \<Rightarrow> pstate \<Rightarrow> bool" where
  "mm_effect m s s' \<longleftrightarrow> (\<forall>b. ps_refs s' b = ps_refs s b + of_bool (Some b = map_option Mm m)) \<and> ps_proc s' = ps_proc s \<and>
     tasks (ps_k s') = tasks (ps_k s) \<and> cur s' = cur s"

lemma dup_mm_effect:
  assumes "fork_law f"
  shows "case dup_mm f m s of (r, s') \<Rightarrow> mm_effect r s s'"
proof (cases "fk_allocate_mm f s")
  case None
  then show ?thesis by (simp add: dup_mm_def mm_effect_def)
next
  case (Some a)
  have fr: "ps_refs s (Mm a) = 0" by (rule fork_fresh(5) [OF assms Some])
  obtain r s1 where mi: "mm_init f a s = (r, s1)" by (cases "mm_init f a s") auto
  have r: "r \<in> {None, Some a}" using mi by (auto simp: mm_init_def Let_def split: if_splits)
  have "mm_effect r s s1"
    using mi fr by (auto simp: mm_effect_def mm_init_def Let_def free_mm_def upd_mm_count_def cur_def current_def split: if_splits)
  then show ?thesis using r by (cases r) (auto simp: dup_mm_def Some mi mm_effect_def)
qed

lemma stage_mm_cases:
  assumes "fork_law (fc_f z)" and "base z s" and "stage_mm z s = (r, s')"
  shows "ps_proc s' = ps_proc s \<and> cur s' = cur s \<and> t_flags (tasks (ps_k s') (fc_p z)) = t_flags (tasks (ps_k s) (fc_p z)) \<and>
    (case r of None \<Rightarrow> \<forall>b. ps_refs s' b = ps_refs s b + of_bool (Some b = map_option Mm (t_mm (tasks (ps_k s') (fc_p z))))
     | Some (m, err) \<Rightarrow> m = cleanup_signal \<and> ps_refs s' = ps_refs s)"
proof -
  let ?p = "fc_p z"
  define s1 where "s1 = upd_k (upd_task ?p (\<lambda>t. t\<lparr>t_mm := None, t_active_mm := None\<rparr>)) (upd_k (upd_task ?p (\<lambda>t. t\<lparr>t_nvcsw := 0, t_nivcsw := 0\<rparr>)) s)"
  have s1: "ps_proc s1 = ps_proc s" "cur s1 = cur s" "t_flags (tasks (ps_k s1) ?p) = t_flags (tasks (ps_k s) ?p)" "ps_refs s1 = ps_refs s"
    "t_mm (tasks (ps_k s1) ?p) = None"
    by (simp_all add: s1_def)
  show ?thesis
  proof (cases "t_mm (tasks (ps_k s1) (cur s1))")
    case None
    then have "s' = s1" "r = None" using assms(3) unfolding stage_mm_def copy_mm_def Let_def s1_def [symmetric] by (simp_all add: fails_to_def)
    then show ?thesis using s1 by simp
  next
    case (Some old)
    obtain q s2 where q: "(if flag_set (ca_flags (fc_args z)) (CLONE_VM (fc_g z)) then (Some old, mmget old s1) else dup_mm (fc_f z) old s1) = (q, s2)"
      by (cases "if flag_set (ca_flags (fc_args z)) (CLONE_VM (fc_g z)) then (Some old, mmget old s1) else dup_mm (fc_f z) old s1") auto
    have e: "mm_effect q s1 s2"
      using q dup_mm_effect [OF assms(1), where m = old and s = s1] by (auto simp: mm_effect_def mmget_def split: if_splits)
    have "(r, s') = (case q of None \<Rightarrow> (Some (cleanup_signal, ENOMEM), s2)
        | Some m \<Rightarrow> (None, upd_k (upd_task ?p (\<lambda>t. t\<lparr>t_mm := Some m, t_active_mm := Some m\<rparr>)) s2))"
      using assms(3) unfolding stage_mm_def copy_mm_def Let_def s1_def [symmetric] Some option.case q
      by (cases q) (simp_all add: fails_to_def)
    then show ?thesis using e s1 by (cases q) (auto simp: mm_effect_def)
  qed
qed

lemma stage_mm_ok:
  assumes "fork_law (fc_f z)"
  shows "stage_ok z stage_mm cleanup_signal 1 cleanup_mm 1"
proof -
  have fl: "owed_at z q s' b = owed_at z q s b"
    if "q \<in> set (labels_from cleanup_signal)" "base z s" "stage_mm z s = (r, s')" for q s s' b r
    by (rule owed_reads) (use that stage_mm_cases [OF assms that(2,3)] in \<open>auto simp: labels_next\<close>)
  show ?thesis
  proof (rule stage_okI)
    fix s s' b assume ba: "base z s" and eq: "stage_mm z s = (None, s')"
    show "net z cleanup_mm s' b = net z cleanup_signal s b"
      by (rule net_step [OF labels_next(7) fl [OF _ ba eq]]) (use stage_mm_cases [OF assms ba eq] in \<open>simp_all add: owed_at_def\<close>)
  next
    fix s s' m err b assume ba: "base z s" and eq: "stage_mm z s = (Some (m, err), s')"
    have "net z cleanup_signal s' b = net z cleanup_signal s b"
      by (rule net_same [OF fl [OF _ ba eq]]) (use stage_mm_cases [OF assms ba eq] in simp_all)
    then show "net z m s' b = net z cleanup_signal s b" using stage_mm_cases [OF assms ba eq] by simp
  next
    fix s s' assume "base z s" and "stage_mm z s = (None, s')"
    from stage_mm_cases [OF assms this] this(1) show "base z s'" by (simp add: base_def)
  next
    fix s s' assume "base z s" and "stage_mm z s = (None, s')" and "inherits 1 z s"
    from stage_mm_cases [OF assms this(1,2)] this(3) show "inherits 1 z s'" by (simp add: inherits_def)
  qed
qed

text \<open>The scheduler's part changes only the new task, and not its flags.\<close>

lemma sched_fork_keeps:
  assumes "fork_sched_law x" and "sched_fork e x p k = (r, k')"
  shows "(\<forall>q. q \<noteq> p \<longrightarrow> tasks k' q = tasks k q) \<and> rqs k' = rqs k \<and> this_cpu k' = this_cpu k \<and> t_flags (tasks k' p) = t_flags (tasks k p) \<and>
    kfix k' = kfix k \<and> t_cpus_ptr (tasks k' p) = t_cpus_ptr (tasks k p) \<and> t_migration_disabled (tasks k' p) = t_migration_disabled (tasks k p)"
proof -
  define t0 where "t0 = uclamp_fork e ((k__sched_fork x (tasks k p))\<lparr>t_state := TASK_NEW, t_prio := t_normal_prio (tasks k (current k))\<rparr>)"
  define t1 where "t1 = (if t_sched_reset_on_fork t0 then fork_reset e x t0 else t0)"
  have fl: "t_flags t1 = t_flags (tasks k p)" "t_cpus_ptr t1 = t_cpus_ptr (tasks k p)" "t_migration_disabled t1 = t_migration_disabled (tasks k p)"
    by (simp_all add: t1_def t0_def fork_reset_def set_load_weight_def Let_def sched_fork_init_sel [OF assms(1)])
  have "k' = upd_task p (\<lambda>_. t1) k \<or> k' = upd_task p (\<lambda>_. t1\<lparr>t_sched_class := rt_sched_class, t_on_cpu := False\<rparr>) k \<or>
      k' = upd_task p (\<lambda>_. t1\<lparr>t_sched_class := fair_sched_class, t_on_cpu := False\<rparr>) k"
    using assms(2) unfolding sched_fork_def Let_def
    by (auto simp: t0_def [symmetric] t1_def split: if_splits)
  then show ?thesis using fl by (auto simp: upd_task_def kfix_def)
qed

lemma stage_sched_ok:
  assumes "fork_sched_law (fc_x z)"
  shows "stage_ok z stage_sched cleanup_policy 4 cleanup_policy 4"
proof -
  have st: "ps_refs s' = ps_refs s \<and> ps_proc s' = ps_proc s \<and> cur s' = cur s \<and> t_flags (tasks (ps_k s') (fc_p z)) = t_flags (tasks (ps_k s) (fc_p z)) \<and>
      (\<forall>m err. r = Some (m, err) \<longrightarrow> m = cleanup_policy)"
    if "stage_sched z s = (r, s')" for s r s'
  proof -
    obtain a k where a: "sched_fork (fc_e z) (fc_x z) (fc_p z) (ps_k s) = (a, k)" by (cases "sched_fork (fc_e z) (fc_x z) (fc_p z) (ps_k s)") auto
    then have s': "s' = s\<lparr>ps_k := k\<rparr>" "r = map_option (Pair cleanup_policy) a" using that by (simp_all add: stage_sched_def fails_to_def)
    show ?thesis using sched_fork_keeps [OF assms a] by (auto simp: s' cur_def current_def)
  qed
  have nt: "net z cleanup_policy s' b = net z cleanup_policy s b" if "stage_sched z s = (r, s')" for s r s' b
    by (rule net_same, rule owed_reads) (use st [OF that] in \<open>auto simp: labels_next\<close>)
  show ?thesis
  proof (rule stage_okI)
    fix s s' m err b assume a: "stage_sched z s = (Some (m, err), s')"
    then show "net z m s' b = net z cleanup_policy s b" using st [OF a] nt [OF a] by simp
  next
    fix s s' assume a: "stage_sched z s = (None, s')" and "base z s"
    then show "base z s'" using st [OF a] by (simp add: base_def)
  next
    fix s s' assume a: "stage_sched z s = (None, s')" and "inherits 4 z s"
    then show "inherits 4 z s'" using st [OF a] by (simp add: inherits_def)
  qed (rule nt)
qed

lemma stage_io_ok:
  assumes "fork_law (fc_f z)"
  shows "stage_ok z stage_io cleanup_namespaces 1 cleanup_io 0"
proof -
  let ?u = "\<lambda>s. upd_proc (fc_p z) (\<lambda>r. r\<lparr>pr_io_context := True\<rparr>) (add_ref (Ext Io (fc_p z)) s)"
  have c: "stage_io z s = (None, s) \<or> (\<exists>err. stage_io z s = (Some (cleanup_namespaces, err), s)) \<or> stage_io z s = (None, ?u s)" for s
    using fork_io [OF assms, of "fc_p z" s] by (auto simp: stage_io_def fails_to_def)
  have n: "net z cleanup_io s b = net z cleanup_namespaces s b" if "inherits 1 z s" for s b
    using that by (intro net_step [OF labels_next(5)]) (simp_all add: owed_at_def inherits_def)
  have "owed_at z q (?u s) b = owed_at z q s b" if "q \<in> set (labels_from cleanup_namespaces)" for q s b
    by (rule owed_reads) (use that in \<open>auto simp: labels_next\<close>)
  then have u: "net z cleanup_io (?u s) b = net z cleanup_namespaces s b" for s b
    by (intro net_step [OF labels_next(5)]) (simp_all add: owed_at_def)
  show ?thesis
  proof (rule stage_okI)
    fix s s' b assume "inherits 1 z s" "stage_io z s = (None, s')"
    then show "net z cleanup_io s' b = net z cleanup_namespaces s b" using c [of s] n u by auto
  next
    fix s s' m err b assume "stage_io z s = (Some (m, err), s')"
    then show "net z m s' b = net z cleanup_namespaces s b" using c [of s] by auto
  next
    fix s s' assume "base z s" "stage_io z s = (None, s')"
    then show "base z s'" using c [of s] by (auto simp: base_def)
  qed (simp add: inherits_def)
qed

lemma stage_pid_ok:
  assumes "fork_law (fc_f z)"
  shows "stage_ok z stage_pid cleanup_thread 0 free_pid 0"
proof (rule stage_okI)
  fix s s' b assume eq: "stage_pid z s = (None, s')"
  show "net z free_pid s' b = net z cleanup_thread s b"
  proof (cases "fc_init_pid z")
    case True
    then show ?thesis using eq by (intro net_step [OF labels_next(3)]) (simp_all add: stage_pid_def owed_at_def)
  next
    case False
    then obtain n where n: "fk_alloc_pid (fc_f z) s = Inr n" and s': "s' = upd_proc (fc_p z) (\<lambda>r. r\<lparr>pr_thread_pid := Some n\<rparr>) (set_ref (Pid n) 1 s)"
      using eq by (auto simp: stage_pid_def split: sum.splits)
    have "owed_at z q s' b = owed_at z q s b" if "q \<in> set (labels_from cleanup_thread)" for q
      by (rule owed_reads) (use that in \<open>auto simp: s' labels_next\<close>)
    then show ?thesis using fork_fresh(6) [OF assms n] False
      by (intro net_table [OF labels_next(3), where d = "Pid n"]) (simp_all add: owed_at_def s' the_pid_def)
  qed
next
  fix s s' m err b assume "stage_pid z s = (Some (m, err), s')"
  then show "net z m s' b = net z cleanup_thread s b" by (auto simp: stage_pid_def split: if_splits sum.splits)
qed (auto simp: stage_pid_def base_def inherits_def split: if_splits sum.splits)

lemma stage_pidfd_ok:
  assumes "fork_law (fc_f z)"
  shows "stage_ok z stage_pidfd free_pid 0 put_pidfd 0"
proof -
  let ?p = "fc_p z"
  let ?u = "\<lambda>s. add_ref (Pid (the_pid z s)) (add_ref (Ext Pidfile ?p) (add_ref (Ext Fd ?p) s))"
  have c: "stage_pidfd z s = (None, s) \<and> \<not> has z CLONE_PIDFD \<or> (\<exists>err. stage_pidfd z s = (Some (free_pid, err), s)) \<or>
      (\<exists>err. stage_pidfd z s = (Some (free_pid, err), sub_ref (Ext Fd ?p) (add_ref (Ext Fd ?p) s))) \<or>
      (\<exists>err. stage_pidfd z s = (Some (put_pidfd, err), ?u s)) \<and> has z CLONE_PIDFD \<or> stage_pidfd z s = (None, ?u s) \<and> has z CLONE_PIDFD" for s
    using fork_take [OF assms, of Fd ?p s] fork_take [OF assms, of Pidfile ?p "add_ref (Ext Fd ?p) s"]
    by (cases "has z CLONE_PIDFD"; cases "fk_put_user (fc_f z) (ca_pidfd (fc_args z)) (?u s)")
      (auto simp: stage_pidfd_def fails_to_def fork_give [OF assms] the_pid_def Let_def)
  have u: "net z put_pidfd (?u s) b = net z free_pid s b" if "has z CLONE_PIDFD" for s b
    using that by (intro net_step [OF labels_next(2)]) (simp_all add: owed_at_def the_pid_def)
  have n: "net z put_pidfd s b = net z free_pid s b" if "\<not> has z CLONE_PIDFD" for s b
    using that by (intro net_step [OF labels_next(2)]) (simp_all add: owed_at_def)
  have g: "net z free_pid (sub_ref (Ext Fd ?p) (add_ref (Ext Fd ?p) s)) b = net z free_pid s b" for s b
    by (intro net_same) simp_all
  show ?thesis
  proof (rule stage_okI)
    fix s s' b assume "stage_pidfd z s = (None, s')"
    then show "net z put_pidfd s' b = net z free_pid s b" using c [of s] u n by auto
  next
    fix s m err s' b assume "stage_pidfd z s = (Some (m, err), s')"
    then show "net z m s' b = net z free_pid s b" using c [of s] u g by auto
  next
    fix s s' assume "base z s" "stage_pidfd z s = (None, s')"
    then show "base z s'" using c [of s] by auto
  qed (simp add: inherits_def)
qed

lemma stage_ids_ok: "stage_ok z stage_ids put_pidfd 0 put_pidfd 0"
proof (rule stage_ok_total)
  fix s b show "net z put_pidfd (snd (stage_ids z s)) b = net z put_pidfd s b"
    by (rule net_same, rule owed_reads) (simp_all add: stage_ids_def Let_def)
qed (simp_all add: stage_ids_def Let_def base_def inherits_def)

subsection \<open>The whole sequence\<close>

lemma stage_ok_Nil: "stage_ok z (run_stages []) l n l n"
  by (simp add: stage_ok_def)

lemma stage_ok_Cons:
  assumes "stage_ok z st l n l1 n1" and "stage_ok z (run_stages sts) l1 n1 l' n'"
  shows "stage_ok z (run_stages (st # sts)) l n l' n'"
  unfolding stage_ok_def
proof (intro allI impI)
  fix s assume s: "base z s \<and> inherits n z s"
  show "case run_stages (st # sts) z s of (None, s') \<Rightarrow> base z s' \<and> inherits n' z s' \<and> (\<forall>b. net z l' s' b = net z l s b)
      | (Some (m, err), s') \<Rightarrow> \<forall>b. net z m s' b = net z l s b"
  proof (cases "st z s")
    case (Pair r s1)
    show ?thesis
    proof (cases r)
      case None
      then have b: "base z s1 \<and> inherits n1 z s1" and e: "net z l s = net z l1 s1"
        using assms(1) s Pair by (auto simp: stage_ok_def fun_eq_iff)
      show ?thesis unfolding e using assms(2) [unfolded stage_ok_def, rule_format, OF b] by (simp add: Pair None)
    next
      case (Some a)
      then show ?thesis using assms(1) s Pair by (cases a) (auto simp: stage_ok_def)
    qed
  qed
qed

text \<open>Each stage from the label that the stage before it moved to.\<close>

lemma fork_stages_ok:
  assumes "fork_law (fc_f z)" and "fork_sched_law (fc_x z)"
  shows "stage_ok z (run_stages (map fst fork_stages)) bad_fork_free 6 put_pidfd 0"
proof -
  have ext: "stage_ok z (stage_take Mempolicy cleanup_delayacct) cleanup_delayacct n cleanup_policy n"
    "stage_ok z (stage_take Perf cleanup_policy) cleanup_policy n cleanup_perf n"
    "stage_ok z (stage_take Audit cleanup_perf) cleanup_perf n cleanup_audit n"
    "stage_ok z (stage_take Security cleanup_audit) cleanup_audit n cleanup_security n"
    "stage_ok z (stage_take Semundo cleanup_security) cleanup_security n cleanup_semundo n"
    "stage_ok z (stage_take Namespaces cleanup_mm) cleanup_mm n cleanup_namespaces n"
    "stage_ok z (stage_take Thread cleanup_io) cleanup_io n cleanup_thread n" for n
    by (rule stage_take_ok [OF assms(1)]; simp add: labels_next owed_at_def)+
  note lawful = stage_creds_ok stage_files_ok stage_fs_ok stage_sighand_ok stage_signal_ok stage_mm_ok stage_io_ok stage_pid_ok stage_pidfd_ok
  show ?thesis unfolding fork_stages_def list.map fst_conv
    by (rule stage_ok_Cons stage_ok_Nil stage_init_ok stage_limits_ok stage_clear_ok stage_ids_ok ext stage_kthread_ok [OF assms(1)]
      lawful [OF assms(1)] stage_sched_ok [OF assms(2)])+
qed

text \<open>
  After \<^verbatim>\<open>cgroup_can_fork\<close> the stages go to one label.  The reference of \<^verbatim>\<open>copy_seccomp\<close> is not among what that label
  gives back.
\<close>

definition filter_of :: "pstate \<Rightarrow> tid \<Rightarrow> robj \<Rightarrow> int" where
  "filter_of s q b = of_bool (Some b = map_option Filter (pr_seccomp (ps_proc s q)))"

lemma net_shift:
  assumes "\<And>m. m \<in> set (labels_from l) \<Longrightarrow> owed_at z m s' b = owed_at z m s b"
  shows "net z l s' b = net z l s b + (ps_refs s' b - ps_refs s b)"
proof -
  have "(\<Sum>m\<leftarrow>labels_from l. owed_at z m s' b) = (\<Sum>m\<leftarrow>labels_from l. owed_at z m s b)"
    using assms by (intro arg_cong [where f = sum_list] map_cong refl)
  then show ?thesis by (simp add: net_def)
qed

lemma cgroup_fork_keeps:
  fixes k :: kernel and p :: tid and tg :: nat
  assumes "fork_sched_law x"
  defines "k' \<equiv> sched_cgroup_fork x tg p k"
  shows "q \<noteq> p \<Longrightarrow> task_params (tasks k' q) = task_params (tasks k q)" "current k' = current k" "kfix k' = kfix k"
    "task_params (tasks k' p) = task_params ((tasks k p)\<lparr>t_sched_task_group := tg, t_cpu := this_cpu k, t_wake_cpu := this_cpu k\<rparr>)"
proof -
  let ?k1 = "k__set_task_cpu p (this_cpu k) (upd_task p (\<lambda>t. t\<lparr>t_sched_task_group := tg\<rparr>) k)"
  have "params_same ?k1 k'"
  proof (cases "op_task_fork x (t_sched_class (tasks ?k1 p))")
    case None
    then show ?thesis by (simp add: k'_def sched_cgroup_fork_def Let_def upd_task_def)
  next
    case (Some h)
    then have "sched_frame ?k1 (h p ?k1)" using assms(1) unfolding fork_sched_law_def by blast
    then show ?thesis using Some by (simp add: k'_def sched_cgroup_fork_def Let_def upd_task_def sched_frame_params)
  qed
  then show "q \<noteq> p \<Longrightarrow> task_params (tasks k' q) = task_params (tasks k q)" "current k' = current k" "kfix k' = kfix k"
    "task_params (tasks k' p) = task_params ((tasks k p)\<lparr>t_sched_task_group := tg, t_cpu := this_cpu k, t_wake_cpu := this_cpu k\<rparr>)"
    by (simp_all add: params_same_def k__set_task_cpu_def upd_task_def current_def kfix_def)
qed

lemma late_mid_net:
  assumes "fork_sched_law (fc_x z)" and "fc_p z \<noteq> cur s"
  defines "s' \<equiv> snd (stage_parent z (snd (stage_cgroup_fork z s)))"
  shows "m \<in> set (labels_from put_pidfd) \<Longrightarrow> owed_at z m s' b = owed_at z m s b" "ps_refs s' = ps_refs s" "cur s' = cur s"
    "q \<noteq> fc_p z \<Longrightarrow> ps_proc s' q = ps_proc s q"
proof -
  note k = cgroup_fork_keeps [OF assms(1)]
  have "t_mm (tasks (ps_k s') (fc_p z)) = t_mm (tasks (ps_k s) (fc_p z)) \<and> t_flags (tasks (ps_k s') (fc_p z)) = t_flags (tasks (ps_k s) (fc_p z))"
    using task_params_sel2(12) [OF k(4)] task_params_sel2(7) [OF k(4)]
    by (simp add: s'_def stage_parent_def stage_cgroup_fork_def Let_def)
  then show "m \<in> set (labels_from put_pidfd) \<Longrightarrow> owed_at z m s' b = owed_at z m s b"
    by (intro owed_reads) (simp_all add: s'_def stage_parent_def stage_cgroup_fork_def Let_def)
  show "ps_refs s' = ps_refs s" "cur s' = cur s" "q \<noteq> fc_p z \<Longrightarrow> ps_proc s' q = ps_proc s q"
    using k(2) by (simp_all add: s'_def stage_parent_def stage_cgroup_fork_def Let_def cur_def)
qed

text \<open>The state that the late stages reach if there is place in the cgroup.\<close>

definition late_state :: "fctx \<Rightarrow> pstate \<Rightarrow> pstate" where
  "late_state z s = copy_seccomp (fc_p z) (add_ref (Ext Core_cookie (fc_p z))
     (snd (stage_parent z (snd (stage_cgroup_fork z (add_ref (Ext Cgroup (fc_p z)) s))))))"

lemma run_late_ends:
  assumes "fork_law (fc_f z)" and "fst (fk_take (fc_f z) Cgroup (fc_p z) s) = None"
  shows "run_stages late_stages z s = stage_late z (late_state z s)"
proof -
  have total: "fst (stage_cgroup_fork z s) = None" "fst (stage_parent z s) = None"
    "stage_core z s = (None, add_ref (Ext Core_cookie (fc_p z)) s)" "stage_seccomp z s = (None, copy_seccomp (fc_p z) s)" for s
    by (simp_all add: stage_cgroup_fork_def stage_parent_def Let_def stage_core_def stage_seccomp_def fork_give [OF assms(1)])
  have go: "run_stages (st # sts) z s = run_stages sts z (snd (st z s))" if "fst (st z s) = None" for st sts s
    using that by (cases "st z s") simp
  have t: "fk_take (fc_f z) Cgroup (fc_p z) s = (None, add_ref (Ext Cgroup (fc_p z)) s)"
    using fork_take [OF assms(1), of Cgroup "fc_p z" s] assms(2) by auto
  have "run_stages [stage_late] z u = stage_late z u" for u by (simp add: stage_late_def)
  then show ?thesis unfolding late_stages_def
    by (simp del: run_stages.simps(2) add: go total stage_take_def fails_to_def t late_state_def)
qed

lemma run_late:
  assumes "fork_law (fc_f z)" and "run_stages late_stages z s = (r, s')"
  shows "(\<exists>err. r = Some (put_pidfd, err)) \<and> s' = s \<or> (r = None \<or> (\<exists>err. r = Some (cancel_cgroup, err))) \<and> s' = late_state z s"
proof (cases "fst (fk_take (fc_f z) Cgroup (fc_p z) s)")
  case None
  from run_late_ends [OF assms(1) this] show ?thesis using assms(2) by (auto simp: stage_late_def split: if_splits)
next
  case (Some err)
  then have "fk_take (fc_f z) Cgroup (fc_p z) s = (Some err, s)" using fork_take [OF assms(1), of Cgroup "fc_p z" s] by auto
  then show ?thesis using assms(2) by (auto simp: late_stages_def stage_take_def fails_to_def)
qed

lemma late_net:
  assumes "fork_sched_law (fc_x z)" and "fc_p z \<noteq> cur s"
  shows "net z cancel_cgroup (late_state z s) b = net z put_pidfd s b + filter_of s (cur s) b"
proof -
  let ?s1 = "add_ref (Ext Cgroup (fc_p z)) s"
  let ?s2 = "add_ref (Ext Core_cookie (fc_p z)) (snd (stage_parent z (snd (stage_cgroup_fork z ?s1))))"
  have c: "fc_p z \<noteq> cur ?s1" using assms(2) by simp
  note mid = late_mid_net [OF assms(1) c]
  have own: "owed_at z cancel_cgroup u b = of_bool (b = Ext Cgroup (fc_p z)) + of_bool (b = Ext Core_cookie (fc_p z))" for u
    by (simp add: owed_at_def)
  have "net z cancel_cgroup ?s2 b = net z put_pidfd s b"
    by (rule net_step [OF labels_next(1)]) (simp_all only: own owed_upd mid(1), simp add: mid(2))
  moreover have "net z cancel_cgroup (copy_seccomp (fc_p z) ?s2) b =
      net z cancel_cgroup ?s2 b + (ps_refs (copy_seccomp (fc_p z) ?s2) b - ps_refs ?s2 b)"
    by (rule net_shift, rule owed_reads) (simp_all add: copy_seccomp_def Let_def split: option.split)
  moreover have "ps_refs (copy_seccomp (fc_p z) ?s2) b - ps_refs ?s2 b = filter_of s (cur s) b"
    using assms(2) by (auto simp: copy_seccomp_def Let_def mid(3) mid(4) [OF not_sym [OF assms(2)]] filter_of_def split: option.split)
  ultimately show ?thesis by (simp add: late_state_def)
qed

subsection \<open>Other tasks\<close>

text \<open>
  What \<^verbatim>\<open>copy_process\<close> leaves of the other tasks: the scheduling parameters, all flags but \<^verbatim>\<open>PF_NPROC_EXCEEDED\<close>, the
  tables; and the system's counts of tasks and masks of CPUs.
\<close>

definition settled :: "task_struct \<Rightarrow> task_struct" where
  "settled t = (task_params t)\<lparr>t_flags := t_flags t AND NOT PF_NPROC_EXCEEDED\<rparr>"

lemma settled_params:
  assumes "task_params t = task_params t'"
  shows "settled t = settled t'"
  unfolding settled_def assms task_params_sel2(7) [OF assms] ..

definition task_counts :: "pstate \<Rightarrow> int \<times> int \<times> nat \<times> (cpu \<Rightarrow> int) \<times> tid list" where
  "task_counts s = (nr_threads s, max_threads s, total_forks s, process_counts s, ps_processes s)"

definition cpus_of :: "pstate \<Rightarrow> cpu list \<times> cpu set \<times> cpu set" where
  "cpus_of s = (possible_cpus (ps_k s), cpu_online_mask (ps_k s), cpu_active_mask (ps_k s))"

definition bystander :: "tid \<Rightarrow> pstate \<Rightarrow> pstate \<Rightarrow> bool" where
  "bystander p s s' \<longleftrightarrow> cur s' = cur s \<and> task_counts s' = task_counts s \<and> cpus_of s' = cpus_of s \<and>
     (\<forall>q. q \<noteq> p \<longrightarrow> ps_proc s' q = ps_proc s q \<and> settled (tasks (ps_k s') q) = settled (tasks (ps_k s) q))"

lemma bystander_refl [simp]: "bystander p s s"
  by (simp add: bystander_def)

lemma bystander_trans: "bystander p s s' \<Longrightarrow> bystander p s' s'' \<Longrightarrow> bystander p s s''"
  by (simp add: bystander_def)

lemma task_counts_upd [simp]:
  "task_counts (add_ref b s) = task_counts s" "task_counts (sub_ref b s) = task_counts s" "task_counts (set_ref b n s) = task_counts s"
  "task_counts (upd_proc p h s) = task_counts s" "task_counts (upd_sig i w s) = task_counts s" "task_counts (upd_k u s) = task_counts s"
  by (simp_all add: task_counts_def add_ref_def sub_ref_def set_ref_def upd_proc_def upd_sig_def upd_k_def)

lemma cpus_of_upd [simp]:
  "cpus_of (add_ref b s) = cpus_of s" "cpus_of (sub_ref b s) = cpus_of s" "cpus_of (set_ref b n s) = cpus_of s"
  "cpus_of (upd_proc p h s) = cpus_of s" "cpus_of (upd_sig i w s) = cpus_of s" "cpus_of (upd_k (upd_task q v) s) = cpus_of s"
  "cpus_of (upd_mm_count m u s) = cpus_of s"
  by (simp_all add: cpus_of_def upd_mm_count_def upd_task_def)

lemma mm_count_upd [simp]:
  "ps_proc (upd_mm_count m h s) = ps_proc s" "tasks (ps_k (upd_mm_count m h s)) = tasks (ps_k s)" "cur (upd_mm_count m h s) = cur s"
  "task_counts (upd_mm_count m h s) = task_counts s"
  by (simp_all add: upd_mm_count_def cur_def current_def)

lemma bystander_upd [simp]:
  "bystander p s (add_ref b t) = bystander p s t" "bystander p s (sub_ref b t) = bystander p s t" "bystander p s (set_ref b n t) = bystander p s t"
  "bystander p s (upd_sig i w t) = bystander p s t" "bystander p s (upd_mm_count m h t) = bystander p s t"
  "bystander p s (upd_proc p v t) = bystander p s t" "bystander p s (upd_k (upd_task p u) t) = bystander p s t"
  by (simp_all add: bystander_def cong: conj_cong)

lemma bystander_mmput [simp]: "bystander p s (mmput m t) = bystander p s t" "bystander p s (mmdrop m t) = bystander p s t"
  by (simp_all add: mmput_def k__mmput_def mmdrop_def Let_def)

lemma bystander_mm: "bystander p s (snd (dup_mm f oldmm s))"
  by (auto simp: dup_mm_def mm_init_def free_mm_def Let_def split: option.splits prod.splits)

definition keeps_others :: "fctx \<Rightarrow> stage \<Rightarrow> bool" where
  "keeps_others z st \<longleftrightarrow> (\<forall>s. bystander (fc_p z) s (snd (st z s)))"

lemma keeps_others_take: "fork_law (fc_f z) \<Longrightarrow> keeps_others z (stage_take r l)"
  unfolding keeps_others_def using fork_take [of "fc_f z" r "fc_p z"] by (auto simp: stage_take_def fails_to_def) (metis bystander_refl bystander_upd(1) snd_conv)

lemma keeps_others_plain:
  "keeps_others z stage_init" "keeps_others z stage_clear" "keeps_others z stage_limits" "keeps_others z stage_pid" "keeps_others z stage_ids"
  "keeps_others z stage_files" "keeps_others z stage_fs" "keeps_others z stage_sighand" "keeps_others z stage_parent" "keeps_others z stage_seccomp" "keeps_others z stage_late"
proof -
  show "keeps_others z stage_limits"
    by (simp add: keeps_others_def stage_limits_def Let_def) (auto simp: bystander_def settled_def task_params_def task_core_def upd_task_def cpus_of_def)
qed (auto simp: keeps_others_def stage_init_def stage_clear_def stage_pid_def stage_ids_def stage_files_def copy_files_def stage_fs_def copy_fs_def stage_sighand_def
  copy_sighand_def stage_parent_def stage_seccomp_def copy_seccomp_def stage_late_def rt_mutex_init_task_def fails_to_def Let_def split: option.split sum.split)

lemma keeps_others_law:
  assumes "fork_law (fc_f z)"
  shows "keeps_others z stage_creds" "keeps_others z stage_kthread" "keeps_others z stage_signal" "keeps_others z stage_io"
    "keeps_others z stage_pidfd" "keeps_others z stage_core" "keeps_others z stage_mm"
proof -
  show "keeps_others z stage_creds" unfolding keeps_others_def
    using fork_creds [OF assms] by (auto simp: stage_creds_def fails_to_def) (metis bystander_refl bystander_upd(1) snd_conv)
  show "keeps_others z stage_io" unfolding keeps_others_def
    using fork_io [OF assms] by (auto simp: stage_io_def fails_to_def) (metis bystander_refl bystander_upd(1,6) snd_conv)
  show "keeps_others z stage_kthread" unfolding keeps_others_def
  proof
    show "bystander (fc_p z) s (snd (stage_kthread z s))" for s
      using fork_take [OF assms, of Kthread "fc_p z" s] by (auto simp: stage_kthread_def Let_def)
  qed
  show "keeps_others z stage_pidfd" unfolding keeps_others_def
  proof
    show "bystander (fc_p z) s (snd (stage_pidfd z s))" for s
      using fork_take [OF assms, of Fd "fc_p z" s] fork_take [OF assms, of Pidfile "fc_p z" "add_ref (Ext Fd (fc_p z)) s"]
      by (auto simp: stage_pidfd_def fails_to_def Let_def fork_give [OF assms])
  qed
  show "keeps_others z stage_signal" "keeps_others z stage_core"
    by (auto simp: keeps_others_def stage_signal_def copy_signal_def stage_core_def fails_to_def Let_def fork_give [OF assms] split: option.split)
  show "keeps_others z stage_mm" unfolding keeps_others_def
  proof
    fix s :: pstate
    define s1 where "s1 = upd_k (upd_task (fc_p z) (\<lambda>t. t\<lparr>t_mm := None, t_active_mm := None\<rparr>)) (upd_k (upd_task (fc_p z) (\<lambda>t. t\<lparr>t_nvcsw := 0, t_nivcsw := 0\<rparr>)) s)"
    have s1: "bystander (fc_p z) s s1" by (simp add: s1_def)
    have dm: "bystander (fc_p z) s t" if "dup_mm f m s1 = (a, t)" for f m a t
      using bystander_trans [OF s1 bystander_mm [of _ s1 f m]] that by simp
    show "bystander (fc_p z) s (snd (stage_mm z s))"
      by (auto simp: stage_mm_def copy_mm_def fails_to_def mmget_def Let_def s1 s1_def [symmetric] dm split: option.splits prod.splits)
  qed
qed

lemma keeps_others_sched:
  assumes "fork_sched_law (fc_x z)"
  shows "keeps_others z stage_sched" "keeps_others z stage_cgroup_fork"
proof -
  show "keeps_others z stage_sched" unfolding keeps_others_def
  proof
    fix s :: pstate
    obtain a k where a: "sched_fork (fc_e z) (fc_x z) (fc_p z) (ps_k s) = (a, k)" by (cases "sched_fork (fc_e z) (fc_x z) (fc_p z) (ps_k s)") auto
    show "bystander (fc_p z) s (snd (stage_sched z s))"
      using sched_fork_keeps [OF assms a] by (simp add: stage_sched_def a fails_to_def bystander_def task_counts_def cpus_of_def kfix_def cur_def current_def)
  qed
  show "keeps_others z stage_cgroup_fork" unfolding keeps_others_def
  proof
    fix s :: pstate
    let ?k = "sched_cgroup_fork (fc_x z) (fk_task_group (fc_f z) (fc_p z) s) (fc_p z) (ps_k s)"
    have "settled (tasks ?k q) = settled (tasks (ps_k s) q)" if "q \<noteq> fc_p z" for q
      using cgroup_fork_keeps(1) [OF assms that] by (rule settled_params)
    then show "bystander (fc_p z) s (snd (stage_cgroup_fork z s))"
      using cgroup_fork_keeps(3) [OF assms] by (simp add: stage_cgroup_fork_def bystander_def cur_def cgroup_fork_keeps(2) [OF assms] cpus_of_def kfix_def)
  qed
qed

lemma keeps_others_run:
  assumes "\<forall>st \<in> set sts. keeps_others z st"
  shows "keeps_others z (run_stages sts)"
  using assms
proof (induction sts)
  case (Cons st sts)
  show ?case unfolding keeps_others_def
  proof
    fix s :: pstate
    obtain r s1 where r: "st z s = (r, s1)" by (cases "st z s") auto
    have s1: "bystander (fc_p z) s s1" using Cons.prems r unfolding keeps_others_def by (metis list.set_intros(1) snd_conv)
    moreover have "bystander (fc_p z) s1 (snd (run_stages sts z s1))" using Cons by (simp add: keeps_others_def)
    ultimately show "bystander (fc_p z) s (snd (run_stages (st # sts) z s))"
      using r by (cases r) (simp_all add: bystander_trans)
  qed
qed (simp add: keeps_others_def)

lemma keeps_others_stages:
  assumes "fork_law (fc_f z)" and "fork_sched_law (fc_x z)"
  shows "keeps_others z (run_stages (map fst fork_stages))" "keeps_others z (run_stages late_stages)"
  by (rule keeps_others_run,
    simp add: fork_stages_def late_stages_def keeps_others_plain keeps_others_law [OF assms(1)] keeps_others_sched [OF assms(2)] keeps_others_take [OF assms(1)])+

lemma bystander_cleanup:
  assumes "fork_law (fc_f z)"
  shows "bystander (fc_p z) s (cleanup z l s)"
proof -
  have "bystander (fc_p z) s (cleanup_at z m s)" for m s
    by (cases m) (auto simp: cleanup_at_def Let_def fork_give [OF assms] fork_exit [OF assms] free_signal_struct_def mmdrop_async_def put_pid_def
      pidfd_release_def k__cleanup_sighand_def put_task_stack_def release_task_stack_def free_task_def release_user_cpus_ptr_def split: option.split)
  then have "bystander (fc_p z) s (fold (cleanup_at z) ls s)" for ls s
    by (induction ls arbitrary: s) (auto intro: bystander_trans)
  then show ?thesis by (simp add: cleanup_def)
qed

subsection \<open>The start\<close>

lemma bystander_dup: "bystander p s (dup_fields f p s)"
proof -
  define s1 where "s1 = upd_k (upd_task p (\<lambda>_. (tasks (ps_k s) (cur s))\<lparr>t_need_resched := False\<rparr>)) s"
  have "bystander p s s1" by (simp add: s1_def)
  then show ?thesis
    by (simp add: dup_fields_def Let_def s1_def [symmetric]) (simp add: dup_user_cpus_ptr_def bystander_def upd_task_def cur_def current_def cpus_of_def split: option.split)
qed

lemma dup_fields_refs: "ps_refs (dup_fields f p s) = ps_refs s"
  by (simp add: dup_fields_def Let_def)

lemma dup_fields_proc: "p \<noteq> cur s \<Longrightarrow> ps_proc (dup_fields f p s) p = (ps_proc s (cur s))\<lparr>pr_seccomp := None, pr_worker_private := False\<rparr>"
  by (simp add: dup_fields_def Let_def)

lemma dup_none:
  assumes "fork_law f" and "dup_task_struct f s = (None, s')"
  shows "ps_refs s' b = ps_refs s b" "bystander p s s'"
  using assms(2) by (auto simp: dup_task_struct_def Let_def fork_give [OF assms(1)] split: option.splits if_splits)

lemma dup_some:
  assumes "fork_law (fc_f z)" and "dup_task_struct (fc_f z) s = (Some (fc_p z), s')"
    and "pr_fs (ps_proc s (cur s)) \<noteq> None" and "pr_sighand (ps_proc s (cur s)) \<noteq> None"
  shows "base z s'" "inherits 6 z s'" "net z bad_fork_free s' b = ps_refs s b" "bystander (fc_p z) s s'" "fc_p z \<noteq> cur s"
proof -
  let ?s1 = "add_ref (Ext Stack (fc_p z)) (add_ref (Ext Task_struct (fc_p z)) s)"
  have s': "s' = dup_fields (fc_f z) (fc_p z) ?s1" and p: "fk_alloc_task (fc_f z) s = Some (fc_p z)"
    using assms(2) by (auto simp: dup_task_struct_def Let_def split: option.splits if_splits)
  show c: "fc_p z \<noteq> cur s" by (rule fork_fresh(1) [OF assms(1) p])
  have by1: "bystander (fc_p z) ?s1 s'" unfolding s' by (rule bystander_dup)
  have pr: "ps_proc s' (fc_p z) = (ps_proc s (cur s))\<lparr>pr_seccomp := None, pr_worker_private := False\<rparr>"
    using c unfolding s' by (subst dup_fields_proc) simp_all
  show "base z s'" "inherits 6 z s'" using by1 pr c assms(3,4) by (auto simp: bystander_def base_def inherits_def)
  have "bystander (fc_p z) s ?s1" by simp
  from bystander_trans [OF this by1] show "bystander (fc_p z) s s'" .
  show "net z bad_fork_free s' b = ps_refs s b"
    by (simp add: net_def labels_next owed_at_def Let_def pr) (simp add: s' dup_fields_refs)
qed

subsection \<open>Failure\<close>

lemma run_stages_append:
  "run_stages (a @ b) z s = (case run_stages a z s of (Some r, s) \<Rightarrow> (Some r, s) | (None, s) \<Rightarrow> run_stages b z s)"
  by (induction a arbitrary: s) (auto split: prod.split option.split)

lemma fork_run:
  assumes "fork_law (fc_f z)" and "fork_sched_law (fc_x z)" and "base z s" and "inherits 6 z s"
    and "run_stages (map fst fork_stages @ late_stages) z s = (r, s')"
  shows "bystander (fc_p z) s s'"
    and "r = None \<Longrightarrow> net z cancel_cgroup s' b = net z bad_fork_free s b + filter_of s (cur s) b"
    and "r = Some (l, err) \<Longrightarrow> (\<forall>b. net z l s' b = net z bad_fork_free s b) \<or> (\<forall>b. net z l s' b = net z bad_fork_free s b + filter_of s (cur s) b)"
proof -
  obtain r1 s1 where r1: "run_stages (map fst fork_stages) z s = (r1, s1)" by (cases "run_stages (map fst fork_stages) z s") auto
  have by1: "bystander (fc_p z) s s1" using keeps_others_stages(1) [OF assms(1,2)] r1 unfolding keeps_others_def by (metis snd_conv)
  note ok = fork_stages_ok [OF assms(1,2), unfolded stage_ok_def, rule_format, OF conjI, OF assms(3,4)]
  have "bystander (fc_p z) s s' \<and> (r = None \<longrightarrow> (\<forall>b. net z cancel_cgroup s' b = net z bad_fork_free s b + filter_of s (cur s) b)) \<and>
    (\<forall>l err. r = Some (l, err) \<longrightarrow> (\<forall>b. net z l s' b = net z bad_fork_free s b) \<or> (\<forall>b. net z l s' b = net z bad_fork_free s b + filter_of s (cur s) b))"
  proof (cases r1)
    case (Some a)
    then have "r = r1" "s' = s1" using assms(5) r1 by (simp_all add: run_stages_append)
    then show ?thesis using ok Some r1 by1 by (cases a) auto
  next
    case None
    then have late: "run_stages late_stages z s1 = (r, s')" using assms(5) r1 by (simp add: run_stages_append)
    have by2: "bystander (fc_p z) s1 s'" using keeps_others_stages(2) [OF assms(1,2)] late unfolding keeps_others_def by (metis snd_conv)
    have b: "base z s1" and n: "\<And>b. net z put_pidfd s1 b = net z bad_fork_free s b" using ok None r1 by auto
    have p: "fc_p z \<noteq> cur s1" using b by (simp add: base_def)
    have f: "filter_of s1 (cur s1) b = filter_of s (cur s) b" for b using by1 p by (auto simp: filter_of_def bystander_def)
    show ?thesis using run_late [OF assms(1) late] late_net [OF assms(2) p] n f bystander_trans [OF by1 by2] by auto
  qed
  then show "bystander (fc_p z) s s'" and "r = None \<Longrightarrow> net z cancel_cgroup s' b = net z bad_fork_free s b + filter_of s (cur s) b"
    and "r = Some (l, err) \<Longrightarrow> (\<forall>b. net z l s' b = net z bad_fork_free s b) \<or> (\<forall>b. net z l s' b = net z bad_fork_free s b + filter_of s (cur s) b)"
    by blast+
qed

text \<open>
  C18.  A \<^verbatim>\<open>copy_process\<close> that fails gives back every reference it took, with one exception: if the current task has a
  seccomp filter, the filter may keep one reference more.  The other tasks keep their scheduling parameters (among
  them the fixed priority), flags and tables, and the numbers of threads, forks and processes do not change.
\<close>

theorem copy_process_fail:
  assumes "fork_law f" and "fork_sched_law x"
    and "pr_fs (ps_proc s (cur s)) \<noteq> None" and "pr_sighand (ps_proc s (cur s)) \<noteq> None"
    and "copy_process e x g f init_pid args s = (Inl err, s')"
  shows "((\<forall>b. ps_refs s' b = ps_refs s b) \<or> (\<forall>b. ps_refs s' b = ps_refs s b + filter_of s (cur s) b)) \<and> (\<exists>p. p \<noteq> cur s \<and> bystander p s s')"
proof (cases "clone_flags_ok g f (ca_flags args) s \<and> \<not> fk_task_sigpending f s")
  case False
  then have "s' = s" using assms(5) by (auto simp: copy_process_def split: if_splits)
  then show ?thesis by (auto intro: exI [of _ "cur s + 1"])
next
  case True
  obtain d s1 where d: "dup_task_struct f s = (d, s1)" by (cases "dup_task_struct f s") auto
  show ?thesis
  proof (cases d)
    case None
    then have "s' = s1" using assms(5) d True by (simp add: copy_process_def)
    then show ?thesis using dup_none [OF assms(1), of s s1] d None by (auto intro: exI [of _ "cur s + 1"])
  next
    case (Some p)
    define z where "z = \<lparr>fc_e = e, fc_x = x, fc_g = g, fc_f = f, fc_args = args, fc_init_pid = init_pid, fc_p = p\<rparr>"
    have z: "fc_f z = f" "fc_x z = x" "fc_p z = p" by (simp_all add: z_def)
    have laws: "fork_law (fc_f z)" "fork_sched_law (fc_x z)" using assms(1,2) by (simp_all add: z)
    have d': "dup_task_struct (fc_f z) s = (Some (fc_p z), s1)" using d Some by (simp add: z)
    note start = dup_some [OF laws(1) d' assms(3,4)]
    obtain l s2 where run: "run_stages (map fst fork_stages @ late_stages) z s1 = (Some (l, err), s2)" and s': "s' = cleanup z l s2"
      using assms(5) True d Some unfolding copy_process_def by (auto simp: Let_def z_def [symmetric] split: prod.splits option.splits)
    note fr = fork_run [OF laws start(1,2) run]
    have "filter_of s1 (cur s1) b = filter_of s (cur s) b" for b using start(4,5) by (auto simp: filter_of_def bystander_def)
    then have "(\<forall>b. ps_refs s' b = ps_refs s b) \<or> (\<forall>b. ps_refs s' b = ps_refs s b + filter_of s (cur s) b)"
      using fr(3) [OF refl] by (simp add: s' cleanup_refs [OF laws(1)] start(3))
    moreover have "bystander p s s'"
      using bystander_trans [OF bystander_trans [OF start(4) fr(1)] bystander_cleanup [OF laws(1)]] by (simp add: s' z)
    ultimately show ?thesis using start(5) z by blast
  qed
qed

subsection \<open>A sample\<close>

definition fork_ret :: "(pstate \<Rightarrow> pstate) \<Rightarrow> pstate \<Rightarrow> errno option \<times> pstate" where
  "fork_ret h s = (None, h s)"

text \<open>Code outside that always succeeds, with one number in store for each kind of object.\<close>

definition plain_forkops :: forkops where
  "plain_forkops = \<lparr>
     fk_take = (\<lambda>r p. fork_ret (add_ref (Ext r p))),
     fk_give = (\<lambda>r p. sub_ref (Ext r p)),
     fk_copy_creds = (\<lambda>p. fork_ret (\<lambda>s. add_ref (Ext Creds p) (add_ref (Ext Nproc p) s))),
     fk_copy_io = (\<lambda>p. fork_ret (\<lambda>s. s)),
     fk_alloc_task = (\<lambda>s. if cur s = 9 then None else Some 9),
     fk_alloc_stack = (\<lambda>_ _. True), fk_charge_stack = (\<lambda>_ _. None), fk_arch_dup = (\<lambda>_ _. None), fk_scs_prepare = (\<lambda>_ _. None),
     fk_alloc_mask = (\<lambda>_. True),
     fk_copy_fs_struct = (\<lambda>_ s. if ps_refs s (Fs 9) = 0 then Some 9 else None),
     fk_exit_fs = (\<lambda>p s. case pr_fs (ps_proc s p) of None \<Rightarrow> s | Some n \<Rightarrow> upd_proc p (\<lambda>r. r\<lparr>pr_fs := None\<rparr>) (sub_ref (Fs n) s)),
     fk_dup_fd = (\<lambda>_ s. if ps_refs s (Files 9) = 0 then Inr 9 else Inl ENOMEM),
     fk_exit_files = (\<lambda>p s. case pr_files (ps_proc s p) of None \<Rightarrow> s | Some n \<Rightarrow> upd_proc p (\<lambda>r. r\<lparr>pr_files := None\<rparr>) (sub_ref (Files n) s)),
     fk_alloc_sighand = (\<lambda>s. if ps_refs s (Sighand 9) = 0 then Some 9 else None),
     fk_alloc_signal = (\<lambda>_. Some 9),
     fk_autogroup_fork = (\<lambda>n. add_ref (Autogroup n)), fk_autogroup_exit = (\<lambda>n. sub_ref (Autogroup n)),
     fk_allocate_mm = (\<lambda>s. if ps_refs s (Mm 9) = 0 then Some 9 else None),
     fk_mm_alloc_pgd = (\<lambda>_ _. True), fk_init_new_context = (\<lambda>_ _. True), fk_dup_mmap = (\<lambda>_ _ _. None), fk_try_module_get = (\<lambda>_ _. True),
     fk_alloc_pid = (\<lambda>s. if ps_refs s (Pid 9) = 0 then Inr 9 else Inl ENOMEM),
     fk_put_user = (\<lambda>_ _. None), fk_task_sigpending = (\<lambda>_. False), fk_fatal_signal_pending = (\<lambda>_. False),
     fk_pid_allocated_adding = (\<lambda>_. True), fk_overlimit = (\<lambda>_ _. False), fk_init_user = (\<lambda>_ _. False),
     fk_cap_sys_resource = False, fk_cap_sys_admin = False, fk_same_pid_ns = (\<lambda>_. True), fk_same_time_ns = (\<lambda>_. True),
     fk_is_child_reaper = (\<lambda>_ _. False), fk_pid_nr = (\<lambda>n. n), fk_task_group = (\<lambda>_ _. 0), fk_wait_vfork = (\<lambda>_ s. (False, s))\<rparr>"

lemma plain_forkops_law: "fork_law plain_forkops"
  by (simp add: fork_law_def plain_forkops_def fork_ret_def)

definition sample_proc :: proc where
  "sample_proc = \<lparr>pr_fs = Some 1, pr_files = Some 1, pr_sighand = Some 1, pr_signal = Some 1, pr_seccomp = Some 3, pr_group_leader = 5,
     pr_real_parent = 1, pr_exit_signal = 17, pr_self_exec_id = 0, pr_parent_exec_id = 0, pr_set_child_tid = 0, pr_clear_child_tid = 0,
     pr_vfork_done = None, pr_worker_private = False, pr_io_context = False, pr_thread_pid = Some 5, pr_children = []\<rparr>"

definition sample_signal :: signal_struct where
  "sample_signal = \<lparr>sg_nr_threads = 1, sg_live = 1, sg_sigcnt = 1, sg_unkillable = False, sg_threads = [5], sg_oom_score_adj = 0,
     sg_oom_score_adj_min = 0, sg_oom_mm = None, sg_has_child_subreaper = False, sg_is_child_subreaper = False\<rparr>"

definition sample_refs :: "robj \<Rightarrow> int" where
  "sample_refs = (\<lambda>_. 0)(Fs 1 := 1, Files 1 := 1, Sighand 1 := 1, Signal 1 := 1, Filter 3 := 1, Pid 5 := 1)"

definition sample_pstate :: "kernel \<Rightarrow> pstate" where
  "sample_pstate k = \<lparr>ps_k = k, ps_refs = sample_refs, ps_proc = (\<lambda>_. sample_proc),
     ps_signal = (\<lambda>_. sample_signal), ps_fs_in_exec = (\<lambda>_. False), nr_threads = 1, max_threads = 100, total_forks = 0,
     process_counts = (\<lambda>_. 0), ps_processes = [5]\<rparr>"

lemma sample_pstate_sel [simp]:
  "ps_k (sample_pstate k) = k" "ps_refs (sample_pstate k) = sample_refs"
  "ps_proc (sample_pstate k) q = sample_proc" "ps_fs_in_exec (sample_pstate k) n = False" "nr_threads (sample_pstate k) = 1"
  "max_threads (sample_pstate k) = 100" "total_forks (sample_pstate k) = 0"
  by (simp_all add: sample_pstate_def)

definition sample_args :: "u64 \<Rightarrow> kernel_clone_args" where
  "sample_args flags = \<lparr>ca_flags = flags, ca_pidfd = 0, ca_child_tid = 0, ca_parent_tid = 0, ca_exit_signal = 17, ca_stack = 0, ca_stack_size = 0,
     ca_tls = 0, ca_set_tid_size = 0, ca_cgroup = 0, ca_io_thread = False\<rparr>"

definition sample_fork_kernel :: kernel where
  "sample_fork_kernel = sample_prio_kernel\<lparr>possible_cpus := [0], cpu_online_mask := {0}, cpu_active_mask := {0}\<rparr>"

lemma sample_fork_kernel_wf: "prio_wf kenv_v5_17 (tasks sample_fork_kernel p)" "weight_wf kenv_v5_17 (tasks sample_fork_kernel p)"
  by (simp_all add: sample_fork_kernel_def sample_prio_kernel_wf)

text \<open>A task with a seccomp filter creates a thread.\<close>

definition sample_thread :: "bool \<Rightarrow> tid \<Rightarrow> fctx" where
  "sample_thread fatal p = \<lparr>fc_e = kenv_v5_17, fc_x = plain_kops, fc_g = cenv_v5_17, fc_f = plain_forkops\<lparr>fk_fatal_signal_pending := \<lambda>_. fatal\<rparr>,
     fc_args = sample_args 0x10f00, fc_init_pid = False, fc_p = p\<rparr>"

abbreviation "sample_copy fatal \<equiv> copy_process kenv_v5_17 plain_kops cenv_v5_17 (plain_forkops\<lparr>fk_fatal_signal_pending := \<lambda>_. fatal\<rparr>)
  False (sample_args 0x10f00) (sample_pstate sample_fork_kernel)"

lemma sample_law: "fork_law (plain_forkops\<lparr>fk_fatal_signal_pending := \<lambda>_. b\<rparr>)"
  by (simp add: fork_law_def plain_forkops_def fork_ret_def)

definition ready :: "pstate \<Rightarrow> bool" where
  "ready s \<longleftrightarrow> cur s \<noteq> 9 \<and> nr_threads s < max_threads s \<and> (\<forall>n. \<not> ps_fs_in_exec s n) \<and> ps_refs s (Pid 9) = 0 \<and>
     t_normal_prio (tasks (ps_k s) (cur s)) = 120 \<and> \<not> t_sched_reset_on_fork (tasks (ps_k s) 9)"

definition passes :: "fctx \<Rightarrow> stage \<Rightarrow> bool" where
  "passes z st \<longleftrightarrow> (\<forall>s. ready s \<longrightarrow> fst (st z s) = None \<and> ready (snd (st z s)))"

lemma ready_reads [simp]:
  "nr_threads (add_ref b s) = nr_threads s" "nr_threads (upd_proc p h s) = nr_threads s" "nr_threads (upd_k u s) = nr_threads s"
  "max_threads (add_ref b s) = max_threads s" "max_threads (upd_proc p h s) = max_threads s" "max_threads (upd_k u s) = max_threads s"
  "ps_fs_in_exec (add_ref b s) = ps_fs_in_exec s" "ps_fs_in_exec (upd_proc p h s) = ps_fs_in_exec s" "ps_fs_in_exec (upd_k u s) = ps_fs_in_exec s"
  by (simp_all add: add_ref_def upd_proc_def upd_k_def)

lemma sample_flags:
  "has (sample_thread b p) CLONE_VM" "has (sample_thread b p) CLONE_FS" "has (sample_thread b p) CLONE_FILES" "has (sample_thread b p) CLONE_SIGHAND"
  "has (sample_thread b p) CLONE_THREAD" "\<not> has (sample_thread b p) CLONE_PIDFD"
  by (simp_all add: has_def sample_thread_def sample_args_def cenv_v5_17_def flag_set_def)

lemma sample_sel [simp]:
  "fc_p (sample_thread b p) = p" "fc_f (sample_thread b p) = plain_forkops\<lparr>fk_fatal_signal_pending := \<lambda>_. b\<rparr>" "fc_init_pid (sample_thread b p) = False"
  "fc_x (sample_thread b p) = plain_kops" "fc_e (sample_thread b p) = kenv_v5_17"
  by (simp_all add: sample_thread_def)

lemma passes_early:
  "passes (sample_thread b 9) stage_init" "passes (sample_thread b 9) stage_creds" "passes (sample_thread b 9) stage_limits"
  "passes (sample_thread b 9) stage_clear" "passes (sample_thread b 9) stage_kthread" "passes (sample_thread b 9) (stage_take r l)"
  "passes (sample_thread b 9) stage_io"
  by (auto simp: passes_def stage_init_def stage_creds_def stage_limits_def stage_clear_def stage_kthread_def stage_take_def stage_io_def Let_def
    fails_to_def plain_forkops_def fork_ret_def rt_mutex_init_task_def ready_def upd_task_def)

lemma passes_tables:
  "passes (sample_thread b 9) stage_files" "passes (sample_thread b 9) stage_fs" "passes (sample_thread b 9) stage_sighand"
  "passes (sample_thread b 9) stage_signal" "passes (sample_thread b 9) stage_mm"
  using sample_flags [unfolded has_def]
  by (auto simp: passes_def stage_files_def copy_files_def stage_fs_def copy_fs_def stage_sighand_def copy_sighand_def stage_signal_def copy_signal_def
    stage_mm_def copy_mm_def mmget_def Let_def fails_to_def ready_def upd_task_def split: option.split)

lemma passes_sched: "passes (sample_thread b 9) stage_sched"
  unfolding passes_def
proof (intro allI impI)
  fix s assume r: "ready s"
  obtain a k where a: "sched_fork kenv_v5_17 plain_kops 9 (ps_k s) = (a, k)" by (cases "sched_fork kenv_v5_17 plain_kops 9 (ps_k s)") auto
  note init = sched_fork_init_sel [OF plain_fork_law]
  have "a = None \<and> \<not> t_sched_reset_on_fork (tasks k 9)"
    using a r by (auto simp: sched_fork_def Let_def init ready_def cur_def v5_17_prio.prio_h_simps split: if_splits)
  then show "fst (stage_sched (sample_thread b 9) s) = None \<and> ready (snd (stage_sched (sample_thread b 9) s))"
    using r sched_fork_keeps [OF plain_fork_law a] by (auto simp: stage_sched_def a fails_to_def ready_def cur_def current_def)
qed

lemma passes_run: "\<forall>st \<in> set sts. passes z st \<Longrightarrow> passes z (run_stages sts)"
proof (induction sts)
  case (Cons st sts)
  have st: "fst (st z s) = None \<and> ready (snd (st z s))" if "ready s" for s using Cons.prems that by (simp add: passes_def)
  show ?case unfolding passes_def
  proof (intro allI impI)
    fix s assume "ready s"
    with st have "fst (st z s) = None \<and> ready (snd (st z s))" by blast
    then show "fst (run_stages (st # sts) z s) = None \<and> ready (snd (run_stages (st # sts) z s))"
      using Cons by (cases "st z s") (simp add: passes_def)
  qed
qed (simp add: passes_def)

lemma sample_run:
  assumes "ready s"
  shows "fst (run_stages (map fst fork_stages) (sample_thread b 9) s) = None"
proof -
  let ?z = "sample_thread b 9"
  have "passes ?z (run_stages (take 19 (map fst fork_stages)))"
    by (rule passes_run) (simp add: fork_stages_def passes_early passes_tables passes_sched)
  then obtain s1 where s1: "run_stages (take 19 (map fst fork_stages)) ?z s = (None, s1)" "ready s1"
    using assms unfolding passes_def by (metis prod.collapse)
  have l: "map fst fork_stages = take 19 (map fst fork_stages) @ [stage_pid, stage_pidfd, stage_ids]" by (simp add: fork_stages_def)
  have "fst (run_stages [stage_pid, stage_pidfd, stage_ids] ?z s1) = None"
    using s1(2) by (simp add: stage_pid_def stage_pidfd_def stage_ids_def sample_flags plain_forkops_def ready_def Let_def)
  then show ?thesis by (subst l) (simp only: run_stages_append s1 prod.case option.case)
qed

lemma sample_dup:
  defines "s \<equiv> sample_pstate sample_fork_kernel"
  shows "\<exists>s1. dup_task_struct (plain_forkops\<lparr>fk_fatal_signal_pending := \<lambda>_. b\<rparr>) s = (Some 9, s1) \<and> ready s1"
    "clone_flags_ok cenv_v5_17 (plain_forkops\<lparr>fk_fatal_signal_pending := \<lambda>_. b\<rparr>) 0x10f00 s" "cur s = 0"
    "pr_fs (ps_proc s (cur s)) \<noteq> None" "pr_sighand (ps_proc s (cur s)) \<noteq> None" "pr_seccomp (ps_proc s (cur s)) = Some 3"
    "prio_wf kenv_v5_17 (tasks (ps_k s) (cur s))" "weight_wf kenv_v5_17 (tasks (ps_k s) (cur s))"
proof -
  have k: "ps_k s = sample_fork_kernel" "ps_proc s q = sample_proc" for q by (simp_all add: s_def)
  have t: "tasks sample_fork_kernel 0 = sample_fair\<lparr>t_se := (t_se sample_fair)\<lparr>se_load := prio_load kenv_v5_17 20\<rparr>\<rparr>"
    by (simp add: sample_fork_kernel_def sample_prio_kernel_def)
  show c: "cur s = 0" unfolding cur_def current_def k by (simp add: sample_fork_kernel_def sample_prio_kernel_def zero_defs)
  show "clone_flags_ok cenv_v5_17 (plain_forkops\<lparr>fk_fatal_signal_pending := \<lambda>_. b\<rparr>) 0x10f00 s"
    unfolding clone_flags_ok_def has_all_def flag_set_def by (simp add: v5_17_clone.clone_h_simps plain_forkops_def)
  show "pr_fs (ps_proc s (cur s)) \<noteq> None" "pr_sighand (ps_proc s (cur s)) \<noteq> None" "pr_seccomp (ps_proc s (cur s)) = Some 3"
    unfolding k by (simp_all add: sample_proc_def)
  show "prio_wf kenv_v5_17 (tasks (ps_k s) (cur s))" "weight_wf kenv_v5_17 (tasks (ps_k s) (cur s))"
    unfolding k by (rule sample_fork_kernel_wf)+
  have "t_normal_prio (tasks (ps_k s) 0) = 120" "\<not> t_sched_reset_on_fork (tasks (ps_k s) 0)" "t_user_cpus_ptr (tasks (ps_k s) 0) = None"
    unfolding k t by (simp_all add: sample_fair_def zero_task_def)
  moreover have "nr_threads s < max_threads s" "\<forall>n. \<not> ps_fs_in_exec s n" "ps_refs s (Pid 9) = 0" by (simp_all add: s_def sample_refs_def)
  moreover have "upd_k (\<lambda>k. snd (dup_user_cpus_ptr a 9 0 k)) u = u" if "t_user_cpus_ptr (tasks (ps_k u) 0) = None" for a u
    using that by (simp add: upd_k_def dup_user_cpus_ptr_def)
  ultimately show "\<exists>s1. dup_task_struct (plain_forkops\<lparr>fk_fatal_signal_pending := \<lambda>_. b\<rparr>) s = (Some 9, s1) \<and> ready s1"
    by (simp add: dup_task_struct_def plain_forkops_def c dup_fields_def Let_def ready_def)
qed

lemma sample_ends:
  "\<exists>s1 s2. dup_task_struct (plain_forkops\<lparr>fk_fatal_signal_pending := \<lambda>_. b\<rparr>) (sample_pstate sample_fork_kernel) = (Some 9, s1) \<and>
     run_stages (map fst fork_stages) (sample_thread b 9) s1 = (None, s2)"
  "\<exists>s'. sample_copy True = (Inl EINTR, s')" "\<exists>s'. sample_copy False = (Inr 9, s')"
proof -
  have ex: "\<exists>s1 s2. dup_task_struct (plain_forkops\<lparr>fk_fatal_signal_pending := \<lambda>_. b\<rparr>) (sample_pstate sample_fork_kernel) = (Some 9, s1) \<and>
     run_stages (map fst fork_stages) (sample_thread b 9) s1 = (None, s2)" for b
    using sample_dup(1) [of b] sample_run [of _ b] by (metis prod.collapse)
  then show "\<exists>s1 s2. dup_task_struct (plain_forkops\<lparr>fk_fatal_signal_pending := \<lambda>_. b\<rparr>) (sample_pstate sample_fork_kernel) = (Some 9, s1) \<and>
     run_stages (map fst fork_stages) (sample_thread b 9) s1 = (None, s2)" .
  have ends: "sample_copy b = (if b then (Inl EINTR, cleanup (sample_thread b 9) cancel_cgroup (late_state (sample_thread b 9) s2))
      else (Inr 9, fork_finish (sample_thread b 9) (late_state (sample_thread b 9) s2)))"
    if d: "dup_task_struct (plain_forkops\<lparr>fk_fatal_signal_pending := \<lambda>_. b\<rparr>) (sample_pstate sample_fork_kernel) = (Some 9, s1)"
      and r: "run_stages (map fst fork_stages) (sample_thread b 9) s1 = (None, s2)" for b s1 s2
  proof -
    have "fst (fk_take (fc_f (sample_thread b 9)) Cgroup (fc_p (sample_thread b 9)) s2) = None" by (simp add: plain_forkops_def fork_ret_def)
    from run_late_ends [OF _ this] have "run_stages late_stages (sample_thread b 9) s2 =
        (if b then Some (cancel_cgroup, EINTR) else None, late_state (sample_thread b 9) s2)"
      by (simp add: sample_law stage_late_def) (simp add: plain_forkops_def)
    moreover have "ca_flags (sample_args 0x10f00) = 0x10f00" by (simp add: sample_args_def)
    moreover have "\<not> fk_task_sigpending (plain_forkops\<lparr>fk_fatal_signal_pending := \<lambda>_. b\<rparr>) u" for u by (simp add: plain_forkops_def)
    ultimately show ?thesis
      using d r sample_dup(2) [of b] by (simp add: copy_process_def run_stages_append Let_def flip: sample_thread_def)
  qed
  show "\<exists>s'. sample_copy True = (Inl EINTR, s')" using ex [of True] ends [of True] by auto
  show "\<exists>s'. sample_copy False = (Inr 9, s')" using ex [of False] ends [of False] by auto
qed

theorem copy_process_fail_witness:
  "\<exists>s'. sample_copy True = (Inl EINTR, s') \<and> ps_refs s' (Fs 1) = 1 \<and> ps_refs s' (Ext Thread 9) = 0 \<and> nr_threads s' = 1"
proof -
  obtain s' where s': "sample_copy True = (Inl EINTR, s')" using sample_ends(2) by blast
  note f = copy_process_fail [OF sample_law plain_fork_law sample_dup(4,5) s']
  have "filter_of s q (Fs 1) = 0" "filter_of s q (Ext Thread 9) = 0" for s q by (cases "pr_seccomp (ps_proc s q)"; simp add: filter_of_def)+
  then have "ps_refs s' (Fs 1) = ps_refs (sample_pstate sample_fork_kernel) (Fs 1)"
    "ps_refs s' (Ext Thread 9) = ps_refs (sample_pstate sample_fork_kernel) (Ext Thread 9)"
    using f by auto
  moreover have "nr_threads s' = nr_threads (sample_pstate sample_fork_kernel)" using f by (auto simp: bystander_def task_counts_def)
  ultimately show ?thesis using s' by (simp add: sample_refs_def)
qed

text \<open>
  C26.  The exception is real.  If the current task has a filter and gets a fatal signal while it forks, \<^verbatim>\<open>copy_process\<close>
  fails and the filter keeps the reference that \<^verbatim>\<open>copy_seccomp\<close> took: no task holds it, so the filter is never freed.
\<close>

theorem copy_process_leaks_filter:
  assumes "fork_law f" and "fork_sched_law x"
    and "pr_fs (ps_proc s (cur s)) \<noteq> None" and "pr_sighand (ps_proc s (cur s)) \<noteq> None"
    and "clone_flags_ok g f (ca_flags args) s" and "\<not> fk_task_sigpending f s" and "dup_task_struct f s = (Some p, s1)"
    and z_def: "z = \<lparr>fc_e = e, fc_x = x, fc_g = g, fc_f = f, fc_args = args, fc_init_pid = init_pid, fc_p = p\<rparr>"
    and "run_stages (map fst fork_stages) z s1 = (None, s2)" and "fst (fk_take f Cgroup p s2) = None"
    and "fk_pid_allocated_adding f (late_state z s2)" and "fk_fatal_signal_pending f (late_state z s2)"
  shows "\<exists>s'. copy_process e x g f init_pid args s = (Inl EINTR, s') \<and> (\<forall>b. ps_refs s' b = ps_refs s b + filter_of s (cur s) b)"
proof -
  have z: "fc_f z = f" "fc_x z = x" "fc_p z = p" by (simp_all add: z_def)
  have laws: "fork_law (fc_f z)" "fork_sched_law (fc_x z)" and d: "dup_task_struct (fc_f z) s = (Some (fc_p z), s1)" using assms(1,2,7) by (simp_all add: z)
  note start = dup_some [OF laws(1) d assms(3,4)]
  note ok = fork_stages_ok [OF laws, unfolded stage_ok_def, rule_format, OF conjI, OF start(1,2)]
  have b2: "base z s2" and n2: "\<And>b. net z put_pidfd s2 b = net z bad_fork_free s1 b" using ok assms(9) by auto
  have p: "fc_p z \<noteq> cur s2" using b2 by (simp add: base_def)
  have "bystander (fc_p z) s1 s2" using keeps_others_stages(1) [OF laws] assms(9) unfolding keeps_others_def by (metis snd_conv)
  then have "bystander (fc_p z) s s2" by (rule bystander_trans [OF start(4)])
  then have f: "filter_of s2 (cur s2) b = filter_of s (cur s) b" for b using start(5) by (auto simp: filter_of_def bystander_def)
  have late: "run_stages late_stages z s2 = (Some (cancel_cgroup, EINTR), late_state z s2)"
    using run_late_ends [OF laws(1)] assms(10-12) by (simp add: z stage_late_def)
  have "copy_process e x g f init_pid args s = (Inl EINTR, cleanup z cancel_cgroup (late_state z s2))"
    using assms(5-7,9) late by (simp add: copy_process_def run_stages_append flip: z_def)
  moreover have "ps_refs (cleanup z cancel_cgroup (late_state z s2)) b = ps_refs s b + filter_of s (cur s) b" for b
    by (simp add: cleanup_refs [OF laws(1)] late_net [OF laws(2) p] n2 start(3) f)
  ultimately show ?thesis by blast
qed

theorem copy_process_leaks_filter_witness:
  "ps_refs (sample_pstate sample_fork_kernel) (Filter 3) = 1 \<and> (\<exists>s'. sample_copy True = (Inl EINTR, s') \<and> ps_refs s' (Filter 3) = 2)"
proof -
  let ?f = "plain_forkops\<lparr>fk_fatal_signal_pending := \<lambda>_. True\<rparr>" and ?s = "sample_pstate sample_fork_kernel"
  obtain s1 s2 where d: "dup_task_struct ?f ?s = (Some 9, s1)" and r: "run_stages (map fst fork_stages) (sample_thread True 9) s1 = (None, s2)"
    using sample_ends(1) [of True] by blast
  have a: "clone_flags_ok cenv_v5_17 ?f (ca_flags (sample_args 0x10f00)) ?s" using sample_dup(2) by (simp add: sample_args_def)
  have c: "\<not> fk_task_sigpending ?f ?s" "fst (fk_take ?f Cgroup 9 s2) = None" "fk_pid_allocated_adding ?f u" "fk_fatal_signal_pending ?f u" for u
    by (simp_all add: plain_forkops_def fork_ret_def)
  have "filter_of ?s (cur ?s) (Filter 3) = 1" by (simp add: filter_of_def sample_proc_def)
  moreover obtain s' where "sample_copy True = (Inl EINTR, s')" and "\<forall>b. ps_refs s' b = ps_refs ?s b + filter_of ?s (cur ?s) b"
    using copy_process_leaks_filter [OF sample_law plain_fork_law sample_dup(4,5) a c(1) d sample_thread_def r c(2-4)] by blast
  moreover have "ps_refs ?s (Filter 3) = 1" by (simp add: sample_refs_def)
  ultimately show ?thesis by simp
qed

end
