(* ===== verification/Fork_Child.thy ===== *)
theory Fork_Child
  imports Fork_Balance
begin

text \<open>
  The task that a successful \<^verbatim>\<open>copy_process\<close> returns, \<^verbatim>\<open>Project 2/fork.c\<close> lines 1902 to 2400: its scheduling parameters,
  the tables it shares with its parent, its place in the thread group and among the processes.
\<close>

subsection \<open>The new task while it is built\<close>

text \<open>
  \<open>t0\<close> is the current task.  Until \<^verbatim>\<open>sched_fork\<close> the new task has the scheduling parameters of its parent, afterwards
  its own.
\<close>

definition sched_copy :: "kenv \<Rightarrow> task_struct \<Rightarrow> task_struct \<Rightarrow> bool" where
  "sched_copy e t0 t \<longleftrightarrow> prio_wf e t \<and> weight_wf e t \<and> t_normal_prio t = t_normal_prio t0 \<and> t_policy t = t_policy t0 \<and>
     t_static_prio t = t_static_prio t0 \<and> t_sched_reset_on_fork t = t_sched_reset_on_fork t0 \<and>
     t_cpus_ptr t = t_cpus_ptr t0 \<and> t_migration_disabled t = t_migration_disabled t0"

definition sched_new :: "kenv \<Rightarrow> task_struct \<Rightarrow> task_struct \<Rightarrow> bool" where
  "sched_new e t0 t \<longleftrightarrow> prio_wf e t \<and> weight_wf e t \<and> t_prio t = t_normal_prio t \<and> t_state t = TASK_NEW \<and> t_on_rq t = NOT_ON_RQ \<and>
     \<not> t_on_cpu t \<and> (\<not> t_sched_reset_on_fork t0 \<longrightarrow> t_static_prio t = t_static_prio t0 \<and> t_policy t = t_policy t0) \<and>
     t_cpus_ptr t = t_cpus_ptr t0 \<and> t_migration_disabled t = t_migration_disabled t0"

definition place :: "fctx \<Rightarrow> tid \<Rightarrow> pstate \<Rightarrow> pstate \<Rightarrow> bool" where
  "place z c s0 s \<longleftrightarrow>
     (has z CLONE_THREAD \<longrightarrow>
        t_tgid (tasks (ps_k s) (fc_p z)) = t_tgid (tasks (ps_k s0) c) \<and> pr_group_leader (ps_proc s (fc_p z)) = pr_group_leader (ps_proc s0 c)) \<and>
     (\<not> has z CLONE_THREAD \<longrightarrow> t_tgid (tasks (ps_k s) (fc_p z)) = t_pid (tasks (ps_k s) (fc_p z)) \<and> pr_group_leader (ps_proc s (fc_p z)) = fc_p z)"

text \<open>
  The number says how far the new task is: from one on \<^verbatim>\<open>sched_fork\<close> has run, from two on it has its table of files,
  three its file system table, four its signal handlers, five its signal structure, six its address space, seven its ids.
\<close>

definition child :: "nat \<Rightarrow> fctx \<Rightarrow> pstate \<Rightarrow> pstate \<Rightarrow> bool" where
  "child j z s0 s \<longleftrightarrow>
     (if j = 0 then sched_copy (fc_e z) (tasks (ps_k s0) (cur s0)) (tasks (ps_k s) (fc_p z))
      else sched_new (fc_e z) (tasks (ps_k s0) (cur s0)) (tasks (ps_k s) (fc_p z))) \<and>
     (j < 2 \<or> has z CLONE_FILES \<longrightarrow> pr_files (ps_proc s (fc_p z)) = pr_files (ps_proc s0 (cur s0))) \<and>
     (j < 3 \<or> has z CLONE_FS \<longrightarrow> pr_fs (ps_proc s (fc_p z)) = pr_fs (ps_proc s0 (cur s0))) \<and>
     (j < 4 \<or> has z CLONE_SIGHAND \<longrightarrow> pr_sighand (ps_proc s (fc_p z)) = pr_sighand (ps_proc s0 (cur s0))) \<and>
     (j < 5 \<or> has z CLONE_THREAD \<longrightarrow> pr_signal (ps_proc s (fc_p z)) = pr_signal (ps_proc s0 (cur s0))) \<and>
     (j \<ge> 6 \<and> has z CLONE_VM \<longrightarrow> t_mm (tasks (ps_k s) (fc_p z)) = t_mm (tasks (ps_k s0) (cur s0))) \<and>
     (j \<ge> 7 \<longrightarrow> place z (cur s0) s0 s)"

definition moves :: "fctx \<Rightarrow> stage \<Rightarrow> nat \<Rightarrow> nat \<Rightarrow> bool" where
  "moves z st i j \<longleftrightarrow> keeps_others z st \<and>
     (\<forall>s0 s s'. fc_p z \<noteq> cur s0 \<and> bystander (fc_p z) s0 s \<and> child i z s0 s \<and> st z s = (None, s') \<longrightarrow> child j z s0 s')"

text \<open>Fields that do not matter to it.\<close>

lemma sched_upd [simp]:
  "sched_copy e t0 (t\<lparr>t_flags := w\<rparr>) = sched_copy e t0 t" "sched_copy e t0 (t\<lparr>t_pi_top_task := a\<rparr>) = sched_copy e t0 t"
  "sched_new e t0 (t\<lparr>t_mm := m, t_active_mm := m\<rparr>) = sched_new e t0 t"
  "sched_new e t0 (t\<lparr>t_nvcsw := a1, t_nivcsw := b1\<rparr>) = sched_new e t0 t" "sched_new e t0 (t\<lparr>t_pid := n\<rparr>) = sched_new e t0 t"
  "sched_new e t0 (t\<lparr>t_tgid := n\<rparr>) = sched_new e t0 t"
  by (simp_all add: sched_copy_def sched_new_def prio_wf_def normal_prio_def weight_wf_def)

lemma child_upd [simp]:
  "child j z s0 (add_ref b s) = child j z s0 s" "child j z s0 (sub_ref b s) = child j z s0 s" "child j z s0 (set_ref b n s) = child j z s0 s"
  "child j z s0 (upd_sig i w s) = child j z s0 s"
  by (simp_all add: child_def place_def)

lemma child_proc [simp]:
  assumes "\<And>r. pr_files (h r) = pr_files r" and "\<And>r. pr_fs (h r) = pr_fs r" and "\<And>r. pr_sighand (h r) = pr_sighand r"
    and "\<And>r. pr_signal (h r) = pr_signal r" and "\<And>r. pr_group_leader (h r) = pr_group_leader r"
  shows "child j z s0 (upd_proc (fc_p z) h s) = child j z s0 s"
  by (simp add: child_def place_def assms)

lemma bystander_reads:
  assumes "bystander p s0 s" and "p \<noteq> cur s0"
  shows "cur s = cur s0" "ps_proc s (cur s0) = ps_proc s0 (cur s0)" "t_mm (tasks (ps_k s) (cur s0)) = t_mm (tasks (ps_k s0) (cur s0))"
    "t_tgid (tasks (ps_k s) (cur s0)) = t_tgid (tasks (ps_k s0) (cur s0))"
    "t_normal_prio (tasks (ps_k s) (cur s0)) = t_normal_prio (tasks (ps_k s0) (cur s0))"
    "t_my_fixed_priority (tasks (ps_k s) (cur s0)) = t_my_fixed_priority (tasks (ps_k s0) (cur s0))"
proof -
  have "settled (tasks (ps_k s) (cur s0)) = settled (tasks (ps_k s0) (cur s0))" using assms by (simp add: bystander_def)
  note f = arg_cong [OF this]
  show "t_mm (tasks (ps_k s) (cur s0)) = t_mm (tasks (ps_k s0) (cur s0))" "t_tgid (tasks (ps_k s) (cur s0)) = t_tgid (tasks (ps_k s0) (cur s0))"
    "t_normal_prio (tasks (ps_k s) (cur s0)) = t_normal_prio (tasks (ps_k s0) (cur s0))"
    "t_my_fixed_priority (tasks (ps_k s) (cur s0)) = t_my_fixed_priority (tasks (ps_k s0) (cur s0))"
    using f [of t_mm] f [of t_tgid] f [of t_normal_prio] f [of t_my_fixed_priority] by (simp_all add: settled_def task_params_def task_core_def)
qed (use assms in \<open>simp_all add: bystander_def\<close>)

lemma movesI:
  assumes "keeps_others z st"
    and "\<And>s0 s s'. fc_p z \<noteq> cur s0 \<Longrightarrow> bystander (fc_p z) s0 s \<Longrightarrow> child i z s0 s \<Longrightarrow> st z s = (None, s') \<Longrightarrow> child j z s0 s'"
  shows "moves z st i j"
  using assms unfolding moves_def by blast

lemma moves_take:
  assumes "fork_law (fc_f z)"
  shows "moves z (stage_take r l) j j"
proof (rule movesI [OF keeps_others_take [OF assms]])
  fix s0 s s' assume "child j z s0 s" "stage_take r l z s = (None, s')"
  then show "child j z s0 s'" using fork_take [OF assms, of r "fc_p z" s] by (auto simp: stage_take_def fails_to_def)
qed

lemma moves_law:
  assumes "fork_law (fc_f z)"
  shows "moves z stage_creds j j" "moves z stage_io j j" "moves z stage_kthread 0 0" "moves z stage_pidfd j j" "moves z stage_core j j"
proof -
  show "moves z stage_creds j j"
  proof (rule movesI [OF keeps_others_law(1) [OF assms]])
    fix s0 s s' assume "child j z s0 s" "stage_creds z s = (None, s')"
    then show "child j z s0 s'" using fork_creds [OF assms, of "fc_p z" s] by (auto simp: stage_creds_def fails_to_def)
  qed
  show "moves z stage_io j j"
  proof (rule movesI [OF keeps_others_law(4) [OF assms]])
    fix s0 s s' assume "child j z s0 s" "stage_io z s = (None, s')"
    then show "child j z s0 s'" using fork_io [OF assms, of "fc_p z" s] by (auto simp: stage_io_def fails_to_def)
  qed
  show "moves z stage_kthread 0 0"
  proof (rule movesI [OF keeps_others_law(2) [OF assms]])
    fix s0 s s' assume "child 0 z s0 s" "stage_kthread z s = (None, s')"
    then show "child 0 z s0 s'" using fork_take [OF assms, of Kthread "fc_p z" s]
      by (auto simp: stage_kthread_def Let_def split: if_splits)
  qed
  show "moves z stage_pidfd j j"
  proof (rule movesI [OF keeps_others_law(5) [OF assms]])
    fix s0 s s' assume "child j z s0 s" "stage_pidfd z s = (None, s')"
    then show "child j z s0 s'"
      using fork_take [OF assms, of Fd "fc_p z" s] fork_take [OF assms, of Pidfile "fc_p z" "add_ref (Ext Fd (fc_p z)) s"]
      by (auto simp: stage_pidfd_def fails_to_def Let_def split: if_splits)
  qed
  show "moves z stage_core j j"
    by (rule movesI [OF keeps_others_law(6) [OF assms]]) (auto simp: stage_core_def fork_give [OF assms])
qed

lemma moves_plain:
  "moves z stage_init 0 0" "moves z stage_limits 0 0" "moves z stage_clear 0 0"
  "moves z stage_files 1 2" "moves z stage_fs 2 3" "moves z stage_sighand 3 4" "moves z stage_pid 6 6" "moves z stage_ids 6 7"
  "moves z stage_parent 7 7" "moves z stage_seccomp 7 7"
proof -
  show "moves z stage_init 0 0"
    by (rule movesI [OF keeps_others_plain(1)]) (auto simp: stage_init_def Let_def rt_mutex_init_task_def child_def place_def)
  show "moves z stage_limits 0 0"
  proof (rule movesI [OF keeps_others_plain(3)])
    fix s0 s s' assume a: "fc_p z \<noteq> cur s0" "bystander (fc_p z) s0 s" "child 0 z s0 s" "stage_limits z s = (None, s')"
    have "tasks (ps_k s') (fc_p z) = tasks (ps_k s) (fc_p z)" "ps_proc s' = ps_proc s"
      using a(1,4) bystander_reads(1) [OF a(2,1)] by (auto simp: stage_limits_def Let_def split: if_splits)
    then show "child 0 z s0 s'" using a(3) by (simp add: child_def place_def)
  qed
  show "moves z stage_clear 0 0"
    by (rule movesI [OF keeps_others_plain(2)]) (auto simp: stage_clear_def Let_def child_def)
  show "moves z stage_pid 6 6"
    by (rule movesI [OF keeps_others_plain(4)]) (auto simp: stage_pid_def split: if_splits sum.splits)
  show "moves z stage_parent 7 7"
    by (rule movesI [OF keeps_others_plain(9)]) (auto simp: stage_parent_def Let_def)
  show "moves z stage_seccomp 7 7"
    by (rule movesI [OF keeps_others_plain(10)]) (auto simp: stage_seccomp_def copy_seccomp_def Let_def split: option.splits)
  show "moves z stage_ids 6 7"
  proof (rule movesI [OF keeps_others_plain(5)])
    fix s0 s s' assume a: "fc_p z \<noteq> cur s0" "bystander (fc_p z) s0 s" "child 6 z s0 s" "stage_ids z s = (None, s')"
    note r = bystander_reads [OF a(2,1)]
    show "child 7 z s0 s'"
    proof (cases "has z CLONE_THREAD")
      case True
      then show ?thesis using a(1,3,4) r by (auto simp: stage_ids_def Let_def child_def place_def)
    next
      case False
      then show ?thesis using a(1,3,4) by (auto simp: stage_ids_def Let_def child_def place_def)
    qed
  qed
  show "moves z stage_files 1 2"
  proof (rule movesI [OF keeps_others_plain(6)])
    fix s0 s s' assume a: "fc_p z \<noteq> cur s0" "bystander (fc_p z) s0 s" "child 1 z s0 s" "stage_files z s = (None, s')"
    have "tasks (ps_k s') (fc_p z) = tasks (ps_k s) (fc_p z)" "pr_fs (ps_proc s' (fc_p z)) = pr_fs (ps_proc s (fc_p z))" "pr_sighand (ps_proc s' (fc_p z)) = pr_sighand (ps_proc s (fc_p z))" "pr_signal (ps_proc s' (fc_p z)) = pr_signal (ps_proc s (fc_p z))" "pr_group_leader (ps_proc s' (fc_p z)) = pr_group_leader (ps_proc s (fc_p z))"
      "has z CLONE_FILES \<longrightarrow> pr_files (ps_proc s' (fc_p z)) = pr_files (ps_proc s (fc_p z))"
      using a(4) by (auto simp: stage_files_def copy_files_def fails_to_def has_def Let_def split: option.splits if_splits sum.splits)
    then show "child 2 z s0 s'" using a(3) by (simp add: child_def)
  qed
  show "moves z stage_fs 2 3"
  proof (rule movesI [OF keeps_others_plain(7)])
    fix s0 s s' assume a: "fc_p z \<noteq> cur s0" "bystander (fc_p z) s0 s" "child 2 z s0 s" "stage_fs z s = (None, s')"
    have "tasks (ps_k s') (fc_p z) = tasks (ps_k s) (fc_p z)" "pr_files (ps_proc s' (fc_p z)) = pr_files (ps_proc s (fc_p z))" "pr_sighand (ps_proc s' (fc_p z)) = pr_sighand (ps_proc s (fc_p z))" "pr_signal (ps_proc s' (fc_p z)) = pr_signal (ps_proc s (fc_p z))" "pr_group_leader (ps_proc s' (fc_p z)) = pr_group_leader (ps_proc s (fc_p z))"
      "has z CLONE_FS \<longrightarrow> pr_fs (ps_proc s' (fc_p z)) = pr_fs (ps_proc s (fc_p z))"
      using a(4) by (auto simp: stage_fs_def copy_fs_def fails_to_def has_def Let_def split: option.splits if_splits sum.splits)
    then show "child 3 z s0 s'" using a(3) by (simp add: child_def)
  qed
  show "moves z stage_sighand 3 4"
  proof (rule movesI [OF keeps_others_plain(8)])
    fix s0 s s' assume a: "fc_p z \<noteq> cur s0" "bystander (fc_p z) s0 s" "child 3 z s0 s" "stage_sighand z s = (None, s')"
    have "tasks (ps_k s') (fc_p z) = tasks (ps_k s) (fc_p z)" "pr_files (ps_proc s' (fc_p z)) = pr_files (ps_proc s (fc_p z))" "pr_fs (ps_proc s' (fc_p z)) = pr_fs (ps_proc s (fc_p z))" "pr_signal (ps_proc s' (fc_p z)) = pr_signal (ps_proc s (fc_p z))" "pr_group_leader (ps_proc s' (fc_p z)) = pr_group_leader (ps_proc s (fc_p z))"
      "has z CLONE_SIGHAND \<longrightarrow> pr_sighand (ps_proc s' (fc_p z)) = pr_sighand (ps_proc s (fc_p z))"
      using a(4) by (auto simp: stage_sighand_def copy_sighand_def fails_to_def has_def Let_def split: option.splits if_splits sum.splits)
    then show "child 4 z s0 s'" using a(3) by (simp add: child_def)
  qed
qed

lemma moves_signal:
  assumes "fork_law (fc_f z)"
  shows "moves z stage_signal 4 5"
proof (rule movesI [OF keeps_others_law(3) [OF assms]])
  fix s0 s s' assume a: "child 4 z s0 s" "stage_signal z s = (None, s')"
  show "child 5 z s0 s'"
  proof (cases "has z CLONE_THREAD")
    case True
    then have "s' = s" using a(2) by (simp add: stage_signal_def copy_signal_def fails_to_def has_def)
    then show ?thesis using a(1) True by (simp add: child_def)
  next
    case False
    then have "\<exists>m v. s' = add_ref (Autogroup m) (upd_sig m v (add_ref (Signal m) (upd_proc (fc_p z) (\<lambda>r. r\<lparr>pr_signal := Some m\<rparr>) s)))"
      using a(2) by (auto simp: stage_signal_def copy_signal_def fails_to_def has_def Let_def fork_give [OF assms] split: option.splits)
    then show ?thesis using a(1) False by (auto simp: child_def)
  qed
qed

lemma dup_mm_tasks: "tasks (ps_k (snd (dup_mm f m s))) = tasks (ps_k s)" "ps_proc (snd (dup_mm f m s)) = ps_proc s"
  by (auto simp: dup_mm_def mm_init_def free_mm_def Let_def split: option.splits prod.splits)

lemma moves_mm:
  assumes "fork_law (fc_f z)"
  shows "moves z stage_mm 5 6"
proof (rule movesI [OF keeps_others_law(7) [OF assms]])
  fix s0 s s' assume a: "fc_p z \<noteq> cur s0" "bystander (fc_p z) s0 s" "child 5 z s0 s" "stage_mm z s = (None, s')"
  let ?p = "fc_p z"
  define s1 where "s1 = upd_k (upd_task ?p (\<lambda>t. t\<lparr>t_mm := None, t_active_mm := None\<rparr>)) (upd_k (upd_task ?p (\<lambda>t. t\<lparr>t_nvcsw := 0, t_nivcsw := 0\<rparr>)) s)"
  have c1: "child 5 z s0 s1" using a(3) by (simp add: s1_def child_def)
  have "bystander ?p s0 s1" using a(2) by (simp add: s1_def)
  note r = bystander_reads [OF this a(1)]
  have eq: "copy_mm g f w ?p s = (case t_mm (tasks (ps_k s1) (cur s1)) of None \<Rightarrow> (None, s1)
      | Some oldmm \<Rightarrow> case (if flag_set w (CLONE_VM g) then (Some oldmm, mmget oldmm s1) else dup_mm f oldmm s1) of
          (None, s2) \<Rightarrow> (Some ENOMEM, s2)
        | (Some m, s2) \<Rightarrow> (None, upd_k (upd_task ?p (\<lambda>t. t\<lparr>t_mm := Some m, t_active_mm := Some m\<rparr>)) s2))" for g f w
    unfolding copy_mm_def Let_def s1_def [symmetric] by (simp add: case_prod_beta split: option.split)
  show "child 6 z s0 s'"
  proof (cases "t_mm (tasks (ps_k s0) (cur s0))")
    case None
    then have "s' = s1" using a(4) r by (simp add: stage_mm_def eq fails_to_def)
    moreover have "t_mm (tasks (ps_k s1) ?p) = None" by (simp add: s1_def)
    ultimately show ?thesis using c1 None by (simp add: child_def)
  next
    case (Some m)
    have "\<exists>n s2. s' = upd_k (upd_task ?p (\<lambda>t. t\<lparr>t_mm := Some n, t_active_mm := Some n\<rparr>)) s2 \<and> tasks (ps_k s2) = tasks (ps_k s1) \<and> ps_proc s2 = ps_proc s1 \<and>
        (has z CLONE_VM \<longrightarrow> n = m)"
    proof (cases "has z CLONE_VM")
      case True
      then show ?thesis using a(4) r Some
        by (auto simp: stage_mm_def eq fails_to_def has_def mmget_def intro!: exI [of _ m] exI [of _ "add_ref (Mm m) s1"])
    next
      case False
      obtain d s2 where d: "dup_mm (fc_f z) m s1 = (d, s2)" by (cases "dup_mm (fc_f z) m s1") auto
      show ?thesis using a(4) r Some False d dup_mm_tasks [of "fc_f z" m s1]
        by (auto simp: stage_mm_def eq fails_to_def has_def split: option.splits)
    qed
    then show ?thesis using c1 Some by (auto simp: child_def)
  qed
qed

lemma moves_cgroup:
  assumes "fork_sched_law (fc_x z)"
  shows "moves z stage_cgroup_fork 7 7"
proof (rule movesI [OF keeps_others_sched(2) [OF assms]])
  fix s0 s s' assume a: "child 7 z s0 s" "stage_cgroup_fork z s = (None, s')"
  note k = cgroup_fork_keeps(4) [OF assms, of "fk_task_group (fc_f z) (fc_p z) s" "fc_p z" "ps_k s"]
  have "tasks (ps_k s') (fc_p z) = tasks (sched_cgroup_fork (fc_x z) (fk_task_group (fc_f z) (fc_p z) s) (fc_p z) (ps_k s)) (fc_p z)"
    and pr: "ps_proc s' = ps_proc s" using a(2) by (auto simp: stage_cgroup_fork_def)
  then have t: "task_params (tasks (ps_k s') (fc_p z)) = task_params ((tasks (ps_k s) (fc_p z))\<lparr>t_sched_task_group := fk_task_group (fc_f z) (fc_p z) s,
      t_cpu := this_cpu (ps_k s), t_wake_cpu := this_cpu (ps_k s)\<rparr>)" using k by simp
  have ids: "t_pid (tasks (ps_k s') (fc_p z)) = t_pid (tasks (ps_k s) (fc_p z))" "t_tgid (tasks (ps_k s') (fc_p z)) = t_tgid (tasks (ps_k s) (fc_p z))"
    using arg_cong [OF t, of t_pid] arg_cong [OF t, of t_tgid] by (simp_all add: task_params_def task_core_def)
  have "sched_new e t0 (tasks (ps_k s') (fc_p z)) = sched_new e t0 (tasks (ps_k s) (fc_p z))" for e t0
    unfolding sched_new_def params_cong [OF t] task_params_sel [OF t] task_params_sel2 [OF t]
    by (simp add: prio_wf_def normal_prio_def weight_wf_def)
  then show "child 7 z s0 s'" using a(1) task_params_sel2(12) [OF t] ids by (simp add: child_def place_def pr)
qed

lemma moves_sched:
  assumes "prio_h (fc_e z)" and "policy_h (fc_e z)" and "fork_sched_law (fc_x z)"
  shows "moves z stage_sched 0 1"
proof (rule movesI [OF keeps_others_sched(1) [OF assms(3)]])
  fix s0 s s' assume a: "fc_p z \<noteq> cur s0" "bystander (fc_p z) s0 s" "child 0 z s0 s" "stage_sched z s = (None, s')"
  obtain k where k: "sched_fork (fc_e z) (fc_x z) (fc_p z) (ps_k s) = (None, k)" and s': "s' = s\<lparr>ps_k := k\<rparr>"
    using a(4) by (auto simp: stage_sched_def fails_to_def split: prod.splits)
  have c: "sched_copy (fc_e z) (tasks (ps_k s0) (cur s0)) (tasks (ps_k s) (fc_p z))" using a(3) by (simp add: child_def)
  have "t_normal_prio (tasks (ps_k s) (current (ps_k s))) = t_normal_prio (tasks (ps_k s) (fc_p z))"
    using bystander_reads(1,5) [OF a(2,1)] c by (simp add: sched_copy_def cur_def)
  from sched_fork_wf [OF assms _ _ this] c k sched_fork_keeps [OF assms(3) k]
  have "sched_new (fc_e z) (tasks (ps_k s0) (cur s0)) (tasks k (fc_p z))" by (simp add: sched_copy_def sched_new_def)
  then show "child 1 z s0 s'" using a(3) by (simp add: s' child_def)
qed

subsection \<open>The whole sequence\<close>

lemma moves_Nil: "moves z (run_stages []) j j"
  by (simp add: moves_def keeps_others_def)

lemma moves_Cons:
  assumes "moves z st i j" and "moves z (run_stages sts) j l"
  shows "moves z (run_stages (st # sts)) i l"
proof (rule movesI)
  show "keeps_others z (run_stages (st # sts))" unfolding keeps_others_def
  proof
    fix s :: pstate
    have "bystander (fc_p z) s (snd (st z s))" "bystander (fc_p z) u (snd (run_stages sts z u))" for u
      using assms by (simp_all add: moves_def keeps_others_def)
    then show "bystander (fc_p z) s (snd (run_stages (st # sts) z s))"
      by (cases "st z s") (auto split: option.split intro: bystander_trans)
  qed
next
  fix s0 s s' assume a: "fc_p z \<noteq> cur s0" "bystander (fc_p z) s0 s" "child i z s0 s" "run_stages (st # sts) z s = (None, s')"
  obtain s1 where s1: "st z s = (None, s1)" "run_stages sts z s1 = (None, s')" using a(4) by (auto split: prod.splits option.splits)
  have "bystander (fc_p z) s s1" using assms(1) s1(1) unfolding moves_def keeps_others_def by (metis snd_conv)
  then have "bystander (fc_p z) s0 s1" by (rule bystander_trans [OF a(2)])
  then show "child l z s0 s'" using assms a s1 unfolding moves_def by blast
qed

lemma moves_late: "moves z stage_late 7 7"
  by (rule movesI [OF keeps_others_plain(11)]) (auto simp: stage_late_def split: if_splits)

lemma moves_all:
  assumes "prio_h (fc_e z)" and "policy_h (fc_e z)" and "fork_law (fc_f z)" and "fork_sched_law (fc_x z)"
  shows "moves z (run_stages (map fst fork_stages @ late_stages)) 0 7"
  unfolding fork_stages_def late_stages_def list.map fst_conv append.simps
  by (rule moves_Cons moves_Nil moves_plain moves_late moves_law [OF assms(3)] moves_take [OF assms(3)] moves_signal [OF assms(3)]
    moves_mm [OF assms(3)] moves_cgroup [OF assms(4)] moves_sched [OF assms(1,2,4)])+

subsection \<open>The end\<close>

lemma post_fork_task:
  "\<exists>u. tasks (sched_post_fork e p k) = (tasks k)(p := (tasks k p)\<lparr>t_uclamp_req := u\<rparr>)"
proof (cases "rt_task e (tasks k p) \<and> \<not> uc_user_defined (t_uclamp_req (tasks k p) UCLAMP_MIN)")
  case True
  then show ?thesis
    by (auto simp: sched_post_fork_def uclamp_post_fork_def uclamp_update_util_min_rt_default_def k__uclamp_update_util_min_rt_default_def upd_task_def Let_def)
next
  case False
  then have "tasks (sched_post_fork e p k) = tasks k"
    by (auto simp: sched_post_fork_def uclamp_post_fork_def uclamp_update_util_min_rt_default_def k__uclamp_update_util_min_rt_default_def upd_task_def Let_def)
  then show ?thesis by (intro exI [of _ "t_uclamp_req (tasks k p)"]) simp
qed

text \<open>What making the task visible leaves: all references, and of every task all but the list of children.\<close>

lemma attach_reads:
  fixes s :: pstate and z :: fctx
  defines "s' \<equiv> attach_task z s"
  shows "ps_k s' = ps_k s" "ps_refs s' = ps_refs s" "(ps_proc s' q)\<lparr>pr_children := []\<rparr> = (ps_proc s q)\<lparr>pr_children := []\<rparr>"
    "nr_threads s' = nr_threads s + of_bool (t_pid (tasks (ps_k s) (fc_p z)) \<noteq> 0)" "total_forks s' = total_forks s + 1"
    "thread_group_leader s (fc_p z) \<and> t_pid (tasks (ps_k s) (fc_p z)) \<noteq> 0 \<Longrightarrow> ps_processes s' = ps_processes s @ [fc_p z]"
    "\<not> thread_group_leader s (fc_p z) \<Longrightarrow> ps_processes s' = ps_processes s"
  by (auto simp: s'_def attach_task_def attach_leader_def attach_thread_def Let_def upd_sig_def upd_proc_def)

lemma oom_reads:
  "ps_k (copy_oom_score_adj g w p s) = ps_k s" "ps_refs (copy_oom_score_adj g w p s) = ps_refs s" "ps_proc (copy_oom_score_adj g w p s) = ps_proc s"
  "nr_threads (copy_oom_score_adj g w p s) = nr_threads s" "total_forks (copy_oom_score_adj g w p s) = total_forks s"
  "ps_processes (copy_oom_score_adj g w p s) = ps_processes s"
  by (simp_all add: copy_oom_score_adj_def Let_def upd_sig_def)

lemma finish_reads:
  fixes s :: pstate and z :: fctx
  defines "s' \<equiv> fork_finish z s"
  shows "\<exists>u. tasks (ps_k s') (fc_p z) = (tasks (ps_k s) (fc_p z))\<lparr>t_uclamp_req := u, t_my_fixed_priority := 0\<rparr>"
    "q \<noteq> fc_p z \<Longrightarrow> tasks (ps_k s') q = tasks (ps_k s) q" "ps_refs s' = ps_refs s" "(ps_proc s' q)\<lparr>pr_children := []\<rparr> = (ps_proc s q)\<lparr>pr_children := []\<rparr>"
    "nr_threads s' = nr_threads s + of_bool (t_pid (tasks (ps_k s) (fc_p z)) \<noteq> 0)" "total_forks s' = total_forks s + 1"
    "ps_processes s' = ps_processes (attach_task z s)"
proof -
  obtain u where u: "tasks (sched_post_fork (fc_e z) (fc_p z) (ps_k s)) = (tasks (ps_k s))(fc_p z := (tasks (ps_k s) (fc_p z))\<lparr>t_uclamp_req := u\<rparr>)"
    using post_fork_task by blast
  note r = attach_reads [where s = s and z = z] oom_reads
  show "\<exists>u. tasks (ps_k s') (fc_p z) = (tasks (ps_k s) (fc_p z))\<lparr>t_uclamp_req := u, t_my_fixed_priority := 0\<rparr>"
    by (rule exI [of _ u]) (simp add: s'_def fork_finish_def Let_def r u)
  show "q \<noteq> fc_p z \<Longrightarrow> tasks (ps_k s') q = tasks (ps_k s) q" by (simp add: s'_def fork_finish_def Let_def r u upd_task_def)
  show "ps_refs s' = ps_refs s" "(ps_proc s' q)\<lparr>pr_children := []\<rparr> = (ps_proc s q)\<lparr>pr_children := []\<rparr>"
    "nr_threads s' = nr_threads s + of_bool (t_pid (tasks (ps_k s) (fc_p z)) \<noteq> 0)" "total_forks s' = total_forks s + 1"
    "ps_processes s' = ps_processes (attach_task z s)"
    by (simp_all add: s'_def fork_finish_def Let_def r upd_k_def)
qed

text \<open>The parent, the signal of its end and the filter.\<close>

lemma late_state_proc:
  assumes "fork_sched_law (fc_x z)" and "fc_p z \<noteq> cur s"
  defines "r \<equiv> ps_proc (late_state z s) (fc_p z)"
  shows "pr_seccomp r = pr_seccomp (ps_proc s (cur s))"
    "pr_real_parent r = (if has z CLONE_PARENT \<or> has z CLONE_THREAD then pr_real_parent (ps_proc s (cur s)) else cur s)"
    "has z CLONE_THREAD \<Longrightarrow> pr_exit_signal r = - 1"
    "\<not> has z CLONE_PARENT \<Longrightarrow> \<not> has z CLONE_THREAD \<Longrightarrow> pr_exit_signal r = ca_exit_signal (fc_args z)"
proof -
  have c: "fc_p z \<noteq> cur (add_ref (Ext Cgroup (fc_p z)) s)" using assms(2) by simp
  show "pr_seccomp r = pr_seccomp (ps_proc s (cur s))"
    using late_mid_net(3,4) [OF assms(1) c] assms(2) by (simp add: r_def late_state_def copy_seccomp_def Let_def split: option.split)
  have "cur (upd_k (sched_cgroup_fork (fc_x z) n (fc_p z)) u) = cur u" for n u by (simp add: cur_def cgroup_fork_keeps(2) [OF assms(1)])
  then show "pr_real_parent r = (if has z CLONE_PARENT \<or> has z CLONE_THREAD then pr_real_parent (ps_proc s (cur s)) else cur s)"
    "has z CLONE_THREAD \<Longrightarrow> pr_exit_signal r = - 1"
    "\<not> has z CLONE_PARENT \<Longrightarrow> \<not> has z CLONE_THREAD \<Longrightarrow> pr_exit_signal r = ca_exit_signal (fc_args z)"
    using assms(2) by (auto simp: r_def late_state_def copy_seccomp_def stage_parent_def stage_cgroup_fork_def Let_def split: option.split)
qed

subsection \<open>Success\<close>

text \<open>A run that returns a task, cut at its stages.\<close>

lemma copy_process_success:
  assumes "fork_law f" and "fork_sched_law x"
    and "pr_fs (ps_proc s (cur s)) \<noteq> None" and "pr_sighand (ps_proc s (cur s)) \<noteq> None"
    and "copy_process e x g f init_pid args s = (Inr p, s')"
  obtains z s1 s2 where "z = \<lparr>fc_e = e, fc_x = x, fc_g = g, fc_f = f, fc_args = args, fc_init_pid = init_pid, fc_p = p\<rparr>"
    and "dup_task_struct f s = (Some p, s1)" and "run_stages (map fst fork_stages @ late_stages) z s1 = (None, s2)" and "s' = fork_finish z s2"
    and "p \<noteq> cur s" and "bystander p s s1" and "bystander p s s2"
    and "\<And>b. net z cancel_cgroup s2 b = ps_refs s b + filter_of s (cur s) b"
proof -
  define z where "z = \<lparr>fc_e = e, fc_x = x, fc_g = g, fc_f = f, fc_args = args, fc_init_pid = init_pid, fc_p = p\<rparr>"
  have z: "fc_f z = f" "fc_x z = x" "fc_p z = p" by (simp_all add: z_def)
  obtain s1 s2 where d: "dup_task_struct f s = (Some p, s1)" and run: "run_stages (map fst fork_stages @ late_stages) z s1 = (None, s2)"
    and s': "s' = fork_finish z s2"
    using assms(5) unfolding copy_process_def z_def by (auto simp: Let_def split: if_splits prod.splits option.splits)
  have laws: "fork_law (fc_f z)" "fork_sched_law (fc_x z)" and d': "dup_task_struct (fc_f z) s = (Some (fc_p z), s1)"
    using assms(1,2) d by (simp_all add: z)
  note start = dup_some [OF laws(1) d' assms(3,4)] and fr = fork_run [OF laws]
  have "filter_of s1 (cur s1) b = filter_of s (cur s) b" for b using start(4,5) by (auto simp: filter_of_def bystander_def)
  then show ?thesis
    using that [OF z_def d run s'] start fr(1,2) [OF start(1,2) run] bystander_trans [OF start(4) fr(1) [OF start(1,2) run]] by (simp add: z)
qed

lemma dup_child:
  assumes "dup_task_struct (fc_f z) s = (Some (fc_p z), s1)" and "fc_p z \<noteq> cur s"
    and "prio_wf (fc_e z) (tasks (ps_k s) (cur s))" and "weight_wf (fc_e z) (tasks (ps_k s) (cur s))"
  shows "child 0 z s s1"
proof -
  let ?s0 = "add_ref (Ext Stack (fc_p z)) (add_ref (Ext Task_struct (fc_p z)) s)"
  have s1: "s1 = dup_fields (fc_f z) (fc_p z) ?s0" using assms(1) by (auto simp: dup_task_struct_def Let_def split: option.splits if_splits)
  have "ps_proc s1 (fc_p z) = (ps_proc s (cur s))\<lparr>pr_seccomp := None, pr_worker_private := False\<rparr>"
    using assms(2) unfolding s1 by (subst dup_fields_proc) simp_all
  moreover have "sched_copy (fc_e z) (tasks (ps_k s) (cur s)) (tasks (ps_k s1) (fc_p z))"
    using assms(2-4)
    by (auto simp: s1 dup_fields_def Let_def dup_user_cpus_ptr_def upd_task_def sched_copy_def prio_wf_def normal_prio_def weight_wf_def split: option.split)
  ultimately show ?thesis by (simp add: child_def)
qed

lemma copy_process_built:
  assumes "prio_h e" and "policy_h e" and "fork_law f" and "fork_sched_law x"
    and "pr_fs (ps_proc s (cur s)) \<noteq> None" and "pr_sighand (ps_proc s (cur s)) \<noteq> None"
    and "prio_wf e (tasks (ps_k s) (cur s))" and "weight_wf e (tasks (ps_k s) (cur s))"
    and "copy_process e x g f init_pid args s = (Inr p, s')"
  obtains z where "z = \<lparr>fc_e = e, fc_x = x, fc_g = g, fc_f = f, fc_args = args, fc_init_pid = init_pid, fc_p = p\<rparr>"
    and "p \<noteq> cur s" and "child 7 z s s'" and "t_my_fixed_priority (tasks (ps_k s') p) = 0"
proof -
  from copy_process_success [OF assms(3-6,9)]
  obtain z s1 s2 where z: "z = \<lparr>fc_e = e, fc_x = x, fc_g = g, fc_f = f, fc_args = args, fc_init_pid = init_pid, fc_p = p\<rparr>"
    and d: "dup_task_struct f s = (Some p, s1)" and run: "run_stages (map fst fork_stages @ late_stages) z s1 = (None, s2)" and s': "s' = fork_finish z s2"
    and p: "p \<noteq> cur s" and by1: "bystander p s s1" by metis
  have zs: "fc_f z = f" "fc_x z = x" "fc_p z = p" "fc_e z = e" by (simp_all add: z)
  have "child 0 z s s1" by (rule dup_child) (use d p assms(7,8) in \<open>simp_all add: zs\<close>)
  then have c: "child 7 z s s2" using moves_all [of z] assms(1-4) run p by1 unfolding moves_def by (simp add: zs)
  obtain u where t: "tasks (ps_k s') p = (tasks (ps_k s2) p)\<lparr>t_uclamp_req := u, t_my_fixed_priority := 0\<rparr>"
    using finish_reads(1) [of z s2] unfolding s' zs by blast
  note pr = arg_cong [OF finish_reads(4) [of z s2 "fc_p z", folded s']]
  have "sched_new e t0 (t\<lparr>t_uclamp_req := u, t_my_fixed_priority := 0\<rparr>) = sched_new e t0 t" for t0 t
    by (simp add: sched_new_def prio_wf_def normal_prio_def weight_wf_def)
  then have "child 7 z s s'"
    using c pr [of pr_files] pr [of pr_fs] pr [of pr_sighand] pr [of pr_signal] pr [of pr_group_leader] by (simp add: child_def place_def t zs)
  then show ?thesis using that [OF z p] t by (simp add: zs)
qed


text \<open>
  C20.  What the new task shares with its parent is what the flags say: the address space, the tables of files, of the
  file system and of signal handlers.  With \<^verbatim>\<open>CLONE_THREAD\<close> it is in the parent's thread group and has its signal
  structure, otherwise it leads a group of its own.
\<close>

theorem copy_process_shares:
  assumes "prio_h e" and "policy_h e" and "fork_law f" and "fork_sched_law x"
    and "pr_fs (ps_proc s (cur s)) \<noteq> None" and "pr_sighand (ps_proc s (cur s)) \<noteq> None"
    and "prio_wf e (tasks (ps_k s) (cur s))" and "weight_wf e (tasks (ps_k s) (cur s))"
    and "copy_process e x g f init_pid args s = (Inr p, s')"
  defines "r \<equiv> ps_proc s' p" and "c \<equiv> ps_proc s (cur s)" and "t \<equiv> tasks (ps_k s') p" and "t0 \<equiv> tasks (ps_k s) (cur s)"
    and "on \<equiv> \<lambda>flag. flag_set (ca_flags args) (flag g)"
  shows "(on CLONE_VM \<longrightarrow> t_mm t = t_mm t0) \<and> (on CLONE_FILES \<longrightarrow> pr_files r = pr_files c) \<and> (on CLONE_FS \<longrightarrow> pr_fs r = pr_fs c) \<and>
    (on CLONE_SIGHAND \<longrightarrow> pr_sighand r = pr_sighand c) \<and>
    (on CLONE_THREAD \<longrightarrow> pr_signal r = pr_signal c \<and> t_tgid t = t_tgid t0 \<and> pr_group_leader r = pr_group_leader c) \<and>
    (\<not> on CLONE_THREAD \<longrightarrow> t_tgid t = t_pid t \<and> pr_group_leader r = p)"
proof -
  from copy_process_built [OF assms(1-9)]
  obtain z where z: "z = \<lparr>fc_e = e, fc_x = x, fc_g = g, fc_f = f, fc_args = args, fc_init_pid = init_pid, fc_p = p\<rparr>" and "child 7 z s s'" .
  then show ?thesis by (simp add: child_def place_def has_def z r_def c_def t_def t0_def on_def)
qed

lemma owed_finish:
  "owed_at z m (fork_finish z s) b = owed_at z m s b"
proof -
  obtain u where t: "tasks (ps_k (fork_finish z s)) (fc_p z) = (tasks (ps_k s) (fc_p z))\<lparr>t_uclamp_req := u, t_my_fixed_priority := 0\<rparr>"
    using finish_reads(1) by blast
  note pr = arg_cong [OF finish_reads(4) [of z s "fc_p z"]]
  show ?thesis
    by (rule owed_reads) (use pr [of pr_files] pr [of pr_fs] pr [of pr_sighand] pr [of pr_signal] pr [of pr_thread_pid] pr [of pr_io_context]
      pr [of pr_worker_private] in \<open>simp_all add: t\<close>)
qed


subsection \<open>The sample\<close>

lemmas sample_child = v5_17_prio.prio_h_axioms v5_17_policy.policy_h_axioms sample_law plain_fork_law sample_dup(4,5,7,8)


theorem copy_process_shares_witness:
  "\<exists>s'. sample_copy False = (Inr 9, s') \<and> pr_fs (ps_proc s' 9) = Some 1 \<and> pr_signal (ps_proc s' 9) = Some 1 \<and> pr_group_leader (ps_proc s' 9) = 5"
proof -
  obtain s' where s': "sample_copy False = (Inr 9, s')" using sample_ends(3) by blast
  have "flag_set (ca_flags (sample_args 0x10f00)) (CLONE_FS cenv_v5_17)" "flag_set (ca_flags (sample_args 0x10f00)) (CLONE_THREAD cenv_v5_17)"
    by (simp_all add: flag_set_def sample_args_def v5_17_clone.clone_h_simps)
  then show ?thesis using copy_process_shares [OF sample_child s'] s' by (simp add: sample_proc_def)
qed


end
