(* ===== verification/Clone.thy ===== *)
theory Clone
  imports Fork_Child
begin

text \<open>
  The entry points of \<^verbatim>\<open>Project 2/fork.c\<close>: \<^verbatim>\<open>kernel_clone\<close> and the system calls that create tasks (lines 2475 to 2843),
  and the limit on the number of threads (769 to 788 and 3158 to 3179).
\<close>

subsection \<open>Code outside\<close>

text \<open>
  \<^verbatim>\<open>struct clone_args\<close> of the user interface, the functions of other files and what the calls do that is not in the
  state: a store to user memory, whose result is ignored, and events for the tracer.
\<close>

record clone_args =
  ua_flags :: u64
  ua_pidfd :: u64
  ua_child_tid :: u64
  ua_parent_tid :: u64
  ua_exit_signal :: u64
  ua_stack :: u64
  ua_stack_size :: u64
  ua_tls :: u64
  ua_set_tid :: u64
  ua_set_tid_size :: u64
  ua_cgroup :: u64

datatype ptrace_event = Event_fork | Event_vfork | Event_clone | Event_vfork_done

datatype clone_event = Put_user u64 nat | Ptrace ptrace_event nat

record cloneops =
  co_pid_vnr :: "nat \<Rightarrow> pstate \<Rightarrow> nat"
  co_ptrace_event_enabled :: "ptrace_event \<Rightarrow> pstate \<Rightarrow> bool"
  co_copy_struct_from_user :: "u64 \<Rightarrow> nat \<Rightarrow> pstate \<Rightarrow> clone_args result"
  co_copy_from_user :: "u64 \<Rightarrow> nat \<Rightarrow> pstate \<Rightarrow> bool"
  co_access_ok :: "u64 \<Rightarrow> u64 \<Rightarrow> bool"
  co_page_size :: nat
  co_single_threaded :: "pstate \<Rightarrow> bool" \<comment> \<open>\<^verbatim>\<open>current_is_single_threaded\<close>\<close>
  co_unshare_userns :: "u64 \<Rightarrow> pstate \<Rightarrow> nat option result" \<comment> \<open>new credentials, if any\<close>
  co_unshare_nsproxy :: "u64 \<Rightarrow> nat option \<Rightarrow> nat option \<Rightarrow> pstate \<Rightarrow> nat option result"
  co_set_cred_ucounts :: "nat \<Rightarrow> pstate \<Rightarrow> errno option"
  co_exit_sem :: "pstate \<Rightarrow> pstate"
  co_exit_shm :: "pstate \<Rightarrow> pstate"
  co_switch_task_namespaces :: "nat \<Rightarrow> pstate \<Rightarrow> pstate"
  co_commit_creds :: "nat \<Rightarrow> pstate \<Rightarrow> pstate"

subsection \<open>kernel\_clone\<close>

definition clone_trace :: "cenv \<Rightarrow> cloneops \<Rightarrow> kernel_clone_args \<Rightarrow> pstate \<Rightarrow> ptrace_event option" where
  "clone_trace g co args s =
     (if flag_set (ca_flags args) (CLONE_UNTRACED g) then None
      else let trace = (if flag_set (ca_flags args) (CLONE_VFORK g) then Event_vfork
                        else if ca_exit_signal args \<noteq> int (SIGCHLD g) then Event_clone
                        else Event_fork)
           in if \<not> co_ptrace_event_enabled co trace s then None else Some trace)"

definition kernel_clone ::
  "kenv \<Rightarrow> kops \<Rightarrow> cenv \<Rightarrow> forkops \<Rightarrow> cloneops \<Rightarrow> kernel_clone_args \<Rightarrow> pstate \<Rightarrow> (nat result \<times> clone_event list \<times> pstate) option" where
  "kernel_clone e x g f co args s =
     (if flag_set (ca_flags args) (CLONE_PIDFD g) \<and> flag_set (ca_flags args) (CLONE_PARENT_SETTID g) \<and> ca_pidfd args = ca_parent_tid args
      then Some (Inl EINVAL, [], s)
      else let trace = clone_trace g co args s
           in case copy_process e x g f False args s of
                (Inl err, s) \<Rightarrow> Some (Inl err, [], s)
              | (Inr p, s) \<Rightarrow>
                  let pid = the (pr_thread_pid (ps_proc s p));
                      s = add_ref (Pid pid) s;
                      nr = co_pid_vnr co pid s;
                      ev = (if flag_set (ca_flags args) (CLONE_PARENT_SETTID g) then [Put_user (ca_parent_tid args) nr] else []);
                      vfork = flag_set (ca_flags args) (CLONE_VFORK g);
                      s = (if vfork then upd_k (get_task_struct p) (upd_proc p (\<lambda>r. r\<lparr>pr_vfork_done := Some p\<rparr>) s) else s)
                  in case wake_up_new_task e x p (ps_k s) of
                       None \<Rightarrow> None
                     | Some k \<Rightarrow>
                         let s = s\<lparr>ps_k := k\<rparr>;
                             ev = ev @ (case trace of None \<Rightarrow> [] | Some t \<Rightarrow> [Ptrace t pid]);
                             (killed, s) = (if vfork then wait_for_vfork_done f p s else (False, s));
                             ev = ev @ (if vfork \<and> \<not> killed then [Ptrace Event_vfork_done pid] else [])
                         in Some (Inr nr, ev, put_pid pid s))"

text \<open>The arguments that the callers make.  \<^verbatim>\<open>lower_32_bits\<close> cuts off the upper half.\<close>

definition lower_32_bits :: "u64 \<Rightarrow> u64" where
  "lower_32_bits n = n AND 0xffffffff"

definition no_args :: kernel_clone_args where
  "no_args = \<lparr>ca_flags = 0, ca_pidfd = 0, ca_child_tid = 0, ca_parent_tid = 0, ca_exit_signal = 0, ca_stack = 0, ca_stack_size = 0,
     ca_tls = 0, ca_set_tid_size = 0, ca_cgroup = 0, ca_io_thread = False\<rparr>"

definition kernel_thread_args :: "cenv \<Rightarrow> u64 \<Rightarrow> u64 \<Rightarrow> u64 \<Rightarrow> kernel_clone_args" where
  "kernel_thread_args g fn arg flags = no_args\<lparr>ca_flags := (lower_32_bits flags OR CLONE_VM g OR CLONE_UNTRACED g) AND NOT (CSIGNAL g),
     ca_exit_signal := uint (lower_32_bits flags AND CSIGNAL g), ca_stack := fn, ca_stack_size := arg\<rparr>"

definition kernel_thread where
  "kernel_thread e x g f co fn arg flags s = kernel_clone e x g f co (kernel_thread_args g fn arg flags) s"

definition create_io_thread :: "kenv \<Rightarrow> kops \<Rightarrow> cenv \<Rightarrow> forkops \<Rightarrow> u64 \<Rightarrow> u64 \<Rightarrow> pstate \<Rightarrow> tid result \<times> pstate" where
  "create_io_thread e x g f fn arg s =
     (let flags = CLONE_FS g OR CLONE_FILES g OR CLONE_SIGHAND g OR CLONE_THREAD g OR CLONE_IO g
      in copy_process e x g f False ((kernel_thread_args g fn arg flags)\<lparr>ca_io_thread := True\<rparr>) s)"

text \<open>\<^verbatim>\<open>init_idle_pids\<close> makes \<^verbatim>\<open>init_struct_pid\<close>, the \<open>init_pid\<close> below, the pid of the task.\<close>

definition fork_idle :: "kenv \<Rightarrow> kops \<Rightarrow> cenv \<Rightarrow> forkops \<Rightarrow> string \<Rightarrow> u64 \<Rightarrow> nat \<Rightarrow> cpu \<Rightarrow> pstate \<Rightarrow> tid result \<times> pstate" where
  "fork_idle e x g f comm clock init_pid c s =
     (case copy_process e x g f True (no_args\<lparr>ca_flags := CLONE_VM g\<rparr>) s of
        (Inl err, s) \<Rightarrow> (Inl err, s)
      | (Inr p, s) \<Rightarrow> (Inr p, upd_k (init_idle e x comm clock p c) (upd_proc p (\<lambda>r. r\<lparr>pr_thread_pid := Some init_pid\<rparr>) s)))"

definition copy_init_mm :: "forkops \<Rightarrow> nat \<Rightarrow> pstate \<Rightarrow> nat option \<times> pstate" where
  "copy_init_mm f init_mm s = dup_mm f init_mm s"

subsection \<open>The system calls\<close>

definition sys_fork where
  "sys_fork e x g f co s = kernel_clone e x g f co (no_args\<lparr>ca_exit_signal := int (SIGCHLD g)\<rparr>) s"

definition sys_vfork where
  "sys_vfork e x g f co s = kernel_clone e x g f co (no_args\<lparr>ca_flags := CLONE_VFORK g OR CLONE_VM g, ca_exit_signal := int (SIGCHLD g)\<rparr>) s"

definition sys_clone_args :: "cenv \<Rightarrow> u64 \<Rightarrow> u64 \<Rightarrow> u64 \<Rightarrow> u64 \<Rightarrow> u64 \<Rightarrow> kernel_clone_args" where
  "sys_clone_args g clone_flags newsp parent_tidptr child_tidptr tls =
     no_args\<lparr>ca_flags := lower_32_bits clone_flags AND NOT (CSIGNAL g), ca_pidfd := parent_tidptr, ca_child_tid := child_tidptr,
       ca_parent_tid := parent_tidptr, ca_exit_signal := uint (lower_32_bits clone_flags AND CSIGNAL g), ca_stack := newsp, ca_tls := tls\<rparr>"

definition sys_clone where
  "sys_clone e x g f co clone_flags newsp parent_tidptr child_tidptr tls s =
     kernel_clone e x g f co (sys_clone_args g clone_flags newsp parent_tidptr child_tidptr tls) s"

definition valid_signal :: "cenv \<Rightarrow> u64 \<Rightarrow> bool" where
  "valid_signal g sig \<longleftrightarrow> unat sig \<le> NSIG g"

definition copy_clone_args_from_user :: "cenv \<Rightarrow> cloneops \<Rightarrow> u64 \<Rightarrow> nat \<Rightarrow> pstate \<Rightarrow> kernel_clone_args result" where
  "copy_clone_args_from_user g co uargs usize s =
     (if usize > co_page_size co then Inl E2BIG
      else if usize < CLONE_ARGS_SIZE_VER0 g then Inl EINVAL
      else case co_copy_struct_from_user co uargs usize s of
             Inl err \<Rightarrow> Inl err
           | Inr a \<Rightarrow>
               if unat (ua_set_tid_size a) > MAX_PID_NS_LEVEL g then Inl EINVAL
               else if ua_set_tid a = 0 \<and> ua_set_tid_size a > 0 then Inl EINVAL
               else if ua_set_tid a \<noteq> 0 \<and> ua_set_tid_size a = 0 then Inl EINVAL
               else if flag_set (ua_exit_signal a) (NOT (CSIGNAL g)) \<or> \<not> valid_signal g (ua_exit_signal a) then Inl EINVAL
               else if flag_set (ua_flags a) (CLONE_INTO_CGROUP g) \<and> (ua_cgroup a > 0x7fffffff \<or> usize < CLONE_ARGS_SIZE_VER2 g) then Inl EINVAL
               else if ua_set_tid a \<noteq> 0 \<and> \<not> co_copy_from_user co (ua_set_tid a) (unat (ua_set_tid_size a) * 4) s then Inl EFAULT
               else Inr \<lparr>ca_flags = ua_flags a, ca_pidfd = ua_pidfd a, ca_child_tid = ua_child_tid a, ca_parent_tid = ua_parent_tid a,
                      ca_exit_signal = uint (ua_exit_signal a), ca_stack = ua_stack a, ca_stack_size = ua_stack_size a, ca_tls = ua_tls a,
                      ca_set_tid_size = unat (ua_set_tid_size a), ca_cgroup = uint (ua_cgroup a), ca_io_thread = False\<rparr>)"

text \<open>\<^verbatim>\<open>kargs->stack\<close> is moved to the end of the stack; the addition wraps.\<close>

definition clone3_stack_valid :: "cloneops \<Rightarrow> kernel_clone_args \<Rightarrow> kernel_clone_args option" where
  "clone3_stack_valid co args =
     (if ca_stack args = 0 then if ca_stack_size args > 0 then None else Some args
      else if ca_stack_size args = 0 then None
      else if \<not> co_access_ok co (ca_stack args) (ca_stack_size args) then None
      else Some (args\<lparr>ca_stack := ca_stack args + ca_stack_size args\<rparr>))"

definition clone3_args_valid :: "cenv \<Rightarrow> cloneops \<Rightarrow> kernel_clone_args \<Rightarrow> kernel_clone_args option" where
  "clone3_args_valid g co args =
     (if flag_set (ca_flags args) (NOT (CLONE_LEGACY_FLAGS g OR CLONE_CLEAR_SIGHAND g OR CLONE_INTO_CGROUP g)) then None
      else if flag_set (ca_flags args) (CLONE_DETACHED g OR CSIGNAL g) then None
      else if has_all (ca_flags args) (CLONE_SIGHAND g OR CLONE_CLEAR_SIGHAND g) then None
      else if flag_set (ca_flags args) (CLONE_THREAD g OR CLONE_PARENT g) \<and> ca_exit_signal args \<noteq> 0 then None
      else clone3_stack_valid co args)"

definition sys_clone3 where
  "sys_clone3 e x g f co uargs usize s =
     (case copy_clone_args_from_user g co uargs usize s of
        Inl err \<Rightarrow> Some (Inl err, [], s)
      | Inr args \<Rightarrow>
          (case clone3_args_valid g co args of
             None \<Rightarrow> Some (Inl EINVAL, [], s)
           | Some args \<Rightarrow> kernel_clone e x g f co args s))"

subsection \<open>The limit on the number of threads\<close>

definition MIN_THREADS :: nat where
  "MIN_THREADS = 20"

text \<open>The position of the last bit that is set.\<close>

fun fls64 :: "nat \<Rightarrow> nat" where
  "fls64 n = (if n = 0 then 0 else Suc (fls64 (n div 2)))"

declare fls64.simps [simp del]

text \<open>\<^verbatim>\<open>MAX_THREADS\<close> is \<^verbatim>\<open>FUTEX_TID_MASK\<close>; the sizes are those of the architecture.\<close>

definition set_max_threads :: "u64 \<Rightarrow> u64 \<Rightarrow> u64 \<Rightarrow> u64 \<Rightarrow> u64 \<Rightarrow> pstate \<Rightarrow> pstate" where
  "set_max_threads max_limit page_size thread_size nr_pages suggested s =
     (let threads = (if fls64 (unat nr_pages) + fls64 (unat page_size) > 64 then max_limit
                     else (nr_pages * page_size) div (thread_size * 8));
          threads = (if threads > suggested then suggested else threads)
      in s\<lparr>max_threads := uint (clamp threads (word_of_nat MIN_THREADS) max_limit)\<rparr>)"

text \<open>\<open>proc\<close> is \<^verbatim>\<open>proc_dointvec_minmax\<close> on the copy of the value, with its bounds: an error, or the value it leaves.\<close>

definition sysctl_max_threads :: "u64 \<Rightarrow> (int \<Rightarrow> int \<Rightarrow> int \<Rightarrow> int result) \<Rightarrow> bool \<Rightarrow> pstate \<Rightarrow> errno option \<times> pstate" where
  "sysctl_max_threads max_limit proc write s =
     (case proc 1 (uint max_limit) (max_threads s) of
        Inl err \<Rightarrow> (Some err, s)
      | Inr threads \<Rightarrow> if \<not> write then (None, s) else (None, s\<lparr>max_threads := threads\<rparr>))"

subsection \<open>The new task starts to run\<close>

lemma finish_cpus: "cpus_of (fork_finish z s) = cpus_of s"
proof -
  have "kfix (sched_post_fork e p k) = kfix k" for e p k
    by (simp add: sched_post_fork_def uclamp_post_fork_def uclamp_update_util_min_rt_default_def upd_task_def kfix_def)
  then show ?thesis by (simp add: fork_finish_def Let_def cpus_of_def oom_reads attach_reads(1) upd_task_def kfix_def)
qed

text \<open>The new task can use the CPUs that its parent can.\<close>

lemma copy_process_refuge:
  assumes "prio_h e" and "policy_h e" and "fork_law f" and "fork_sched_law x"
    and "pr_fs (ps_proc s (cur s)) \<noteq> None" and "pr_sighand (ps_proc s (cur s)) \<noteq> None"
    and "prio_wf e (tasks (ps_k s) (cur s))" and "weight_wf e (tasks (ps_k s) (cur s))"
    and "copy_process e x g f init_pid args s = (Inr p, s')"
    and "refuge x (cur s) (ps_k s) c" and "c \<in> task_cpu_possible_mask x p"
  shows "refuge x p (ps_k s') c" "t_my_fixed_priority (tasks (ps_k s') p) = 0"
proof -
  from copy_process_built [OF assms(1-9)]
  obtain z where z: "z = \<lparr>fc_e = e, fc_x = x, fc_g = g, fc_f = f, fc_args = args, fc_init_pid = init_pid, fc_p = p\<rparr>" and "child 7 z s s'"
    and fp: "t_my_fixed_priority (tasks (ps_k s') p) = 0" .
  then have t: "t_cpus_ptr (tasks (ps_k s') p) = t_cpus_ptr (tasks (ps_k s) (cur s))"
    "t_migration_disabled (tasks (ps_k s') p) = t_migration_disabled (tasks (ps_k s) (cur s))"
    by (simp_all add: child_def sched_new_def)
  from copy_process_success [OF assms(3-6,9)] obtain z s2 where "s' = fork_finish z s2" and "bystander p s s2" by metis
  then have "cpus_of s' = cpus_of s" by (simp add: finish_cpus bystander_def)
  then show "refuge x p (ps_k s') c" using t assms(10,11) by (simp add: refuge_def cpus_of_def)
  show "t_my_fixed_priority (tasks (ps_k s') p) = 0" by (rule fp)
qed

lemma refs_add_sub: "ps_refs (sub_ref b (s'\<lparr>ps_k := k\<rparr>)) = ps_refs s" if "s' = add_ref b s"
  by (rule ext) (simp add: that sub_ref_def add_ref_def)


subsection \<open>Checks of the arguments\<close>

lemma uint_le_int: "unat w \<le> n \<Longrightarrow> uint w \<le> int n"
  by (metis of_nat_le_iff uint_nat)

text \<open>
  C38.  The exit signal is checked by one of the two system calls only.  What \<^verbatim>\<open>clone3\<close> passes on is a valid signal number,
  and zero for a thread or sibling; but every number below 256, also those above the last signal, is passed on by \<^verbatim>\<open>clone\<close>.
\<close>

theorem clone_exit_signal:
  assumes "clone_h g"
  shows "(\<forall>args args'. copy_clone_args_from_user g co uargs usize s = Inr args \<longrightarrow> clone3_args_valid g co args = Some args' \<longrightarrow>
      0 \<le> ca_exit_signal args' \<and> ca_exit_signal args' \<le> int (NSIG g) \<and>
      (flag_set (ca_flags args') (CLONE_THREAD g OR CLONE_PARENT g) \<longrightarrow> ca_exit_signal args' = 0)) \<and>
    (\<forall>n < 256. ca_exit_signal (sys_clone_args g (word_of_nat n) newsp ptid ctid tls) = int n)"
proof (intro conjI allI impI)
  fix args args' assume a: "copy_clone_args_from_user g co uargs usize s = Inr args" and b: "clone3_args_valid g co args = Some args'"
  have v: "0 \<le> ca_exit_signal args" "ca_exit_signal args \<le> int (NSIG g)"
    using a uint_le_int by (auto simp: copy_clone_args_from_user_def valid_signal_def split: if_split_asm sum.split_asm)
  have c: "ca_exit_signal args' = ca_exit_signal args" "ca_flags args' = ca_flags args"
    using b by (auto simp: clone3_args_valid_def clone3_stack_valid_def split: if_splits)
  show "0 \<le> ca_exit_signal args'" "ca_exit_signal args' \<le> int (NSIG g)" using v c by simp_all
  show "flag_set (ca_flags args') (CLONE_THREAD g OR CLONE_PARENT g) \<Longrightarrow> ca_exit_signal args' = 0"
    using b c by (auto simp: clone3_args_valid_def split: if_splits)
next
  fix n :: nat assume n: "n < 256"
  have m: "w AND mask i = w" if "unat w < 2 ^ i" for w :: u64 and i
    using that by (intro word_unat_eq_iff [THEN iffD2]) (simp add: unsigned_take_bit_eq take_bit_nat_eq_self flip: take_bit_eq_mask)
  have "((word_of_nat n :: u64) AND mask 32) AND mask 8 = word_of_nat n"
    using n m [of "word_of_nat n" 32] m [of "word_of_nat n" 8] by (simp add: unat_of_nat)
  moreover have "(0xffffffff :: u64) = mask 32" "(0xff :: u64) = mask 8" by (simp_all add: mask_eq_exp_minus_1)
  ultimately show "ca_exit_signal (sys_clone_args g (word_of_nat n) newsp ptid ctid tls) = int n"
    using n by (simp add: sys_clone_args_def lower_32_bits_def clone_h.CSIGNAL [OF assms]) (simp add: uint_nat unat_of_nat)
qed

subsection \<open>The number of threads\<close>

lemma fls_bound: "n < 2 ^ fls64 n"
proof (induction n rule: fls64.induct)
  case (1 n)
  show ?case
  proof (cases "n = 0")
    case False
    then have "n div 2 < 2 ^ fls64 (n div 2)" using 1 by simp
    then have "n < 2 * 2 ^ fls64 (n div 2)" by linarith
    then show ?thesis using False by (subst fls64.simps) simp
  qed simp
qed

text \<open>
  C25.  The limit on the number of threads is between 20 and \<^verbatim>\<open>MAX_THREADS\<close>, and it is the exact share of the memory: the test with
  \<^verbatim>\<open>fls64\<close> keeps the product of pages and page size from wrapping around.
\<close>

theorem set_max_threads_exact:
  assumes "20 \<le> unat max_limit" and "0 < unat thread_size" and "unat thread_size < 2 ^ 60"
    and share_def: "share = (if fls64 (unat nr_pages) + fls64 (unat page_size) > 64 then unat max_limit
      else unat nr_pages * unat page_size div (unat thread_size * 8))"
  shows "max_threads (set_max_threads max_limit page_size thread_size nr_pages suggested s) =
      int (clamp (min share (unat suggested)) 20 (unat max_limit))"
proof -
  let ?small = "\<not> fls64 (unat nr_pages) + fls64 (unat page_size) > 64"
  have prod: "unat (nr_pages * page_size) = unat nr_pages * unat page_size" if ?small
  proof -
    have "unat nr_pages * unat page_size < 2 ^ fls64 (unat nr_pages) * 2 ^ fls64 (unat page_size)"
      using fls_bound by (intro mult_strict_mono') auto
    also have "\<dots> = 2 ^ (fls64 (unat nr_pages) + fls64 (unat page_size))" by (rule power_add [symmetric])
    also have "\<dots> \<le> 2 ^ 64" using that by (intro power_increasing) simp_all
    finally show ?thesis by (simp add: unat_mult_lem [THEN iffD1])
  qed
  have ts: "unat (thread_size * 8) = unat thread_size * 8"
    using assms(3) by (intro unat_mult_lem [THEN iffD1, of thread_size 8, simplified]) simp
  define share_w where "share_w = (if fls64 (unat nr_pages) + fls64 (unat page_size) > 64 then max_limit else (nr_pages * page_size) div (thread_size * 8))"
  have sh: "unat share_w = share"
    using prod by (auto simp: share_w_def share_def unat_div ts)
  have w: "unat (clamp t (word_of_nat MIN_THREADS) max_limit) = clamp (unat t) 20 (unat max_limit)" for t
    by (simp add: clamp_def MIN_THREADS_def min_def max_def word_le_nat_alt)
  have "max_threads (set_max_threads max_limit page_size thread_size nr_pages suggested s) =
      int (unat (clamp (if share_w > suggested then suggested else share_w) (word_of_nat MIN_THREADS) max_limit))"
    by (simp add: set_max_threads_def Let_def share_w_def)
  then show ?thesis unfolding w by (simp add: min_def word_less_nat_alt sh)
qed

subsection \<open>Samples\<close>

definition plain_cloneops :: "errno option \<Rightarrow> cloneops" where
  "plain_cloneops err = \<lparr>co_pid_vnr = (\<lambda>n _. n), co_ptrace_event_enabled = (\<lambda>_ _. False), co_copy_struct_from_user = (\<lambda>_ _ _. Inl EFAULT),
     co_copy_from_user = (\<lambda>_ _ _. True), co_access_ok = (\<lambda>_ _. True), co_page_size = 4096, co_single_threaded = (\<lambda>_. True),
     co_unshare_userns = (\<lambda>fl s. if \<not> flag_set fl 0x10000000 then Inr None else if ps_refs s (Cred 7) = 0 then Inr (Some 7) else Inl ENOMEM),
     co_unshare_nsproxy = (\<lambda>fl _ _ s. if \<not> flag_set fl 0x10000000 then Inr None else if ps_refs s (Nsproxy 7) = 0 then Inr (Some 7) else Inl ENOMEM),
     co_set_cred_ucounts = (\<lambda>_ _. err), co_exit_sem = id, co_exit_shm = id, co_switch_task_namespaces = (\<lambda>_. id), co_commit_creds = (\<lambda>_. id)\<rparr>"

theorem clone_exit_signal_witness:
  "ca_exit_signal (sys_clone_args cenv_v5_17 200 0 0 0 0) = 200 \<and> NSIG cenv_v5_17 = 64"
  using clone_exit_signal [OF v5_17_clone.clone_h_axioms, THEN conjunct2, rule_format, of 200] by (simp add: v5_17_clone.clone_h_simps)

theorem set_max_threads_exact_witness:
  "max_threads (set_max_threads 0x3fffffff 4096 16384 0x100000 0x3fffffff (sample_pstate sample_fork_kernel)) = 32768"
proof -
  have "fls64 0x100000 + fls64 4096 = 34" by (simp add: fls64.simps)
  then show ?thesis
    using set_max_threads_exact [of "0x3fffffff" 16384 32768 "0x100000" 4096 "0x3fffffff" "sample_pstate sample_fork_kernel"] by (simp add: clamp_def)
qed


end
