(* ===== verification/Unshare.thy ===== *)
theory Unshare
  imports Clone
begin

text \<open>
  The system call \<^verbatim>\<open>unshare\<close>, \<^verbatim>\<open>Project 2/fork.c\<close> lines 2932 to 3156: the checks of the flags, the copies of shared tables,
  the installation of new objects and the labels of the error path, with the balance of references.
\<close>

subsection \<open>The call\<close>

definition thread_group_empty :: "pstate \<Rightarrow> bool" where
  "thread_group_empty s \<longleftrightarrow> length (sg_threads (ps_signal s (the (pr_signal (ps_proc s (cur s)))))) \<le> 1"

definition check_unshare_flags :: "cenv \<Rightarrow> cloneops \<Rightarrow> u64 \<Rightarrow> pstate \<Rightarrow> errno option" where
  "check_unshare_flags g co flags s =
     (if flag_set flags (NOT (CLONE_THREAD g OR CLONE_FS g OR CLONE_NEWNS g OR CLONE_SIGHAND g OR CLONE_VM g OR CLONE_FILES g OR CLONE_SYSVSEM g OR
            CLONE_NEWUTS g OR CLONE_NEWIPC g OR CLONE_NEWNET g OR CLONE_NEWUSER g OR CLONE_NEWPID g OR CLONE_NEWCGROUP g OR CLONE_NEWTIME g))
      then Some EINVAL
      else if flag_set flags (CLONE_THREAD g OR CLONE_SIGHAND g OR CLONE_VM g) \<and> \<not> thread_group_empty s then Some EINVAL
      else if flag_set flags (CLONE_SIGHAND g OR CLONE_VM g) \<and> ps_refs s (Sighand (the (pr_sighand (ps_proc s (cur s))))) > 1 then Some EINVAL
      else if flag_set flags (CLONE_VM g) \<and> \<not> co_single_threaded co s then Some EINVAL
      else None)"

text \<open>A table that is not shared is kept, which is \<open>Inr None\<close>; \<^verbatim>\<open>copy_fs_struct\<close> and \<^verbatim>\<open>dup_fd\<close> return a table with one reference.\<close>

definition unshare_fs :: "cenv \<Rightarrow> forkops \<Rightarrow> u64 \<Rightarrow> pstate \<Rightarrow> nat option result \<times> pstate" where
  "unshare_fs g f flags s =
     (case pr_fs (ps_proc s (cur s)) of
        None \<Rightarrow> (Inr None, s)
      | Some fs \<Rightarrow>
          if \<not> flag_set flags (CLONE_FS g) then (Inr None, s)
          else if ps_refs s (Fs fs) = 1 then (Inr None, s)
          else case fk_copy_fs_struct f fs s of None \<Rightarrow> (Inl ENOMEM, s) | Some n \<Rightarrow> (Inr (Some n), set_ref (Fs n) 1 s))"

definition unshare_fd :: "cenv \<Rightarrow> forkops \<Rightarrow> u64 \<Rightarrow> pstate \<Rightarrow> nat option result \<times> pstate" where
  "unshare_fd g f flags s =
     (case pr_files (ps_proc s (cur s)) of
        None \<Rightarrow> (Inr None, s)
      | Some fd \<Rightarrow>
          if flag_set flags (CLONE_FILES g) \<and> ps_refs s (Files fd) > 1
          then case fk_dup_fd f fd s of Inl err \<Rightarrow> (Inl err, s) | Inr n \<Rightarrow> (Inr (Some n), set_ref (Files n) 1 s)
          else (Inr None, s))"

text \<open>A new object, if there is one, with its first reference.\<close>

definition new_ref :: "(nat \<Rightarrow> robj) \<Rightarrow> nat option \<Rightarrow> pstate \<Rightarrow> pstate" where
  "new_ref h n s = (case n of None \<Rightarrow> s | Some m \<Rightarrow> set_ref (h m) 1 s)"

definition unshare_flags_closure :: "cenv \<Rightarrow> u64 \<Rightarrow> u64" where
  "unshare_flags_closure g flags =
     (let flags = (if flag_set flags (CLONE_NEWUSER g) then flags OR CLONE_THREAD g OR CLONE_FS g else flags);
          flags = (if flag_set flags (CLONE_VM g) then flags OR CLONE_SIGHAND g else flags);
          flags = (if flag_set flags (CLONE_SIGHAND g) then flags OR CLONE_THREAD g else flags)
      in if flag_set flags (CLONE_NEWNS g) then flags OR CLONE_FS g else flags)"

definition put_files_struct :: "nat \<Rightarrow> pstate \<Rightarrow> pstate" where
  "put_files_struct n = sub_ref (Files n)"

definition free_fs_struct :: "nat \<Rightarrow> pstate \<Rightarrow> pstate" where
  "free_fs_struct n = set_ref (Fs n) 0"

definition put_cred :: "nat \<Rightarrow> pstate \<Rightarrow> pstate" where
  "put_cred n = sub_ref (Cred n)"

text \<open>The labels at the end: \<open>new_cred\<close>, \<open>new_fd\<close> and \<open>new_fs\<close> are what the locals hold on arrival.\<close>

definition unshare_cleanup :: "nat option \<Rightarrow> nat option \<Rightarrow> nat option \<Rightarrow> pstate \<Rightarrow> pstate" where
  "unshare_cleanup new_cred new_fd new_fs s =
     (let s = (case new_cred of None \<Rightarrow> s | Some c \<Rightarrow> put_cred c s);
          s = (case new_fd of None \<Rightarrow> s | Some n \<Rightarrow> put_files_struct n s)
      in case new_fs of None \<Rightarrow> s | Some n \<Rightarrow> free_fs_struct n s)"

text \<open>
  Taking the new objects into use.  The results are what \<open>new_fs\<close> and \<open>new_fd\<close> hold afterwards: the old file system
  structure if nobody uses it any more, and the old table of files.
\<close>

definition install_fs :: "nat option \<Rightarrow> pstate \<Rightarrow> nat option \<times> pstate" where
  "install_fs new_fs s =
     (case new_fs of
        None \<Rightarrow> (None, s)
      | Some n \<Rightarrow>
          let fs = the (pr_fs (ps_proc s (cur s)));
              s = sub_ref (Fs fs) (upd_proc (cur s) (\<lambda>r. r\<lparr>pr_fs := Some n\<rparr>) s)
          in if ps_refs s (Fs fs) \<noteq> 0 then (None, s) else (Some fs, s))"

definition install_fd :: "nat option \<Rightarrow> pstate \<Rightarrow> nat option \<times> pstate" where
  "install_fd new_fd s =
     (case new_fd of None \<Rightarrow> (None, s) | Some n \<Rightarrow> (pr_files (ps_proc s (cur s)), upd_proc (cur s) (\<lambda>r. r\<lparr>pr_files := Some n\<rparr>) s))"

definition unshare_install ::
  "cenv \<Rightarrow> cloneops \<Rightarrow> u64 \<Rightarrow> nat option \<Rightarrow> nat option \<Rightarrow> nat option \<Rightarrow> nat option \<Rightarrow> pstate \<Rightarrow> nat option \<times> nat option \<times> nat option \<times> pstate" where
  "unshare_install g co flags new_cred new_nsproxy new_fd new_fs s =
     (let do_sysvsem = flag_set flags (CLONE_NEWIPC g OR CLONE_SYSVSEM g)
      in if new_fs \<noteq> None \<or> new_fd \<noteq> None \<or> do_sysvsem \<or> new_cred \<noteq> None \<or> new_nsproxy \<noteq> None
         then let s = (if do_sysvsem then co_exit_sem co s else s);
                  s = (if flag_set flags (CLONE_NEWIPC g) then co_exit_shm co s else s);
                  s = (case new_nsproxy of None \<Rightarrow> s | Some n \<Rightarrow> co_switch_task_namespaces co n s);
                  (new_fs, s) = install_fs new_fs s;
                  (new_fd, s) = install_fd new_fd s;
                  s = (case new_cred of None \<Rightarrow> s | Some c \<Rightarrow> co_commit_creds co c s)
              in (None, new_fd, new_fs, s)
         else (new_cred, new_fd, new_fs, s))"

definition ksys_unshare :: "cenv \<Rightarrow> forkops \<Rightarrow> cloneops \<Rightarrow> u64 \<Rightarrow> pstate \<Rightarrow> errno option \<times> pstate" where
  "ksys_unshare g f co unshare_flags s =
     (let flags = unshare_flags_closure g unshare_flags
      in case check_unshare_flags g co flags s of
           Some err \<Rightarrow> (Some err, s)
         | None \<Rightarrow>
             (case unshare_fs g f flags s of
                (Inl err, s) \<Rightarrow> (Some err, s)
              | (Inr new_fs, s) \<Rightarrow>
                  (case unshare_fd g f flags s of
                     (Inl err, s) \<Rightarrow> (Some err, unshare_cleanup None None new_fs s)
                   | (Inr new_fd, s) \<Rightarrow>
                       (case co_unshare_userns co flags s of
                          Inl err \<Rightarrow> (Some err, unshare_cleanup None new_fd new_fs s)
                        | Inr new_cred \<Rightarrow>
                            let s = new_ref Cred new_cred s
                            in case co_unshare_nsproxy co flags new_cred new_fs s of
                                 Inl err \<Rightarrow> (Some err, unshare_cleanup new_cred new_fd new_fs s)
                               | Inr new_nsproxy \<Rightarrow>
                                   let s = new_ref Nsproxy new_nsproxy s
                                   in case (case new_cred of None \<Rightarrow> None | Some c \<Rightarrow> co_set_cred_ucounts co c s) of
                                        Some err \<Rightarrow> (Some err, unshare_cleanup new_cred new_fd new_fs s)
                                      | None \<Rightarrow>
                                          let (new_cred, new_fd, new_fs, s) = unshare_install g co flags new_cred new_nsproxy new_fd new_fs s
                                          in (None, unshare_cleanup new_cred new_fd new_fs s)))))"

definition unshare_files :: "cenv \<Rightarrow> forkops \<Rightarrow> pstate \<Rightarrow> errno option \<times> pstate" where
  "unshare_files g f s =
     (case unshare_fd g f (CLONE_FILES g) s of
        (Inl err, s) \<Rightarrow> (Some err, s)
      | (Inr None, s) \<Rightarrow> (None, s)
      | (Inr (Some copy), s) \<Rightarrow>
          let old = the (pr_files (ps_proc s (cur s)));
              s = upd_proc (cur s) (\<lambda>r. r\<lparr>pr_files := Some copy\<rparr>) s
          in (None, put_files_struct old s))"

subsection \<open>unshare keeps the counts\<close>

text \<open>
  The namespaces and credentials that the code outside returns are new; what it does once they are in use leaves the
  tables of the tasks and their counts alone.
\<close>

definition leaves_tables :: "(pstate \<Rightarrow> pstate) \<Rightarrow> bool" where
  "leaves_tables h \<longleftrightarrow> (\<forall>s n. ps_proc (h s) = ps_proc s \<and> cur (h s) = cur s \<and> ps_refs (h s) (Fs n) = ps_refs s (Fs n) \<and>
     ps_refs (h s) (Files n) = ps_refs s (Files n))"

definition unshare_law :: "cloneops \<Rightarrow> bool" where
  "unshare_law co \<longleftrightarrow>
     (\<forall>fl s n. co_unshare_userns co fl s = Inr (Some n) \<longrightarrow> ps_refs s (Cred n) = 0) \<and>
     (\<forall>fl a b s n. co_unshare_nsproxy co fl a b s = Inr (Some n) \<longrightarrow> ps_refs s (Nsproxy n) = 0) \<and>
     leaves_tables (co_exit_sem co) \<and> leaves_tables (co_exit_shm co) \<and>
     (\<forall>n. leaves_tables (co_switch_task_namespaces co n) \<and> leaves_tables (co_commit_creds co n))"

lemma new_ref_reads [simp]:
  "ps_refs (new_ref h n s) b = (if Some b = map_option h n then 1 else ps_refs s b)" "ps_proc (new_ref h n s) = ps_proc s" "cur (new_ref h n s) = cur s"
  by (auto simp: new_ref_def split: option.split)

lemma unshare_cleanup_reads [simp]:
  "ps_refs (unshare_cleanup c d fs s) b = (if Some b = map_option Fs fs then 0
     else ps_refs s b - of_bool (Some b = map_option Cred c) - of_bool (Some b = map_option Files d))"
  "ps_proc (unshare_cleanup c d fs s) = ps_proc s"
  by (auto simp: unshare_cleanup_def Let_def put_cred_def put_files_struct_def free_fs_struct_def split: option.split)

text \<open>What the two functions for the tables do: nothing, or a new table with one reference.\<close>

lemma unshare_fs_new:
  assumes "fork_law f" and "unshare_fs g f flags s = (r, s')"
  shows "(\<exists>err. r = Inl err) \<and> s' = s \<or> (\<exists>n. r = Inr n \<and> s' = new_ref Fs n s \<and> (\<forall>m. n = Some m \<longrightarrow> ps_refs s (Fs m) = 0))"
  using assms(2) fork_fresh(2) [OF assms(1)] by (auto simp: unshare_fs_def new_ref_def split: option.splits if_splits)

lemma unshare_fd_new:
  assumes "fork_law f" and "unshare_fd g f flags s = (r, s')"
  shows "(\<exists>err. r = Inl err) \<and> s' = s \<or> (\<exists>n. r = Inr n \<and> s' = new_ref Files n s \<and> (\<forall>m. n = Some m \<longrightarrow> ps_refs s (Files m) = 0))"
  using assms(2) fork_fresh(3) [OF assms(1)] by (auto simp: unshare_fd_def new_ref_def split: option.splits if_splits sum.splits)

text \<open>The new objects that the locals hold, all of them without users before.\<close>

definition unshare_new :: "nat option \<Rightarrow> nat option \<Rightarrow> nat option \<Rightarrow> nat option \<Rightarrow> pstate \<Rightarrow> pstate" where
  "unshare_new n c d fs s = new_ref Nsproxy n (new_ref Cred c (new_ref Files d (new_ref Fs fs s)))"

definition unused :: "(nat \<Rightarrow> robj) \<Rightarrow> nat option \<Rightarrow> pstate \<Rightarrow> bool" where
  "unused h n s \<longleftrightarrow> (\<forall>m. n = Some m \<longrightarrow> ps_refs s (h m) = 0)"

lemma some_eq_map: "Some b = map_option h n \<longleftrightarrow> (\<exists>m. n = Some m \<and> b = h m)"
  by (cases n) auto

lemma unused_None [simp]: "unused h None s"
  by (simp add: unused_def)

lemma new_ref_None [simp]: "new_ref h None s = s"
  by (simp add: new_ref_def)

lemma unshare_balance:
  assumes "unused Nsproxy n s" and "unused Cred c s" and "unused Files d s" and "unused Fs fs s"
  shows "ps_refs (unshare_cleanup c d fs (unshare_new n c d fs s)) b = ps_refs s b + of_bool (Some b = map_option Nsproxy n)"
  using assms by (cases n; cases c; cases d; cases fs) (auto simp: unshare_new_def unused_def)

lemma unshare_error_state:
  assumes "fork_law f" and "unshare_law co" and "ksys_unshare g f co unshare_flags s = (Some err, s')"
  shows "\<exists>n c d fs. s' = unshare_cleanup c d fs (unshare_new n c d fs s) \<and> unused Nsproxy n s \<and> unused Cred c s \<and> unused Files d s \<and> unused Fs fs s"
proof -
  let ?fl = "unshare_flags_closure g unshare_flags"
  obtain r1 s1 where r1: "unshare_fs g f ?fl s = (r1, s1)" by (cases "unshare_fs g f ?fl s") auto
  obtain r2 s2 where r2: "unshare_fd g f ?fl s1 = (r2, s2)" by (cases "unshare_fd g f ?fl s1") auto
  have cred: "co_unshare_userns co ?fl u = Inr n \<Longrightarrow> unused Cred n u" for u n using assms(2) unfolding unshare_law_def unused_def by blast
  have ns: "co_unshare_nsproxy co ?fl a b u = Inr n \<Longrightarrow> unused Nsproxy n u" for a b u n using assms(2) unfolding unshare_law_def unused_def by blast
  note eq = assms(3) [unfolded ksys_unshare_def Let_def r1]
  show ?thesis
  proof (cases "check_unshare_flags g co ?fl s \<noteq> None \<or> (\<exists>e. r1 = Inl e)")
    case True
    then have "s' = s" using eq unshare_fs_new [OF assms(1) r1] by (auto split: option.splits)
    then show ?thesis by (intro exI [of _ None]) (simp add: unshare_new_def unshare_cleanup_def)
  next
    case False
    then obtain fs where fs: "r1 = Inr fs" "s1 = new_ref Fs fs s" "unused Fs fs s" using unshare_fs_new [OF assms(1) r1] by (auto simp: unused_def)
    note eq2 = eq [unfolded fs(1) prod.case sum.case r2]
    show ?thesis
    proof (cases r2)
      case (Inl e)
      then have "s' = unshare_cleanup None None fs (unshare_new None None None fs s)"
        using eq2 False fs unshare_fd_new [OF assms(1) r2] by (auto simp: unshare_new_def split: option.splits)
      then show ?thesis using fs(3) by (intro exI [of _ None] exI [of _ fs]) simp
    next
      case (Inr d)
      then have d: "s2 = new_ref Files d s1" "unused Files d s" using unshare_fd_new [OF assms(1) r2] fs(2) by (auto simp: unused_def split: if_splits)
      have un: "unused Cred c s2 = unused Cred c s" "unused Nsproxy n (new_ref Cred c s2) = unused Nsproxy n s" for c n
        by (auto simp: unused_def d fs(2) some_eq_map)
      show ?thesis
      proof (cases "co_unshare_userns co ?fl s2")
        case (Inl e)
        then have "s' = unshare_cleanup None d fs (unshare_new None None d fs s)"
          using eq2 False Inr d(1) fs(2) by (auto simp: unshare_new_def split: option.splits)
        then show ?thesis using fs(3) d(2) by (intro exI [of _ None] exI [of _ d] exI [of _ fs]) simp
      next
        case c: (Inr c)
        then have uc: "unused Cred c s" using cred un(1) by blast
        show ?thesis
        proof (cases "co_unshare_nsproxy co ?fl c fs (new_ref Cred c s2)")
          case (Inl e)
          then have "s' = unshare_cleanup c d fs (unshare_new None c d fs s)"
            using eq2 False Inr c d(1) fs(2) by (auto simp: unshare_new_def split: option.splits)
          then show ?thesis using fs(3) d(2) uc by (intro exI [of _ None] exI [of _ c] exI [of _ d] exI [of _ fs]) simp
        next
          case n: (Inr n)
          then have un: "unused Nsproxy n s" using ns un(2) by blast
          have "s' = unshare_cleanup c d fs (unshare_new n c d fs s)"
            using eq2 False Inr c n d(1) fs(2) by (auto simp: unshare_new_def split: option.splits prod.splits)
          then show ?thesis using fs(3) d(2) uc un by blast
        qed
      qed
    qed
  qed
qed

text \<open>
  C24.  An \<^verbatim>\<open>unshare\<close> that fails leaves the tables of all tasks as they were and gives back what it took, except possibly
  one reference to new namespaces.
\<close>

theorem ksys_unshare_fail:
  assumes "fork_law f" and "unshare_law co" and "ksys_unshare g f co unshare_flags s = (Some err, s')"
  shows "ps_proc s' = ps_proc s \<and> ((\<forall>b. ps_refs s' b = ps_refs s b) \<or> (\<exists>n. \<forall>b. ps_refs s' b = ps_refs s b + of_bool (b = Nsproxy n)))"
proof -
  from unshare_error_state [OF assms] obtain n c d fs where s': "s' = unshare_cleanup c d fs (unshare_new n c d fs s)"
    and un: "unused Nsproxy n s" "unused Cred c s" "unused Files d s" "unused Fs fs s" by blast
  have "ps_proc s' = ps_proc s" by (simp add: s' unshare_new_def)
  then show ?thesis using unshare_balance [OF un] by (cases n) (auto simp: s')
qed

lemma leaves_tables_reads:
  assumes "leaves_tables h"
  shows "ps_proc (h s) = ps_proc s" "cur (h s) = cur s" "ps_refs (h s) (Fs n) = ps_refs s (Fs n)" "ps_refs (h s) (Files n) = ps_refs s (Files n)"
  using assms by (simp_all add: leaves_tables_def)

lemma install_effect:
  fixes s :: pstate
  assumes "pr_fs (ps_proc s (cur s)) = Some o1" and "pr_files (ps_proc s (cur s)) = Some o2"
    and "install_fs fs s = (fs', s1)" and "install_fd d s1 = (d', s2)"
  shows "pr_fs (ps_proc s2 (cur s)) = (if fs = None then Some o1 else fs)" "pr_files (ps_proc s2 (cur s)) = (if d = None then Some o2 else d)"
    "ps_refs s2 (Fs q) = ps_refs s (Fs q) - of_bool (fs \<noteq> None \<and> q = o1)" "ps_refs s2 (Files q) = ps_refs s (Files q)"
    "d' = (if d = None then None else Some o2)" "fs' = (if fs \<noteq> None \<and> ps_refs s (Fs o1) = 1 then Some o1 else None)"
  using assms by (cases fs; cases d; auto simp: install_fs_def install_fd_def Let_def split: if_splits)+

lemma unshare_install_effect:
  assumes "unshare_law co" and "unshare_install g co flags c n d fs s = (c', d', fs', s')"
    and "pr_fs (ps_proc s (cur s)) = Some o1" and "pr_files (ps_proc s (cur s)) = Some o2"
  shows "pr_fs (ps_proc s' (cur s)) = (if fs = None then Some o1 else fs)" "pr_files (ps_proc s' (cur s)) = (if d = None then Some o2 else d)"
    "ps_refs s' (Fs q) = ps_refs s (Fs q) - of_bool (fs \<noteq> None \<and> q = o1)" "ps_refs s' (Files q) = ps_refs s (Files q)"
    "d' = (if d = None then None else Some o2)" "fs' = (if fs \<noteq> None \<and> ps_refs s (Fs o1) = 1 then Some o1 else None)"
proof -
  let ?sem = "flag_set flags (CLONE_NEWIPC g OR CLONE_SYSVSEM g)"
  define u where "u = (case n of None \<Rightarrow> id | Some m \<Rightarrow> co_switch_task_namespaces co m)
    ((if flag_set flags (CLONE_NEWIPC g) then co_exit_shm co else id) ((if ?sem then co_exit_sem co else id) s))"
  define w where "w = (case c of None \<Rightarrow> id | Some m \<Rightarrow> co_commit_creds co m)"
  have lt: "leaves_tables (co_exit_sem co)" "leaves_tables (co_exit_shm co)" "leaves_tables (co_switch_task_namespaces co m)" "leaves_tables (co_commit_creds co m)" for m
    using assms(1) by (simp_all add: unshare_law_def)
  have u: "ps_proc u = ps_proc s" "cur u = cur s" "ps_refs u (Fs m) = ps_refs s (Fs m)" "ps_refs u (Files m) = ps_refs s (Files m)" for m
    by (simp_all add: u_def leaves_tables_reads lt split: option.split)
  have w: "ps_proc (w v) = ps_proc v" "ps_refs (w v) (Fs m) = ps_refs v (Fs m)" "ps_refs (w v) (Files m) = ps_refs v (Files m)" for v m
    by (simp_all add: w_def leaves_tables_reads lt split: option.split)
  obtain fs1 s1 where f1: "install_fs fs u = (fs1, s1)" by (cases "install_fs fs u") auto
  obtain d1 s2 where f2: "install_fd d s1 = (d1, s2)" by (cases "install_fd d s1") auto
  have "pr_fs (ps_proc u (cur u)) = Some o1" "pr_files (ps_proc u (cur u)) = Some o2" using assms(3,4) u by simp_all
  note inst = install_effect [OF this f1 f2]
  have "unshare_install g co flags c n d fs s = (if fs \<noteq> None \<or> d \<noteq> None \<or> ?sem \<or> c \<noteq> None \<or> n \<noteq> None then (None, d1, fs1, w s2) else (c, d, fs, s))"
    using f1 f2 by (cases n; cases c) (auto simp: unshare_install_def Let_def u_def w_def)
  then consider "fs = None" "d = None" "d' = None" "fs' = None" "s' = s" | "d' = d1" "fs' = fs1" "s' = w s2"
    using assms(2) by (auto split: if_splits)
  then show "pr_fs (ps_proc s' (cur s)) = (if fs = None then Some o1 else fs)" "pr_files (ps_proc s' (cur s)) = (if d = None then Some o2 else d)"
    "ps_refs s' (Fs q) = ps_refs s (Fs q) - of_bool (fs \<noteq> None \<and> q = o1)" "ps_refs s' (Files q) = ps_refs s (Files q)"
    "d' = (if d = None then None else Some o2)" "fs' = (if fs \<noteq> None \<and> ps_refs s (Fs o1) = 1 then Some o1 else None)"
    by (cases; use assms(3,4) inst u w in simp)+
qed

lemma unshare_success_state:
  assumes "fork_law f" and "ksys_unshare g f co unshare_flags s = (None, s')"
  defines "flags \<equiv> unshare_flags_closure g unshare_flags"
  shows "\<exists>c n d fs c' d' fs' s4. fst (unshare_fs g f flags s) = Inr fs \<and> unused Fs fs s \<and> fst (unshare_fd g f flags (new_ref Fs fs s)) = Inr d \<and> unused Files d s \<and>
    unshare_install g co flags c n d fs (unshare_new n c d fs s) = (c', d', fs', s4) \<and> s' = unshare_cleanup c' d' fs' s4"
proof -
  obtain r1 s1 where r1: "unshare_fs g f flags s = (r1, s1)" by (cases "unshare_fs g f flags s") auto
  obtain r2 s2 where r2: "unshare_fd g f flags s1 = (r2, s2)" by (cases "unshare_fd g f flags s1") auto
  note eq = assms(2) [unfolded ksys_unshare_def Let_def flags_def [symmetric] r1]
  have "check_unshare_flags g co flags s = None" and "\<forall>e. r1 \<noteq> Inl e" using eq by (auto split: option.splits)
  then obtain fs where fs: "r1 = Inr fs" "s1 = new_ref Fs fs s" "unused Fs fs s" and ok: "check_unshare_flags g co flags s = None"
    using unshare_fs_new [OF assms(1) r1] by (auto simp: unused_def)
  note eq2 = eq [unfolded ok option.case fs(1) prod.case sum.case r2]
  have "\<forall>e. r2 \<noteq> Inl e" using eq2 by auto
  then obtain d where d: "r2 = Inr d" "s2 = new_ref Files d s1" "unused Files d s"
    using unshare_fd_new [OF assms(1) r2] fs(2) by (auto simp: unused_def split: if_splits)
  obtain c where c: "co_unshare_userns co flags s2 = Inr c" using eq2 d(1) by (auto split: sum.splits)
  obtain n where n: "co_unshare_nsproxy co flags c fs (new_ref Cred c s2) = Inr n" using eq2 d(1) c by (auto split: sum.splits)
  obtain c' d' fs' s4 where i: "unshare_install g co flags c n d fs (unshare_new n c d fs s) = (c', d', fs', s4)" by (metis prod_cases4)
  have "s' = unshare_cleanup c' d' fs' s4" using eq2 d c n fs i by (auto simp: unshare_new_def split: option.splits)
  moreover have "fst (unshare_fs g f flags s) = Inr fs" "fst (unshare_fd g f flags (new_ref Fs fs s)) = Inr d" using r1 r2 fs d by simp_all
  ultimately show ?thesis using fs(3) d(3) i by blast
qed

text \<open>
  C23.  After a successful \<^verbatim>\<open>unshare\<close> of the file system information or of the files the current task is the only user of
  its table, and a table it left has lost one user.
\<close>

theorem ksys_unshare_private:
  assumes "fork_law f" and "unshare_law co" and "ksys_unshare g f co unshare_flags s = (None, s')"
    and "pr_fs (ps_proc s (cur s)) = Some fs" and "pr_files (ps_proc s (cur s)) = Some fd" and "ps_refs s (Fs fs) \<ge> 1" and "ps_refs s (Files fd) \<ge> 1"
  defines "flags \<equiv> unshare_flags_closure g unshare_flags"
  shows "(flag_set flags (CLONE_FS g) \<longrightarrow> (\<exists>n. pr_fs (ps_proc s' (cur s)) = Some n \<and> ps_refs s' (Fs n) = 1 \<and>
        (n \<noteq> fs \<longrightarrow> ps_refs s' (Fs fs) = ps_refs s (Fs fs) - 1))) \<and>
    (flag_set flags (CLONE_FILES g) \<longrightarrow> (\<exists>n. pr_files (ps_proc s' (cur s)) = Some n \<and> ps_refs s' (Files n) = 1 \<and>
        (n \<noteq> fd \<longrightarrow> ps_refs s' (Files fd) = ps_refs s (Files fd) - 1)))"
proof -
  from unshare_success_state [OF assms(1,3)] obtain c n d nfs c' d' fs' s4 where
    f1: "fst (unshare_fs g f flags s) = Inr nfs" and f2: "fst (unshare_fd g f flags (new_ref Fs nfs s)) = Inr d" and un: "unused Fs nfs s" "unused Files d s"
    and i: "unshare_install g co flags c n d nfs (unshare_new n c d nfs s) = (c', d', fs', s4)" and s': "s' = unshare_cleanup c' d' fs' s4"
    unfolding flags_def by blast
  have cu: "cur (unshare_new n c d nfs s) = cur s" "ps_proc (unshare_new n c d nfs s) = ps_proc s" by (simp_all add: unshare_new_def)
  note eff = unshare_install_effect [OF assms(2) i, unfolded cu, OF assms(4,5)]
  have fsr: "ps_refs (unshare_new n c d nfs s) (Fs q) = (if nfs = Some q then 1 else ps_refs s (Fs q))"
    "ps_refs (unshare_new n c d nfs s) (Files q) = (if d = Some q then 1 else ps_refs s (Files q))" for q
    by (auto simp: unshare_new_def some_eq_map)
  have r: "ps_refs s' (Fs q) = (if fs' = Some q then 0 else ps_refs s4 (Fs q))" "ps_refs s' (Files q) = ps_refs s4 (Files q) - of_bool (d' = Some q)" for q
    by (auto simp: s' some_eq_map)
  have pr: "ps_proc s' = ps_proc s4" by (simp add: s')
  have A: "nfs \<noteq> Some fs" "d \<noteq> Some fd" using un assms(6,7) by (auto simp: unused_def)
  have "ps_refs s (Fs fs) = 1 \<and> nfs = None \<or> ps_refs s (Fs fs) \<noteq> 1 \<and> nfs \<noteq> None" if "flag_set flags (CLONE_FS g)"
    using f1 [symmetric] that assms(4) by (cases "fk_copy_fs_struct f fs s"; cases "ps_refs s (Fs fs) = 1") (simp_all add: unshare_fs_def)
  moreover have "ps_refs s (Files fd) = 1 \<and> d = None \<or> d \<noteq> None" if "flag_set flags (CLONE_FILES g)"
    using f2 that assms(5,7) by (auto simp: unshare_fd_def some_eq_map split: if_splits sum.splits)
  ultimately show ?thesis using A eff by (auto simp: r pr fsr)
qed

text \<open>
  C37.  The exception is real.  If the count of new credentials against the user's limits fails after new namespaces were
  made, \<^verbatim>\<open>unshare\<close> fails and nobody drops the reference to these namespaces.
\<close>

theorem ksys_unshare_leaks_nsproxy:
  assumes "fork_law f" and "unshare_law co" and "check_unshare_flags g co (unshare_flags_closure g unshare_flags) s = None"
    and "unshare_fs g f (unshare_flags_closure g unshare_flags) s = (Inr fs, s1)" and "unshare_fd g f (unshare_flags_closure g unshare_flags) s1 = (Inr d, s2)"
    and "co_unshare_userns co (unshare_flags_closure g unshare_flags) s2 = Inr (Some c)"
    and "co_unshare_nsproxy co (unshare_flags_closure g unshare_flags) (Some c) fs (new_ref Cred (Some c) s2) = Inr (Some n)"
    and "co_set_cred_ucounts co c (new_ref Nsproxy (Some n) (new_ref Cred (Some c) s2)) = Some err"
  shows "\<exists>s'. ksys_unshare g f co unshare_flags s = (Some err, s') \<and> (\<forall>b. ps_refs s' b = ps_refs s b + of_bool (b = Nsproxy n))"
proof -
  have fs: "s1 = new_ref Fs fs s" "unused Fs fs s" using unshare_fs_new [OF assms(1,4)] by (auto simp: unused_def)
  have d: "s2 = new_ref Files d s1" "unused Files d s" using unshare_fd_new [OF assms(1,5)] fs(1) by (auto simp: unused_def split: if_splits)
  have "ps_refs s2 (Cred c) = 0" "ps_refs (new_ref Cred (Some c) s2) (Nsproxy n) = 0" using assms(2,6,7) unfolding unshare_law_def by blast+
  then have un: "unused Cred (Some c) s" "unused Nsproxy (Some n) s" by (auto simp: unused_def d(1) fs(1) some_eq_map split: if_splits)
  have "ksys_unshare g f co unshare_flags s = (Some err, unshare_cleanup (Some c) d fs (unshare_new (Some n) (Some c) d fs s))"
    by (simp add: ksys_unshare_def Let_def assms(3-8) del: new_ref_reads) (simp add: unshare_new_def d(1) fs(1))
  then show ?thesis using unshare_balance [OF un(2,1) d(2) fs(2)] by simp
qed

subsection \<open>Samples\<close>

lemma plain_unshare_law: "unshare_law (plain_cloneops err)"
  by (simp add: unshare_law_def plain_cloneops_def leaves_tables_def)

lemma plain_cloneops_sel:
  "co_unshare_userns (plain_cloneops err) fl s = (if \<not> flag_set fl 0x10000000 then Inr None else if ps_refs s (Cred 7) = 0 then Inr (Some 7) else Inl ENOMEM)"
  "co_unshare_nsproxy (plain_cloneops err) fl a b s = (if \<not> flag_set fl 0x10000000 then Inr None else if ps_refs s (Nsproxy 7) = 0 then Inr (Some 7) else Inl ENOMEM)"
  "co_set_cred_ucounts (plain_cloneops err) n s = err"
  by (simp_all add: plain_cloneops_def)

text \<open>The file system table and the table of files have two users each.\<close>

definition sample_shared :: pstate where
  "sample_shared = (sample_pstate sample_fork_kernel)\<lparr>ps_refs := sample_refs(Fs 1 := 2, Files 1 := 2)\<rparr>"

lemma sample_shared_sel [simp]:
  "ps_proc sample_shared q = sample_proc" "ps_refs sample_shared = sample_refs(Fs 1 := 2, Files 1 := 2)" "cur sample_shared = 0"
  "ps_signal sample_shared n = sample_signal"
  using sample_dup(3) by (simp_all add: sample_shared_def cur_def sample_pstate_def)

lemma sample_unshare_user:
  defines "fl \<equiv> unshare_flags_closure cenv_v5_17 0x10000000"
  shows "check_unshare_flags cenv_v5_17 (plain_cloneops err) fl sample_shared = None" "flag_set fl 0x10000000" "flag_set fl (CLONE_FS cenv_v5_17)"
    "\<not> flag_set fl (CLONE_FILES cenv_v5_17)"
proof -
  have fl: "fl = 0x10010200" by (simp add: fl_def unshare_flags_closure_def flag_set_def v5_17_clone.clone_h_simps)
  show "check_unshare_flags cenv_v5_17 (plain_cloneops err) fl sample_shared = None"
    by (simp add: fl check_unshare_flags_def flag_set_def v5_17_clone.clone_h_simps thread_group_empty_def sample_signal_def)
  show "flag_set fl 0x10000000" "flag_set fl (CLONE_FS cenv_v5_17)" "\<not> flag_set fl (CLONE_FILES cenv_v5_17)"
    by (simp_all add: fl flag_set_def v5_17_clone.clone_h_simps)
qed

lemma plain_forkops_sel:
  "fk_copy_fs_struct plain_forkops n s = (if ps_refs s (Fs 9) = 0 then Some 9 else None)"
  "fk_dup_fd plain_forkops n s = (if ps_refs s (Files 9) = 0 then Inr 9 else Inl ENOMEM)"
  by (simp_all add: plain_forkops_def)

theorem ksys_unshare_leaks_nsproxy_witness:
  "\<exists>s'. ksys_unshare cenv_v5_17 plain_forkops (plain_cloneops (Some EAGAIN)) 0x10000000 sample_shared = (Some EAGAIN, s') \<and> ps_refs s' (Nsproxy 7) = 1"
proof -
  let ?co = "plain_cloneops (Some EAGAIN)" and ?fl = "unshare_flags_closure cenv_v5_17 0x10000000"
  note u = sample_unshare_user
  have 1: "unshare_fs cenv_v5_17 plain_forkops ?fl sample_shared = (Inr (Some 9), new_ref Fs (Some 9) sample_shared)"
    using u by (simp add: unshare_fs_def plain_forkops_sel sample_proc_def sample_refs_def new_ref_def)
  have 2: "unshare_fd cenv_v5_17 plain_forkops ?fl (new_ref Fs (Some 9) sample_shared) = (Inr None, new_ref Fs (Some 9) sample_shared)"
    using u by (simp add: unshare_fd_def sample_proc_def)
  have 3: "co_unshare_userns ?co ?fl (new_ref Fs (Some 9) sample_shared) = Inr (Some 7)"
    "co_unshare_nsproxy ?co ?fl (Some 7) (Some 9) (new_ref Cred (Some 7) (new_ref Fs (Some 9) sample_shared)) = Inr (Some 7)"
    using u by (simp_all add: plain_cloneops_sel sample_refs_def)
  have 4: "co_set_cred_ucounts ?co 7 s = Some EAGAIN" for s by (simp add: plain_cloneops_sel)
  from ksys_unshare_leaks_nsproxy [OF plain_forkops_law plain_unshare_law u(1) 1 2 3 4] show ?thesis by (auto simp: sample_refs_def)
qed

theorem ksys_unshare_fail_witness:
  "\<exists>s'. ksys_unshare cenv_v5_17 plain_forkops (plain_cloneops None) 0x1 sample_shared = (Some EINVAL, s') \<and> ps_refs s' (Fs 1) = 2"
proof -
  have e: "ksys_unshare cenv_v5_17 plain_forkops (plain_cloneops None) 0x1 sample_shared = (Some EINVAL, sample_shared)"
    by (simp add: ksys_unshare_def Let_def unshare_flags_closure_def check_unshare_flags_def flag_set_def v5_17_clone.clone_h_simps)
  from ksys_unshare_fail [OF plain_forkops_law plain_unshare_law e] show ?thesis using e by auto
qed

theorem ksys_unshare_private_witness:
  "\<exists>s'. ksys_unshare cenv_v5_17 plain_forkops (plain_cloneops None) 0x600 sample_shared = (None, s') \<and>
     (\<exists>n. pr_fs (ps_proc s' 0) = Some n \<and> ps_refs s' (Fs n) = 1)"
proof -
  let ?co = "plain_cloneops None"
  have fl: "unshare_flags_closure cenv_v5_17 0x600 = 0x600" "flag_set 0x600 (CLONE_FS cenv_v5_17)" "flag_set 0x600 (CLONE_FILES cenv_v5_17)"
    "\<not> flag_set (0x600 :: u64) 0x10000000" "check_unshare_flags cenv_v5_17 ?co 0x600 sample_shared = None"
    by (simp_all add: unshare_flags_closure_def check_unshare_flags_def flag_set_def v5_17_clone.clone_h_simps)
  have "fst (ksys_unshare cenv_v5_17 plain_forkops ?co 0x600 sample_shared) = None"
    by (simp add: ksys_unshare_def Let_def fl unshare_fs_def unshare_fd_def plain_forkops_sel plain_cloneops_sel sample_proc_def sample_refs_def split: prod.split)
  then obtain s' where e: "ksys_unshare cenv_v5_17 plain_forkops ?co 0x600 sample_shared = (None, s')" by (metis prod.collapse)
  have pr: "pr_fs (ps_proc sample_shared (cur sample_shared)) = Some 1" "pr_files (ps_proc sample_shared (cur sample_shared)) = Some 1"
    "ps_refs sample_shared (Fs 1) \<ge> 1" "ps_refs sample_shared (Files 1) \<ge> 1" by (simp_all add: sample_proc_def)
  from ksys_unshare_private [OF plain_forkops_law plain_unshare_law e pr] show ?thesis using e fl by auto
qed

end
