(* ===== verification/Address_Transform.thy ===== *)
theory Address_Transform
  imports Kernel_Prelude
begin

text \<open>
  The system call of \<^verbatim>\<open>Project 1/ADDRESSTRANSFORM/addresstransform.c\<close>, which walks the page tables of the calling
  process in software and reports the physical address of each virtual address of an array.

  The accessors of page tables are macros of \<^verbatim>\<open>linux/pgtable.h\<close> and \<^verbatim>\<open>asm/pgtable.h\<close>: they are the fields of
  \<open>pgtable_ops\<close>, and the locale \<open>x86_pgtable\<close> says what they are on x86-64 with four levels of paging, where the
  second level is folded into the first.  The reference is the walk of the processor, \<open>mmu_walk\<close>.  Copying
  from and to user memory is a parameter, too.
\<close>

subsection \<open>Page tables\<close>

type_synonym mem = "u64 \<Rightarrow> u64" \<comment> \<open>the word that a kernel pointer points to\<close>

record pgtable_ops =
  pgd_offset :: "u64 \<Rightarrow> u64 \<Rightarrow> u64" \<comment> \<open>from \<^verbatim>\<open>mm->pgd\<close>, a physical address\<close>
  p4d_offset :: "mem \<Rightarrow> u64 \<Rightarrow> u64 \<Rightarrow> u64"
  pud_offset :: "mem \<Rightarrow> u64 \<Rightarrow> u64 \<Rightarrow> u64"
  pmd_offset :: "mem \<Rightarrow> u64 \<Rightarrow> u64 \<Rightarrow> u64"
  pte_offset_map :: "mem \<Rightarrow> u64 \<Rightarrow> u64 \<Rightarrow> u64"
  pgd_none :: "u64 \<Rightarrow> bool"
  p4d_none :: "u64 \<Rightarrow> bool"
  pud_none :: "u64 \<Rightarrow> bool"
  pmd_none :: "u64 \<Rightarrow> bool"
  pte_none :: "u64 \<Rightarrow> bool"
  pte_page_phys :: "u64 \<Rightarrow> u64" \<comment> \<open>\<^verbatim>\<open>page_to_phys(pte_page(pte))\<close>\<close>
  pgd_index :: "u64 \<Rightarrow> u64"
  p4d_index :: "u64 \<Rightarrow> u64"
  pud_index :: "u64 \<Rightarrow> u64"
  pmd_index :: "u64 \<Rightarrow> u64"
  pte_index :: "u64 \<Rightarrow> u64"
  PAGE_MASK :: u64

text \<open>The messages of the walk.\<close>

datatype level = PGD | P4D | PUD | PMD | PTE

datatype walk_msg = Entry level u64 u64 | Map_error level | Page u64 u64 | Transformed u64 u64
  | Length int | Index nat

definition ADDRESS_TRANSFORM :: "pgtable_ops \<Rightarrow> mem \<Rightarrow> u64 \<Rightarrow> u64 \<Rightarrow> walk_msg list \<times> u64" where
  "ADDRESS_TRANSFORM ops mem mm_pgd virtual_address =
     (let pgd = pgd_offset ops mm_pgd virtual_address;
          log = [Entry PGD (mem pgd) (pgd_index ops virtual_address)]
      in if pgd_none ops (mem pgd) then (log @ [Map_error PGD], 0)
         else
      let p4d = p4d_offset ops mem pgd virtual_address;
          log = log @ [Entry P4D (mem p4d) (p4d_index ops virtual_address)]
      in if p4d_none ops (mem p4d) then (log @ [Map_error P4D], 0)
         else
      let pud = pud_offset ops mem p4d virtual_address;
          log = log @ [Entry PUD (mem pud) (pud_index ops virtual_address)]
      in if pud_none ops (mem pud) then (log @ [Map_error PUD], 0)
         else
      let pmd = pmd_offset ops mem pud virtual_address;
          log = log @ [Entry PMD (mem pmd) (pmd_index ops virtual_address)]
      in if pmd_none ops (mem pmd) then (log @ [Map_error PMD], 0)
         else
      let pte = pte_offset_map ops mem pmd virtual_address;
          log = log @ [Entry PTE (mem pte) (pte_index ops virtual_address)]
      in if pte_none ops (mem pte) then (log @ [Map_error PTE], 0)
         else
      let page_address = pte_page_phys ops (mem pte);
          page_offset = virtual_address AND NOT (PAGE_MASK ops);
          physical_address = page_address OR page_offset
      in (log @ [Page page_address page_offset, Transformed virtual_address physical_address], physical_address))"

subsection \<open>The system call\<close>

text \<open>
  \<^verbatim>\<open>copy_from_user\<close> of a number of words yields the words, with zeroes for what could not be read, and
  \<^verbatim>\<open>copy_to_user\<close> writes the words that it can; both return the number of bytes left, which the code ignores.
\<close>

record 'u uaccess =
  copy_from_user :: "'u \<Rightarrow> u64 \<Rightarrow> nat \<Rightarrow> u64 list \<times> nat"
  copy_to_user :: "u64 \<Rightarrow> u64 list \<Rightarrow> 'u \<Rightarrow> 'u \<times> nat"

primrec transform_all :: "pgtable_ops \<Rightarrow> mem \<Rightarrow> u64 \<Rightarrow> nat \<Rightarrow> u64 list \<Rightarrow> walk_msg list \<times> u64 list" where
  "transform_all ops mem mm_pgd i [] = ([], [])"
| "transform_all ops mem mm_pgd i (v # vs) =
     (let (log, p) = ADDRESS_TRANSFORM ops mem mm_pgd v;
          (logs, ps) = transform_all ops mem mm_pgd (i + 1) vs
      in (Index i # log @ logs, p # ps))"

text \<open>
  An array of a length that is not positive has no meaning in C: \<open>None\<close>.  The last copy of the code goes to the
  address of its own parameter, a kernel address, which \<^verbatim>\<open>copy_to_user\<close> refuses; it has no effect.
\<close>

definition my_get_physical_addresses ::
  "pgtable_ops \<Rightarrow> 'u uaccess \<Rightarrow> mem \<Rightarrow> u64 \<Rightarrow> u64 \<Rightarrow> int \<Rightarrow> u64 \<Rightarrow> int \<Rightarrow> 'u \<Rightarrow> (walk_msg list \<times> int \<times> 'u) option" where
  "my_get_physical_addresses ops ua mem mm_pgd initial virtual_address_length result physical_address_length u =
     (if virtual_address_length \<le> 0 then None
      else
        let virtual_address = fst (copy_from_user ua u initial (nat virtual_address_length));
            (logs, physical_address) = transform_all ops mem mm_pgd 0 virtual_address;
            u = fst (copy_to_user ua result physical_address u)
        in Some (Length virtual_address_length # logs, 0, u))"

subsection \<open>The test programs\<close>

text \<open>
  The programs of \<^verbatim>\<open>Project 1/EXECUTE\<close> build an array of addresses of known segments, call the system call with it
  and print a row per segment: its name, the virtual and the physical address.  A negative result ends the
  program with a message, the value \<open>Inl\<close> here.  \<open>rd\<close> reads a word of the memory of the program, \<open>va\<close> and \<open>pa\<close> are
  the addresses of the two arrays.
\<close>

type_synonym row = "string \<times> u64 option \<times> u64 option"

definition segment_report ::
  "string list \<Rightarrow> pgtable_ops \<Rightarrow> 'u uaccess \<Rightarrow> ('u \<Rightarrow> u64 \<Rightarrow> u64 option) \<Rightarrow> mem \<Rightarrow> u64 \<Rightarrow> u64 \<Rightarrow> u64 \<Rightarrow> 'u \<Rightarrow> (string + row list) option" where
  "segment_report names ops ua rd mem mm_pgd va pa u =
     (case my_get_physical_addresses ops ua mem mm_pgd va (int (length names)) pa (int (length names)) u of
        None \<Rightarrow> None
      | Some (log, copy, u) \<Rightarrow>
          if copy < 0 then Some (Inl ''transfer error'')
          else Some (Inr (map (\<lambda>i. (names ! i, rd u (va + 8 * of_nat i), rd u (pa + 8 * of_nat i))) [0..<length names])))"

definition thread_segments :: "string list" where
  "thread_segments = [''TLS'', ''stack'', ''lib'', ''heap'', ''bss'', ''data'', ''code'']"

definition thread1 :: "pgtable_ops \<Rightarrow> 'u uaccess \<Rightarrow> ('u \<Rightarrow> u64 \<Rightarrow> u64 option) \<Rightarrow> mem \<Rightarrow> u64 \<Rightarrow> u64 \<Rightarrow> u64 \<Rightarrow> 'u \<Rightarrow> (string + row list) option" where
  "thread1 = segment_report thread_segments"

definition thread2 :: "pgtable_ops \<Rightarrow> 'u uaccess \<Rightarrow> ('u \<Rightarrow> u64 \<Rightarrow> u64 option) \<Rightarrow> mem \<Rightarrow> u64 \<Rightarrow> u64 \<Rightarrow> u64 \<Rightarrow> 'u \<Rightarrow> (string + row list) option" where
  "thread2 = segment_report thread_segments"

definition thread3 :: "pgtable_ops \<Rightarrow> 'u uaccess \<Rightarrow> ('u \<Rightarrow> u64 \<Rightarrow> u64 option) \<Rightarrow> mem \<Rightarrow> u64 \<Rightarrow> u64 \<Rightarrow> u64 \<Rightarrow> 'u \<Rightarrow> (string + row list) option" where
  "thread3 = segment_report thread_segments"

definition test2_segments :: "string list" where
  "test2_segments = [''stack'', ''getpid'', ''heap'', ''bss'', ''data'', ''code'']"

definition test2_main :: "pgtable_ops \<Rightarrow> 'u uaccess \<Rightarrow> ('u \<Rightarrow> u64 \<Rightarrow> u64 option) \<Rightarrow> mem \<Rightarrow> u64 \<Rightarrow> u64 \<Rightarrow> u64 \<Rightarrow> 'u \<Rightarrow> (string + row list) option" where
  "test2_main = segment_report test2_segments"

subsection \<open>The accessors on x86-64\<close>

text \<open>The field of nine bits that indexes the table of a level, counted from the last one.\<close>

definition table_index :: "nat \<Rightarrow> u64 \<Rightarrow> u64" where
  "table_index n va = drop_bit (12 + 9 * n) va AND 0x1FF"

definition PHYSICAL_PAGE_MASK :: u64 where
  "PHYSICAL_PAGE_MASK = 0x000FFFFFFFFFF000"

text \<open>Accessed and dirty bits may appear in an entry that is not in use.\<close>

definition entry_none :: "u64 \<Rightarrow> bool" where
  "entry_none v \<longleftrightarrow> v AND NOT 0x60 = 0"

definition entry_large :: "u64 \<Rightarrow> bool" where
  "entry_large v \<longleftrightarrow> bit v 7"

definition entry_present :: "u64 \<Rightarrow> bool" where
  "entry_present v \<longleftrightarrow> bit v 0"

locale x86_pgtable =
  fixes ops :: pgtable_ops and va :: "u64 \<Rightarrow> u64"
  assumes pgd_offset: "pgd_offset ops pgd a = va (pgd + 8 * table_index 3 a)"
    and p4d_offset: "p4d_offset ops mem p a = p"
    and pud_offset: "pud_offset ops mem p a = va ((mem p AND PHYSICAL_PAGE_MASK) + 8 * table_index 2 a)"
    and pmd_offset: "pmd_offset ops mem p a =
      va ((mem p AND (if entry_large (mem p) then 0x000FFFFFC0000000 else PHYSICAL_PAGE_MASK)) + 8 * table_index 1 a)"
    and pte_offset_map: "pte_offset_map ops mem p a =
      va ((mem p AND (if entry_large (mem p) then 0x000FFFFFFFE00000 else PHYSICAL_PAGE_MASK)) + 8 * table_index 0 a)"
    and pgd_none: "\<not> pgd_none ops v"
    and p4d_none: "p4d_none ops v = entry_none v"
    and pud_none: "pud_none ops v = entry_none v"
    and pmd_none: "pmd_none ops v = entry_none v"
    and pte_none: "pte_none ops v = entry_none v"
    and pte_page_phys: "pte_page_phys ops v = (if v \<noteq> 0 \<and> \<not> entry_present v then NOT v else v) AND PHYSICAL_PAGE_MASK"
    and PAGE_MASK: "PAGE_MASK ops = NOT 0xFFF"
begin

lemmas accessors = pgd_offset p4d_offset pud_offset pmd_offset pte_offset_map pgd_none p4d_none pud_none pmd_none pte_none
  pte_page_phys PAGE_MASK

end

text \<open>The direct map of physical memory starts at the given address.\<close>

definition x86_64_pgtable :: "u64 \<Rightarrow> pgtable_ops" where
  "x86_64_pgtable base = (let va = (\<lambda>a. base + a) in \<lparr>
     pgd_offset = (\<lambda>pgd a. va (pgd + 8 * table_index 3 a)), p4d_offset = (\<lambda>mem p a. p),
     pud_offset = (\<lambda>mem p a. va ((mem p AND PHYSICAL_PAGE_MASK) + 8 * table_index 2 a)),
     pmd_offset = (\<lambda>mem p a. va ((mem p AND (if entry_large (mem p) then 0x000FFFFFC0000000 else PHYSICAL_PAGE_MASK)) + 8 * table_index 1 a)),
     pte_offset_map = (\<lambda>mem p a. va ((mem p AND (if entry_large (mem p) then 0x000FFFFFFFE00000 else PHYSICAL_PAGE_MASK)) + 8 * table_index 0 a)),
     pgd_none = (\<lambda>_. False), p4d_none = entry_none, pud_none = entry_none, pmd_none = entry_none, pte_none = entry_none,
     pte_page_phys = (\<lambda>v. (if v \<noteq> 0 \<and> \<not> entry_present v then NOT v else v) AND PHYSICAL_PAGE_MASK),
     pgd_index = table_index 3, p4d_index = (\<lambda>_. 0), pud_index = table_index 2, pmd_index = table_index 1,
     pte_index = table_index 0, PAGE_MASK = NOT 0xFFF\<rparr>)"

interpretation x86_64: x86_pgtable "x86_64_pgtable base" "\<lambda>a. base + a" for base
  by unfold_locales (simp_all add: x86_64_pgtable_def Let_def)

subsection \<open>The walk of the processor\<close>

datatype page_size = Page_4K | Page_2M | Page_1G

text \<open>
  The translation that the processor does with four levels of paging: every entry on the way must be present, and an
  entry of the second or third level may map a large page.
\<close>

definition mmu_walk :: "(u64 \<Rightarrow> u64) \<Rightarrow> u64 \<Rightarrow> u64 \<Rightarrow> (page_size \<times> u64) option" where
  "mmu_walk phys cr3 va =
     (let e4 = phys (cr3 + 8 * table_index 3 va)
      in if \<not> entry_present e4 then None
         else
      let e3 = phys ((e4 AND PHYSICAL_PAGE_MASK) + 8 * table_index 2 va)
      in if \<not> entry_present e3 then None
         else if entry_large e3 then Some (Page_1G, (e3 AND 0x000FFFFFC0000000) OR (va AND 0x3FFFFFFF))
         else
      let e2 = phys ((e3 AND PHYSICAL_PAGE_MASK) + 8 * table_index 1 va)
      in if \<not> entry_present e2 then None
         else if entry_large e2 then Some (Page_2M, (e2 AND 0x000FFFFFFFE00000) OR (va AND 0x1FFFFF))
         else
      let e1 = phys ((e2 AND PHYSICAL_PAGE_MASK) + 8 * table_index 0 va)
      in if \<not> entry_present e1 then None
         else Some (Page_4K, (e1 AND PHYSICAL_PAGE_MASK) OR (va AND 0xFFF)))"

lemma entry_none_present: "entry_none v \<Longrightarrow> \<not> entry_present v"
proof -
  assume "entry_none v"
  then have "bit (v AND NOT 0x60) 0 = False" by (simp add: entry_none_def)
  then show ?thesis by (simp add: entry_present_def bit_simps)
qed

lemma mmu_walk_2m:
  fixes phys cr3 a
  defines "e4 \<equiv> phys (cr3 + 8 * table_index 3 a)"
  defines "e3 \<equiv> phys ((e4 AND PHYSICAL_PAGE_MASK) + 8 * table_index 2 a)"
  defines "e2 \<equiv> phys ((e3 AND PHYSICAL_PAGE_MASK) + 8 * table_index 1 a)"
  assumes "mmu_walk phys cr3 a = Some (Page_2M, p)"
  shows "entry_present e4" "entry_present e3" "\<not> entry_large e3" "entry_present e2" "entry_large e2"
    "p = (e2 AND 0x000FFFFFFFE00000) OR (a AND 0x1FFFFF)"
  using assms(4) unfolding mmu_walk_def Let_def e4_def [symmetric] e3_def [symmetric] e2_def [symmetric]
  by (simp_all split: if_split_asm)

lemma mmu_walk_4k: "mmu_walk phys cr3 a = Some (Page_4K, p) \<Longrightarrow> p = 0 \<Longrightarrow> a AND 0xFFF = 0"
  unfolding mmu_walk_def Let_def by (simp add: or_eq_0_iff split: if_split_asm)

text \<open>The software walk as the processor's entries see it.\<close>

context x86_pgtable
begin

lemma transform_eq:
  fixes mem cr3 a
  defines "e4 \<equiv> mem (va (cr3 + 8 * table_index 3 a))"
  defines "e3 \<equiv> mem (va ((e4 AND PHYSICAL_PAGE_MASK) + 8 * table_index 2 a))"
  defines "e2 \<equiv> mem (va ((e3 AND (if entry_large e3 then 0x000FFFFFC0000000 else PHYSICAL_PAGE_MASK)) + 8 * table_index 1 a))"
  defines "e1 \<equiv> mem (va ((e2 AND (if entry_large e2 then 0x000FFFFFFFE00000 else PHYSICAL_PAGE_MASK)) + 8 * table_index 0 a))"
  shows "snd (ADDRESS_TRANSFORM ops mem cr3 a) =
    (if entry_none e4 \<or> entry_none e3 \<or> entry_none e2 \<or> entry_none e1 then 0
     else (((if e1 \<noteq> 0 \<and> \<not> entry_present e1 then NOT e1 else e1) AND PHYSICAL_PAGE_MASK) OR (a AND 0xFFF)))"
  unfolding ADDRESS_TRANSFORM_def Let_def accessors e4_def [symmetric] e3_def [symmetric] e2_def [symmetric] e1_def [symmetric]
  by (simp add: accessors)

lemma transform_4k:
  assumes "mmu_walk (mem \<circ> va) cr3 a = Some (Page_4K, p)"
  shows "snd (ADDRESS_TRANSFORM ops mem cr3 a) = p"
  using assms entry_none_present by (auto simp: mmu_walk_def Let_def transform_eq split: if_splits)

lemma transform_2m:
  assumes "mmu_walk (mem \<circ> va) cr3 a = Some (Page_2M, p)"
  shows "snd (ADDRESS_TRANSFORM ops mem cr3 a) =
    (let w = mem (va ((p AND NOT 0x1FFFFF) + 8 * table_index 0 a))
     in if entry_none w then 0 else ((if w \<noteq> 0 \<and> \<not> entry_present w then NOT w else w) AND PHYSICAL_PAGE_MASK) OR (a AND 0xFFF))"
proof -
  have "(e AND 0x000FFFFFFFE00000 OR a AND 0x1FFFFF) AND NOT 0x1FFFFF = e AND (0x000FFFFFFFE00000 :: u64)" for e
    by (simp add: word_bw_assocs word_ao_dist)
  then show ?thesis
    using mmu_walk_2m [OF assms] entry_none_present by (simp add: transform_eq Let_def) blast
qed

end

subsection \<open>User memory\<close>

text \<open>What the copies promise for ranges of words that the process has mapped; \<open>rd\<close> is the word at a user address.\<close>

locale user_copy =
  fixes ua :: "'u uaccess" and rd :: "'u \<Rightarrow> u64 \<Rightarrow> u64 option"
  assumes from_length: "length (fst (copy_from_user ua u p n)) = n"
    and from_words: "\<forall>i < n. rd u (p + 8 * of_nat i) \<noteq> None \<Longrightarrow> i < n \<Longrightarrow>
      Some (fst (copy_from_user ua u p n) ! i) = rd u (p + 8 * of_nat i)"
    and to_words: "length ws < 2 ^ 31 \<Longrightarrow> \<forall>i < length ws. rd u (p + 8 * of_nat i) \<noteq> None \<Longrightarrow> i < length ws \<Longrightarrow>
      rd (fst (copy_to_user ua p ws u)) (p + 8 * of_nat i) = Some (ws ! i)"
begin

lemma transform_all_eq: "snd (transform_all ops mem cr3 i vs) = map (\<lambda>v. snd (ADDRESS_TRANSFORM ops mem cr3 v)) vs"
  by (induction vs arbitrary: i) (simp_all add: Let_def case_prod_unfold)

lemma syscall_words:
  assumes "0 < n" and "n < 2 ^ 31" and "\<forall>i < nat n. rd u (src + 8 * of_nat i) \<noteq> None" and "\<forall>i < nat n. rd u (dst + 8 * of_nat i) \<noteq> None"
  shows "\<exists>log u'. my_get_physical_addresses ops ua mem cr3 src n dst m u = Some (log, 0, u') \<and>
    (\<forall>i < nat n. rd u' (dst + 8 * of_nat i) = Some (snd (ADDRESS_TRANSFORM ops mem cr3 (the (rd u (src + 8 * of_nat i))))))"
proof -
  let ?vs = "fst (copy_from_user ua u src (nat n))"
  let ?ps = "map (\<lambda>v. snd (ADDRESS_TRANSFORM ops mem cr3 v)) ?vs"
  have len: "length ?ps = nat n" "length ?ps < 2 ^ 31" using assms(2) by (simp_all add: from_length nat_less_iff)
  have "rd (fst (copy_to_user ua dst ?ps u)) (dst + 8 * of_nat i) = Some (?ps ! i)" if "i < nat n" for i
    using to_words [OF len(2), of u dst i] assms(4) that len(1) by simp
  moreover have "?ps ! i = snd (ADDRESS_TRANSFORM ops mem cr3 (the (rd u (src + 8 * of_nat i))))" if "i < nat n" for i
    using from_words [OF assms(3) that] that len(1) by (metis length_map nth_map option.sel)
  ultimately show ?thesis
    using assms(1) transform_all_eq [of ops mem cr3 0 ?vs]
    by (auto simp: my_get_physical_addresses_def Let_def case_prod_unfold)
qed

text \<open>Whatever happens to the copies, the call returns 0, so the programs never report an error.\<close>

lemma report_rows:
  assumes "names \<noteq> []" and "length names < 2 ^ 31" and "\<forall>i < length names. rd u (va + 8 * of_nat i) \<noteq> None"
    and "\<forall>i < length names. rd u (pa + 8 * of_nat i) \<noteq> None"
  shows "\<exists>rows. segment_report names ops ua rd mem cr3 va pa u = Some (Inr rows) \<and> map fst rows = names \<and>
    (\<forall>i < length names. snd (snd (rows ! i)) = Some (snd (ADDRESS_TRANSFORM ops mem cr3 (the (rd u (va + 8 * of_nat i))))))"
proof -
  have "int (length names) < 2 ^ 31" using assms(2) by simp
  from syscall_words [OF _ this, of u va pa ops mem cr3 "int (length names)"] assms
  obtain log u' where u': "my_get_physical_addresses ops ua mem cr3 va (int (length names)) pa (int (length names)) u = Some (log, 0, u')"
    "\<forall>i < length names. rd u' (pa + 8 * of_nat i) = Some (snd (ADDRESS_TRANSFORM ops mem cr3 (the (rd u (va + 8 * of_nat i)))))"
    by auto
  have "map ((!) names) [0..<length names] = names" by (rule map_nth)
  then show ?thesis using u' by (simp add: segment_report_def comp_def)
qed

end

text \<open>User memory as a partial map of words, read and written up to the first word that is not mapped.\<close>

type_synonym umem = "u64 \<rightharpoonup> u64"

fun put_words :: "u64 \<Rightarrow> u64 list \<Rightarrow> umem \<Rightarrow> umem \<times> nat" where
  "put_words p [] u = (u, 0)"
| "put_words p (w # ws) u = (if u p = None then (u, 8 * length (w # ws)) else put_words (p + 8) ws (u(p \<mapsto> w)))"

fun get_words :: "umem \<Rightarrow> u64 \<Rightarrow> nat \<Rightarrow> u64 list \<times> nat" where
  "get_words u p 0 = ([], 0)"
| "get_words u p (Suc n) =
     (case u p of None \<Rightarrow> (replicate (Suc n) 0, 8 * Suc n) | Some w \<Rightarrow> let (ws, r) = get_words u (p + 8) n in (w # ws, r))"

definition user_words :: "umem uaccess" where
  "user_words = \<lparr>copy_from_user = get_words, copy_to_user = put_words\<rparr>"

lemma get_words_length: "length (fst (get_words u p n)) = n"
  by (induction n arbitrary: p) (simp_all add: case_prod_unfold Let_def split: option.split)

lemma get_words_nth: "\<forall>i < n. u (p + 8 * of_nat i) \<noteq> None \<Longrightarrow> i < n \<Longrightarrow> Some (fst (get_words u p n) ! i) = u (p + 8 * of_nat i)"
proof (induction n arbitrary: p i)
  case (Suc n)
  obtain w where w: "u p = Some w" using Suc.prems(1) by force
  have "\<forall>i < n. u (p + 8 + 8 * of_nat i) \<noteq> None" using Suc.prems(1) by (auto simp: algebra_simps dest: spec [of _ "Suc i" for i])
  then show ?case
    using Suc.IH [of "p + 8" "i - 1"] Suc.prems(2) w by (cases i) (simp_all add: Let_def case_prod_unfold algebra_simps)
qed simp

lemma put_words_other: "\<forall>i < length ws. q \<noteq> p + 8 * of_nat i \<Longrightarrow> fst (put_words p ws u) q = u q"
proof (induction ws arbitrary: p u)
  case (Cons w ws)
  have "\<forall>i < length ws. q \<noteq> p + 8 + 8 * of_nat i"
    using Cons.prems by (auto simp: algebra_simps dest: spec [of _ "Suc i" for i])
  moreover have "q \<noteq> p" using Cons.prems by force
  ultimately show ?case using Cons.IH by simp
qed simp

lemma word_offset_nz: "j < 2 ^ 31 \<Longrightarrow> (8 * of_nat (Suc j) :: u64) \<noteq> 0"
proof
  assume j: "j < 2 ^ 31" and "(8 * of_nat (Suc j) :: u64) = 0"
  then have "(of_nat (8 * Suc j) :: u64) = 0" by (simp only: of_nat_mult) simp
  then have "2 ^ 64 dvd 8 * Suc j" by (simp only: word_of_nat_eq_0_iff) simp
  then show False using j by (auto dest: dvd_imp_le)
qed

lemma put_words_nth:
  "length ws \<le> 2 ^ 31 \<Longrightarrow> \<forall>i < length ws. u (p + 8 * of_nat i) \<noteq> None \<Longrightarrow> i < length ws \<Longrightarrow>
    fst (put_words p ws u) (p + 8 * of_nat i) = Some (ws ! i)"
proof (induction ws arbitrary: p u i)
  case (Cons w ws)
  define u1 where "u1 = u(p \<mapsto> w)"
  have "u p \<noteq> None" using Cons.prems(2) by force
  then have eq: "fst (put_words p (w # ws) u) = fst (put_words (p + 8) ws u1)" by (auto simp: u1_def)
  have "u (p + 8 + 8 * of_nat i) \<noteq> None" if "i < length ws" for i
    using Cons.prems(2) that by (auto simp: algebra_simps dest: spec [of _ "Suc i"])
  then have m: "\<forall>i < length ws. u1 (p + 8 + 8 * of_nat i) \<noteq> None" by (simp add: u1_def)
  show ?case
  proof (cases i)
    case 0
    have "p \<noteq> p + 8 + 8 * of_nat j" if "j < length ws" for j
      using word_offset_nz [of j] Cons.prems(1) that by (auto simp: algebra_simps)
    then show ?thesis using put_words_other [of ws p "p + 8" u1] 0 by (simp add: eq u1_def del: put_words.simps)
  next
    case (Suc j)
    then show ?thesis using Cons.IH [of u1 "p + 8" j] m Cons.prems by (simp add: eq algebra_simps del: put_words.simps)
  qed
qed simp

interpretation uw: user_copy user_words "\<lambda>u. u"
  by unfold_locales (simp_all add: user_words_def get_words_length get_words_nth put_words_nth)

subsection \<open>What the walk and the system call report\<close>

text \<open>
  C4.  The software walk agrees with the processor on ordinary pages: whenever the processor translates an address
  through a page of 4 KiB, the walk returns the physical address that the processor uses, and when the walk
  reports an address of a page as not mapped, the processor has no page of 4 KiB for it either.
\<close>

theorem address_transform_correct:
  fixes base cr3 va mem
  defines "walk \<equiv> mmu_walk (mem \<circ> (\<lambda>a. base + a)) cr3 va" and "p \<equiv> snd (ADDRESS_TRANSFORM (x86_64_pgtable base) mem cr3 va)"
  shows "(\<forall>q. walk = Some (Page_4K, q) \<longrightarrow> p = q) \<and> (p = 0 \<and> va AND 0xFFF \<noteq> 0 \<longrightarrow> (\<forall>q. walk \<noteq> Some (Page_4K, q)))"
  using x86_64.transform_4k [of mem base cr3 va] mmu_walk_4k [of "mem \<circ> (\<lambda>a. base + a)" cr3 va] unfolding walk_def p_def by blast

text \<open>
  C40.  Large pages are not recognised: for an address that the processor translates through a page of 2 MiB the walk takes a
  word of the contents of that page for the last table entry, so what it returns depends on the data that the
  process stored there, and it reports the address as not mapped when that word is zero.
\<close>

theorem address_transform_large_page:
  assumes "mmu_walk (mem \<circ> (\<lambda>a. base + a)) cr3 va = Some (Page_2M, p)"
  shows "snd (ADDRESS_TRANSFORM (x86_64_pgtable base) mem cr3 va) =
    (let w = mem (base + ((p AND NOT 0x1FFFFF) + 8 * table_index 0 va))
     in if entry_none w then 0 else ((if w \<noteq> 0 \<and> \<not> entry_present w then NOT w else w) AND PHYSICAL_PAGE_MASK) OR (va AND 0xFFF))"
  by (rule x86_64.transform_2m [OF assms])


subsection \<open>A concrete page table\<close>

text \<open>Tables at 0x1000 to 0x4000 that map the first page to 0x5000; with a large entry in the third table the first 2 MiB go to 0x200000.\<close>

definition sample_tables :: "bool \<Rightarrow> mem" where
  "sample_tables large a = (if a = 0x1000 then 0x2001 else if a = 0x2000 then 0x3001
     else if a = 0x3000 then (if large then 0x200081 else 0x4001) else if a = 0x4000 then 0x5007 else 0)"

lemma sample_indices: "table_index 0 0x123 = 0" "table_index (Suc 0) 0x123 = 0" "table_index 2 0x123 = 0" "table_index 3 0x123 = 0"
  by (simp_all add: table_index_def drop_bit_eq_div)

lemma sample_walk: "mmu_walk (sample_tables False \<circ> (\<lambda>a. 0 + a)) 0x1000 0x123 = Some (Page_4K, 0x5123)"
  "mmu_walk (sample_tables True \<circ> (\<lambda>a. 0 + a)) 0x1000 0x123 = Some (Page_2M, 0x200123)"
  by (simp_all add: mmu_walk_def sample_indices sample_tables_def entry_present_def entry_large_def PHYSICAL_PAGE_MASK_def bit_numeral_rec Let_def)

theorem address_transform_correct_witness: "snd (ADDRESS_TRANSFORM (x86_64_pgtable 0) (sample_tables False) 0x1000 0x123) = 0x5123"
  by (rule address_transform_correct [THEN conjunct1, THEN spec, THEN mp, OF sample_walk(1)])

theorem address_transform_large_page_witness:
  "mmu_walk (sample_tables True \<circ> (\<lambda>a. 0 + a)) 0x1000 0x123 = Some (Page_2M, 0x200123) \<and>
   snd (ADDRESS_TRANSFORM (x86_64_pgtable 0) (sample_tables True) 0x1000 0x123) = 0"
  using address_transform_large_page [OF sample_walk(2)] sample_walk(2)
  by (simp add: sample_indices sample_tables_def entry_none_def)


end
