(* ===== verification/Spec2Isabelle.thy ===== *)
theory Spec2Isabelle
  imports Unshare Address_Transform
begin

text \<open>
  Verification of the scheduler core and of the system calls of the NCU Linux kernel projects.
\<close>

end
